theory Spec2Isabelle
  imports Main "HOL-Library.Word" "HOL-Library.Signed_Division"
begin

section \<open>Tokens\<close>

text \<open>
  The token kinds the parser and the interpreter name. The enumeration itself is declared
  in a header that is not part of the sources at hand; \<open>OTHER_TOKEN\<close> stands for every
  kind that neither of them mentions. \<open>CONST_TOKEN\<close> is the kind \<open>CONST\<close>, whose plain
  name is reserved.
\<close>

datatype TokenType =
    END_OF_FILE | SEMICOLON | COMMA | LEFT_PAREN | RIGHT_PAREN | LEFT_BRACE | RIGHT_BRACE
  | FUNCTION | VAR | CONST_TOKEN | FOR | IF | ELSE | WHILE | RETURN | PRINT
  | EQUAL | OR | AND | BANG_EQUAL | EQUAL_EQUAL
  | GREATER | GREATER_EQUAL | LESS | LESS_EQUAL
  | MINUS | PLUS | SLASH | STAR | PERCENT | BANG
  | FALSE | TRUE | NIL
  | INTEGER_LITERAL | FLOAT_LITERAL | STRING_LITERAL | IDENTIFIER
  | OTHER_TOKEN

record Token =
  type :: TokenType
  lexeme :: string
  line :: nat
  column :: nat

section \<open>Values\<close>

text \<open>
  \<open>Value\<close> is \<open>std::variant<int, double, std::string, bool, std::nullptr_t>\<close>.
  An \<open>int\<close> is a 32-bit word read as two's complement; C++ leaves signed overflow
  undefined, the model wraps around. A \<open>double\<close> is its IEEE 754 binary64 bit pattern:
  bit 63 is the sign, bits 62 to 52 the exponent, bits 51 to 0 the fraction.
\<close>

type_synonym cint = "32 word"
type_synonym double = "64 word"

datatype Value = VInt cint | VDouble double | VString string | VBool bool | VNil

subsection \<open>Doubles\<close>

text \<open>
  Comparison and negation of doubles are exact operations on the bit pattern and are
  defined here. A NaN has all exponent bits set and a fraction that is not zero; it is
  unordered and unequal to everything, itself included. The two zeros are equal.
\<close>

definition magnitude :: "double \<Rightarrow> double" where
  "magnitude d = take_bit 63 d"

definition is_nan :: "double \<Rightarrow> bool" where
  "is_nan d \<longleftrightarrow> 0x7FF0000000000000 < magnitude d"

definition double_key :: "double \<Rightarrow> int" where
  "double_key d = (if bit d 63 then - uint (magnitude d) else uint (magnitude d))"

definition double_eq :: "double \<Rightarrow> double \<Rightarrow> bool" where
  "double_eq a b \<longleftrightarrow> \<not> is_nan a \<and> \<not> is_nan b \<and> double_key a = double_key b"

definition double_ne :: "double \<Rightarrow> double \<Rightarrow> bool" where
  "double_ne a b \<longleftrightarrow> is_nan a \<or> is_nan b \<or> double_key a \<noteq> double_key b"

definition double_less :: "double \<Rightarrow> double \<Rightarrow> bool" where
  "double_less a b \<longleftrightarrow> \<not> is_nan a \<and> \<not> is_nan b \<and> double_key a < double_key b"

definition double_le :: "double \<Rightarrow> double \<Rightarrow> bool" where
  "double_le a b \<longleftrightarrow> \<not> is_nan a \<and> \<not> is_nan b \<and> double_key a \<le> double_key b"

definition double_neg :: "double \<Rightarrow> double" where
  "double_neg d = flip_bit 63 d"

definition double_zero :: double where
  "double_zero = 0"

text \<open>
  The operations that round, and the two library routines that convert between doubles
  and text, are taken as parameters: \<open>stod\<close> is \<open>std::stod\<close>, with \<open>None\<close> where it
  throws \<open>std::invalid_argument\<close> or \<open>std::out_of_range\<close>; \<open>dshow\<close> is what
  \<open>std::cout << d\<close> writes.
\<close>

record double_arith =
  stod :: "string \<Rightarrow> double option"
  dadd :: "double \<Rightarrow> double \<Rightarrow> double"
  dsub :: "double \<Rightarrow> double \<Rightarrow> double"
  dmul :: "double \<Rightarrow> double \<Rightarrow> double"
  ddiv :: "double \<Rightarrow> double \<Rightarrow> double"
  dshow :: "double \<Rightarrow> string"

subsection \<open>Integers as text\<close>

fun decimal :: "nat \<Rightarrow> string" where
  "decimal n = (if n < 10 then [''0123456789'' ! n]
                else decimal (n div 10) @ [''0123456789'' ! (n mod 10)])"

declare decimal.simps [simp del]

text \<open>\<open>std::to_string(int)\<close>: the decimal digits, after a minus sign when negative.\<close>

definition to_string :: "cint \<Rightarrow> string" where
  "to_string i = (if sint i < 0 then ''-'' @ decimal (nat (- sint i)) else decimal (nat (sint i)))"

text \<open>
  Integer division truncates towards zero. It has no value where C++ leaves it undefined:
  for a zero divisor, and for \<open>INT_MIN / -1\<close>, whose quotient is not an \<open>int\<close> and on
  which the division instruction traps.
\<close>

definition int_div :: "cint \<Rightarrow> cint \<Rightarrow> cint option" where
  "int_div a b =
     (if b = 0 \<or> (a = 0x80000000 \<and> b = - 1) then None
      else Some (word_of_int (sint a sdiv sint b)))"

subsection \<open>Equality of values\<close>

text \<open>
  \<open>operator==\<close> and \<open>operator!=\<close> of \<open>std::variant\<close>: the alternatives must have the
  same index, and then the held values are compared with their own operator.
\<close>

fun variant_eq :: "Value \<Rightarrow> Value \<Rightarrow> bool" where
  "variant_eq (VInt a) (VInt b) = (a = b)"
| "variant_eq (VDouble a) (VDouble b) = double_eq a b"
| "variant_eq (VString a) (VString b) = (a = b)"
| "variant_eq (VBool a) (VBool b) = (a = b)"
| "variant_eq VNil VNil = True"
| "variant_eq _ _ = False"

fun variant_ne :: "Value \<Rightarrow> Value \<Rightarrow> bool" where
  "variant_ne (VInt a) (VInt b) = (a \<noteq> b)"
| "variant_ne (VDouble a) (VDouble b) = double_ne a b"
| "variant_ne (VString a) (VString b) = (a \<noteq> b)"
| "variant_ne (VBool a) (VBool b) = (a \<noteq> b)"
| "variant_ne VNil VNil = False"
| "variant_ne _ _ = True"

section \<open>Syntax trees\<close>

text \<open>
  The node classes are declared in a header that is not part of the sources at hand; the
  fields are the ones the parser passes to the constructors and the interpreter reads
  back. A null pointer child is \<open>None\<close>. A literal node holds the value it was built from.
\<close>

datatype Expr =
    LiteralExpr Value
  | UnaryExpr Token Expr
  | BinaryExpr Expr Token Expr
  | GroupingExpr Expr
  | VariableExpr Token
  | AssignExpr Token Expr
  | CallExpr Expr Token "Expr list"

datatype Stmt =
    ExpressionStmt Expr
  | VarDeclStmt Token "Expr option" bool
  | BlockStmt "Stmt list"
  | IfStmt Expr Stmt "Stmt option"
  | WhileStmt Expr Stmt
  | ReturnStmt Token "Expr option"
  | FunctionStmt Token "Token list" "Stmt list"

section \<open>The interpreter\<close>

text \<open>
  A run ends early with a \<open>std::runtime_error\<close> and its message, or with \<open>Trap\<close>: the end
  of the process on the one operation that has no value, the division \<open>INT_MIN / -1\<close>.
\<close>

datatype fault = RuntimeError string | Trap

text \<open>
  The interpreter's fields, and the lines written to \<open>std::cout\<close>. A statement that
  throws leaves the state as it was at the throw.
\<close>

record Interpreter =
  variables :: "string \<rightharpoonup> Value"
  lastValue :: Value
  cout :: "string list"

type_synonym 'a interp = "Interpreter \<Rightarrow> (fault + 'a) \<times> Interpreter"

definition new_Interpreter :: Interpreter where
  "new_Interpreter = \<lparr>variables = Map.empty, lastValue = VInt 0, cout = []\<rparr>"

subsection \<open>Binary operators\<close>

fun plus_values :: "double_arith \<Rightarrow> Value \<Rightarrow> Value \<Rightarrow> fault + Value" where
  "plus_values F (VInt a) (VInt b) = Inr (VInt (a + b))"
| "plus_values F (VDouble a) (VDouble b) = Inr (VDouble (dadd F a b))"
| "plus_values F (VString a) (VString b) = Inr (VString (a @ b))"
| "plus_values F (VString a) (VInt b) = Inr (VString (a @ to_string b))"
| "plus_values F (VInt a) (VString b) = Inr (VString (to_string a @ b))"
| "plus_values F _ _ = Inl (RuntimeError ''Invalid operands to +'')"

fun minus_values :: "double_arith \<Rightarrow> Value \<Rightarrow> Value \<Rightarrow> fault + Value" where
  "minus_values F (VInt a) (VInt b) = Inr (VInt (a - b))"
| "minus_values F (VDouble a) (VDouble b) = Inr (VDouble (dsub F a b))"
| "minus_values F _ _ = Inl (RuntimeError ''Invalid operands to -'')"

fun star_values :: "double_arith \<Rightarrow> Value \<Rightarrow> Value \<Rightarrow> fault + Value" where
  "star_values F (VInt a) (VInt b) = Inr (VInt (a * b))"
| "star_values F (VDouble a) (VDouble b) = Inr (VDouble (dmul F a b))"
| "star_values F _ _ = Inl (RuntimeError ''Invalid operands to *'')"

fun slash_values :: "double_arith \<Rightarrow> Value \<Rightarrow> Value \<Rightarrow> fault + Value" where
  "slash_values F (VInt a) (VInt b) =
     (if b = 0 then Inl (RuntimeError ''Division by zero'')
      else (case int_div a b of None \<Rightarrow> Inl Trap | Some q \<Rightarrow> Inr (VInt q)))"
| "slash_values F (VDouble a) (VDouble b) =
     (if double_eq b double_zero then Inl (RuntimeError ''Division by zero'')
      else Inr (VDouble (ddiv F a b)))"
| "slash_values F _ _ = Inl (RuntimeError ''Invalid operands to /'')"

fun less_values :: "Value \<Rightarrow> Value \<Rightarrow> fault + Value" where
  "less_values (VInt a) (VInt b) = Inr (VBool (sint a < sint b))"
| "less_values (VDouble a) (VDouble b) = Inr (VBool (double_less a b))"
| "less_values _ _ = Inl (RuntimeError ''Invalid operands to <'')"

fun less_equal_values :: "Value \<Rightarrow> Value \<Rightarrow> fault + Value" where
  "less_equal_values (VInt a) (VInt b) = Inr (VBool (sint a \<le> sint b))"
| "less_equal_values (VDouble a) (VDouble b) = Inr (VBool (double_le a b))"
| "less_equal_values _ _ = Inl (RuntimeError ''Invalid operands to <='')"

fun greater_values :: "Value \<Rightarrow> Value \<Rightarrow> fault + Value" where
  "greater_values (VInt a) (VInt b) = Inr (VBool (sint b < sint a))"
| "greater_values (VDouble a) (VDouble b) = Inr (VBool (double_less b a))"
| "greater_values _ _ = Inl (RuntimeError ''Invalid operands to >'')"

fun greater_equal_values :: "Value \<Rightarrow> Value \<Rightarrow> fault + Value" where
  "greater_equal_values (VInt a) (VInt b) = Inr (VBool (sint b \<le> sint a))"
| "greater_equal_values (VDouble a) (VDouble b) = Inr (VBool (double_le b a))"
| "greater_equal_values _ _ = Inl (RuntimeError ''Invalid operands to >='')"

text \<open>The \<open>switch\<close> of \<open>visitBinaryExpr\<close> on the operator's token kind.\<close>

definition binary_switch :: "double_arith \<Rightarrow> TokenType \<Rightarrow> Value \<Rightarrow> Value \<Rightarrow> fault + Value" where
  "binary_switch F t left right =
     (if t = PLUS then plus_values F left right
      else if t = MINUS then minus_values F left right
      else if t = STAR then star_values F left right
      else if t = SLASH then slash_values F left right
      else if t = EQUAL_EQUAL then Inr (VBool (variant_eq left right))
      else if t = BANG_EQUAL then Inr (VBool (variant_ne left right))
      else if t = LESS then less_values left right
      else if t = LESS_EQUAL then less_equal_values left right
      else if t = GREATER then greater_values left right
      else if t = GREATER_EQUAL then greater_equal_values left right
      else Inl (RuntimeError ''Unknown binary operator''))"

subsection \<open>Expressions\<close>

text \<open>What \<open>print\<close> writes for one argument, without the line end.\<close>

fun rendering :: "double_arith \<Rightarrow> Value \<Rightarrow> string" where
  "rendering F (VInt i) = to_string i"
| "rendering F (VDouble d) = dshow F d"
| "rendering F (VString s) = s"
| "rendering F (VBool b) = (if b then ''true'' else ''false'')"
| "rendering F VNil = ''nil''"

text \<open>
  \<open>accept\<close> is the dispatch of an expression node to its visitor, which leaves the
  result in \<open>lastValue\<close>; \<open>evaluate\<close> reads it back. \<open>print_arguments\<close> is the loop of
  \<open>visitCallExpr\<close> over the arguments.
\<close>

fun accept :: "double_arith \<Rightarrow> Expr \<Rightarrow> unit interp"
and evaluate :: "double_arith \<Rightarrow> Expr \<Rightarrow> Value interp"
and print_arguments :: "double_arith \<Rightarrow> Expr list \<Rightarrow> unit interp"
where
  "evaluate F expr s =
     (case accept F expr s of
        (Inl f, s') \<Rightarrow> (Inl f, s')
      | (Inr _, s') \<Rightarrow> (Inr (lastValue s'), s'))"
| "accept F (LiteralExpr v) s = (Inr (), s\<lparr>lastValue := v\<rparr>)"
| "accept F (UnaryExpr op right) s =
     (case evaluate F right s of
        (Inl f, s1) \<Rightarrow> (Inl f, s1)
      | (Inr r, s1) \<Rightarrow>
          if type op = MINUS then
            (case r of
               VInt i \<Rightarrow> (Inr (), s1\<lparr>lastValue := VInt (- i)\<rparr>)
             | VDouble d \<Rightarrow> (Inr (), s1\<lparr>lastValue := VDouble (double_neg d)\<rparr>)
             | _ \<Rightarrow> (Inl (RuntimeError ''Unary minus on non-number''), s1))
          else if type op = BANG then
            (case r of
               VBool b \<Rightarrow> (Inr (), s1\<lparr>lastValue := VBool (\<not> b)\<rparr>)
             | _ \<Rightarrow> (Inl (RuntimeError ''Unary ! on non-bool''), s1))
          else (Inr (), s1))"
| "accept F (BinaryExpr left op right) s =
     (case evaluate F left s of
        (Inl f, s1) \<Rightarrow> (Inl f, s1)
      | (Inr l, s1) \<Rightarrow>
          (case evaluate F right s1 of
             (Inl f, s2) \<Rightarrow> (Inl f, s2)
           | (Inr r, s2) \<Rightarrow>
               (case binary_switch F (type op) l r of
                  Inl f \<Rightarrow> (Inl f, s2)
                | Inr v \<Rightarrow> (Inr (), s2\<lparr>lastValue := v\<rparr>))))"
| "accept F (GroupingExpr expr) s =
     (case evaluate F expr s of
        (Inl f, s1) \<Rightarrow> (Inl f, s1)
      | (Inr v, s1) \<Rightarrow> (Inr (), s1\<lparr>lastValue := v\<rparr>))"
| "accept F (VariableExpr name) s =
     (case variables s (lexeme name) of
        None \<Rightarrow> (Inl (RuntimeError (''Undefined variable: '' @ lexeme name)), s)
      | Some v \<Rightarrow> (Inr (), s\<lparr>lastValue := v\<rparr>))"
| "accept F (AssignExpr name expr) s =
     (case evaluate F expr s of
        (Inl f, s1) \<Rightarrow> (Inl f, s1)
      | (Inr v, s1) \<Rightarrow>
          (Inr (), s1\<lparr>variables := (variables s1)(lexeme name \<mapsto> v), lastValue := v\<rparr>))"
| "accept F (CallExpr callee paren arguments) s =
     (case callee of
        VariableExpr var \<Rightarrow>
          if lexeme var = ''print'' then
            (case print_arguments F arguments s of
               (Inl f, s1) \<Rightarrow> (Inl f, s1)
             | (Inr _, s1) \<Rightarrow> (Inr (), s1\<lparr>lastValue := VNil\<rparr>))
          else (Inl (RuntimeError ''Only print() is supported as a built-in function''), s)
      | _ \<Rightarrow> (Inl (RuntimeError ''Only print() is supported as a built-in function''), s))"
| "print_arguments F [] s = (Inr (), s)"
| "print_arguments F (arg # args) s =
     (case evaluate F arg s of
        (Inl f, s1) \<Rightarrow> (Inl f, s1)
      | (Inr v, s1) \<Rightarrow> print_arguments F args (s1\<lparr>cout := cout s1 @ [rendering F v]\<rparr>))"

subsection \<open>Statements\<close>

text \<open>
  \<open>execute\<close> is the dispatch of a statement node to its visitor; \<open>execute_all\<close> is the
  loop of \<open>visitBlockStmt\<close> over the statements of a block.
\<close>

fun execute :: "double_arith \<Rightarrow> Stmt \<Rightarrow> unit interp"
and execute_all :: "double_arith \<Rightarrow> Stmt list \<Rightarrow> unit interp"
where
  "execute F (ExpressionStmt expr) s =
     (case evaluate F expr s of
        (Inl f, s1) \<Rightarrow> (Inl f, s1)
      | (Inr v, s1) \<Rightarrow> (Inr (), s1\<lparr>lastValue := v\<rparr>))"
| "execute F (VarDeclStmt name initializer is_const) s =
     (case initializer of
        None \<Rightarrow> (Inr (), s\<lparr>variables := (variables s)(lexeme name \<mapsto> VNil), lastValue := VNil\<rparr>)
      | Some expr \<Rightarrow>
          (case evaluate F expr s of
             (Inl f, s1) \<Rightarrow> (Inl f, s1)
           | (Inr v, s1) \<Rightarrow>
               (Inr (), s1\<lparr>variables := (variables s1)(lexeme name \<mapsto> v), lastValue := v\<rparr>)))"
| "execute F (BlockStmt statements) s = execute_all F statements s"
| "execute F (IfStmt condition thenBranch elseBranch) s =
     (case evaluate F condition s of
        (Inl f, s1) \<Rightarrow> (Inl f, s1)
      | (Inr cond, s1) \<Rightarrow>
          (case cond of
             VBool b \<Rightarrow>
               if b then execute F thenBranch s1
               else (case elseBranch of None \<Rightarrow> (Inr (), s1) | Some e \<Rightarrow> execute F e s1)
           | VInt i \<Rightarrow>
               if i \<noteq> 0 then execute F thenBranch s1
               else (case elseBranch of None \<Rightarrow> (Inr (), s1) | Some e \<Rightarrow> execute F e s1)
           | _ \<Rightarrow> (Inl (RuntimeError ''Invalid condition in if statement''), s1)))"
| "execute F (WhileStmt condition body) s = (Inr (), s)"
| "execute F (FunctionStmt name params body) s = (Inr (), s)"
| "execute F (ReturnStmt keyword val) s = (Inr (), s)"
| "execute_all F [] s = (Inr (), s)"
| "execute_all F (stmt # stmts) s =
     (case execute F stmt s of
        (Inl f, s1) \<Rightarrow> (Inl f, s1)
      | (Inr _, s1) \<Rightarrow> execute_all F stmts s1)"

text \<open>
  \<open>Interpreter::interpret\<close>: the top-level statements, one after the other. (The name
  carries a suffix because the plain one is reserved.)
\<close>

fun interpret_stmts :: "double_arith \<Rightarrow> Stmt list \<Rightarrow> unit interp" where
  "interpret_stmts F [] s = (Inr (), s)"
| "interpret_stmts F (stmt # stmts) s =
     (case execute F stmt s of
        (Inl f, s1) \<Rightarrow> (Inl f, s1)
      | (Inr _, s1) \<Rightarrow> interpret_stmts F stmts s1)"

section \<open>The parser\<close>

subsection \<open>State and outcomes\<close>

text \<open>
  Modelled from the spec: the diagnostics collector, whose code is not part of the
  sources at hand. A diagnostic is a severity, a message and a source location (file
  name, line, column); \<open>report\<close> adds one to the end of the list.
\<close>

datatype DiagnosticSeverity = ERROR

record SourceLocation =
  loc_filename :: string
  loc_line :: nat
  loc_column :: nat

record Diagnostic =
  severity :: DiagnosticSeverity
  message :: string
  location :: SourceLocation

definition report ::
  "DiagnosticSeverity \<Rightarrow> string \<Rightarrow> SourceLocation \<Rightarrow> Diagnostic list \<Rightarrow> Diagnostic list" where
  "report sev msg loc ds = ds @ [\<lparr>severity = sev, message = msg, location = loc\<rparr>]"

record Parser =
  tokens :: "Token list"
  filename :: string
  current :: nat
  diagnostics :: "Diagnostic list"

text \<open>
  What a parsing routine can throw: a \<open>ParseError\<close> with its message, or one of the two
  exceptions of \<open>std::stod\<close>. \<open>ParseError\<close> is declared in the parser's header, which
  is not part of the sources at hand; as the spec has every parse failure caught by the
  handler for \<open>std::exception\<close>, it is taken to derive from that class.

  A routine run on a state ends in one of four ways: it returns a value, it throws, it
  reads the token vector out of range (\<open>Undefined\<close>, which no handler catches), or the
  model's fuel is used up before it ends (\<open>None\<close>).
\<close>

datatype thrown = ParseError string | StodFailure

datatype 'a outcome = Returns 'a | Throws thrown | Undefined

type_synonym 'a parsing = "Parser \<Rightarrow> ('a outcome \<times> Parser) option"

definition return_p :: "'a \<Rightarrow> 'a parsing" where
  "return_p x s = Some (Returns x, s)"

definition throw_p :: "thrown \<Rightarrow> 'a parsing" where
  "throw_p e s = Some (Throws e, s)"

definition out_of_fuel :: "'a parsing" where
  "out_of_fuel s = None"

text \<open>Sequencing: the second routine runs only when the first one returns.\<close>

definition bind_p :: "'a parsing \<Rightarrow> ('a \<Rightarrow> 'b parsing) \<Rightarrow> 'b parsing" where
  "bind_p m f s =
     (case m s of
        None \<Rightarrow> None
      | Some (Returns x, s') \<Rightarrow> f x s'
      | Some (Throws e, s') \<Rightarrow> Some (Throws e, s')
      | Some (Undefined, s') \<Rightarrow> Some (Undefined, s'))"

text \<open>\<open>try { m } catch (const std::exception&) { h }\<close>.\<close>

definition try_catch :: "'a parsing \<Rightarrow> (thrown \<Rightarrow> 'a parsing) \<Rightarrow> 'a parsing" where
  "try_catch m h s =
     (case m s of
        None \<Rightarrow> None
      | Some (Returns x, s') \<Rightarrow> Some (Returns x, s')
      | Some (Throws e, s') \<Rightarrow> h e s'
      | Some (Undefined, s') \<Rightarrow> Some (Undefined, s'))"

subsection \<open>The cursor\<close>

definition peek :: "Token parsing" where
  "peek s = (if current s < length (tokens s)
               then Some (Returns (tokens s ! current s), s)
               else Some (Undefined, s))"

text \<open>\<open>tokens[current - 1]\<close>: with the cursor at 0 the unsigned index wraps around.\<close>

definition previous :: "Token parsing" where
  "previous s = (if 0 < current s \<and> current s - 1 < length (tokens s)
                   then Some (Returns (tokens s ! (current s - 1)), s)
                   else Some (Undefined, s))"

definition isAtEnd :: "bool parsing" where
  "isAtEnd = bind_p peek (\<lambda>t. return_p (type t = END_OF_FILE))"

definition increment_current :: "unit parsing" where
  "increment_current s = Some (Returns (), s\<lparr>current := current s + 1\<rparr>)"

definition advance :: "Token parsing" where
  "advance = bind_p isAtEnd (\<lambda>e.
     bind_p (if \<not> e then increment_current else return_p ()) (\<lambda>_.
     previous))"

definition check :: "TokenType \<Rightarrow> bool parsing" where
  "check t = bind_p isAtEnd (\<lambda>e.
     if e then return_p False
     else bind_p peek (\<lambda>p. return_p (type p = t)))"

definition match :: "TokenType \<Rightarrow> bool parsing" where
  "match t = bind_p (check t) (\<lambda>c.
     if c then bind_p advance (\<lambda>_. return_p True)
     else return_p False)"

text \<open>The overload of \<open>match\<close> that takes a list of kinds.\<close>

fun match_any :: "TokenType list \<Rightarrow> bool parsing" where
  "match_any [] = return_p False"
| "match_any (t # ts) = bind_p (check t) (\<lambda>c.
     if c then bind_p advance (\<lambda>_. return_p True)
     else match_any ts)"

text \<open>\<open>error\<close> reports the diagnostic and returns the exception; the caller may throw it.\<close>

definition error :: "Token \<Rightarrow> string \<Rightarrow> thrown parsing" where
  "error token msg s =
     Some (Returns (ParseError msg),
       s\<lparr>diagnostics :=
           report ERROR
             (if type token = END_OF_FILE then msg @ '' at end of file''
              else msg @ '' at '' @ [CHR 39] @ lexeme token @ [CHR 39])
             \<lparr>loc_filename = filename s, loc_line = line token, loc_column = column token\<rparr>
             (diagnostics s)\<rparr>)"

definition consume :: "TokenType \<Rightarrow> string \<Rightarrow> Token parsing" where
  "consume t msg = bind_p (check t) (\<lambda>c.
     if c then advance
     else bind_p peek (\<lambda>p. bind_p (error p msg) throw_p))"

subsection \<open>Expressions\<close>

text \<open>
  The routines of the grammar call each other in a cycle, and the cycle closes only in
  \<open>expression\<close>. Each routine below takes as \<open>E\<close> the routine it calls for a nested
  expression; \<open>expression\<close> at the end passes itself. Every loop and every routine that
  calls itself counts fuel down.
\<close>

definition primary :: "double_arith \<Rightarrow> Expr parsing \<Rightarrow> Expr parsing" where
  "primary F E =
     bind_p (match FALSE) (\<lambda>m. if m then return_p (LiteralExpr (VBool False)) else
     bind_p (match TRUE) (\<lambda>m. if m then return_p (LiteralExpr (VBool True)) else
     bind_p (match NIL) (\<lambda>m. if m then return_p (LiteralExpr VNil) else
     bind_p (match INTEGER_LITERAL) (\<lambda>m.
     bind_p (if m then return_p True else match FLOAT_LITERAL) (\<lambda>m.
       if m then
         bind_p previous (\<lambda>p.
           case stod F (lexeme p) of
             None \<Rightarrow> throw_p StodFailure
           | Some v \<Rightarrow> return_p (LiteralExpr (VDouble v)))
       else
     bind_p (match STRING_LITERAL) (\<lambda>m.
       if m then bind_p previous (\<lambda>p. return_p (LiteralExpr (VString (lexeme p)))) else
     bind_p (match IDENTIFIER) (\<lambda>m.
       if m then bind_p previous (\<lambda>p. return_p (VariableExpr p)) else
     bind_p (match LEFT_PAREN) (\<lambda>m.
       if m then
         bind_p E (\<lambda>expr.
         bind_p (consume RIGHT_PAREN ''Expect ')' after expression.'') (\<lambda>_.
         return_p (GroupingExpr expr)))
       else bind_p peek (\<lambda>p. bind_p (error p ''Expect expression.'') throw_p)))))))))"

text \<open>The \<open>do ... while (match(COMMA))\<close> loop of \<open>finishCall\<close>.\<close>

primrec finishCall_loop :: "Expr parsing \<Rightarrow> nat \<Rightarrow> Expr list \<Rightarrow> (Expr list) parsing" where
  "finishCall_loop E 0 arguments = out_of_fuel"
| "finishCall_loop E (Suc n) arguments =
     bind_p (if 255 \<le> length arguments
             then bind_p peek (\<lambda>p.
                  bind_p (error p ''Cannot have more than 255 arguments.'') (\<lambda>_. return_p ()))
             else return_p ()) (\<lambda>_.
     bind_p E (\<lambda>arg.
     bind_p (match COMMA) (\<lambda>m.
       if m then finishCall_loop E n (arguments @ [arg])
       else return_p (arguments @ [arg]))))"

definition finishCall :: "Expr parsing \<Rightarrow> nat \<Rightarrow> Expr \<Rightarrow> Expr parsing" where
  "finishCall E n callee =
     bind_p (check RIGHT_PAREN) (\<lambda>c.
     bind_p (if \<not> c then finishCall_loop E n [] else return_p []) (\<lambda>arguments.
     bind_p (consume RIGHT_PAREN ''Expect ')' after arguments.'') (\<lambda>paren.
     return_p (CallExpr callee paren arguments))))"

primrec call_loop :: "Expr parsing \<Rightarrow> nat \<Rightarrow> Expr \<Rightarrow> Expr parsing" where
  "call_loop E 0 expr = out_of_fuel"
| "call_loop E (Suc n) expr =
     bind_p (match LEFT_PAREN) (\<lambda>m.
       if m then bind_p (finishCall E n expr) (call_loop E n)
       else return_p expr)"

definition call :: "double_arith \<Rightarrow> Expr parsing \<Rightarrow> nat \<Rightarrow> Expr parsing" where
  "call F E n = bind_p (primary F E) (call_loop E n)"

primrec unary :: "double_arith \<Rightarrow> Expr parsing \<Rightarrow> nat \<Rightarrow> Expr parsing" where
  "unary F E 0 = out_of_fuel"
| "unary F E (Suc n) =
     bind_p (match_any [BANG, MINUS]) (\<lambda>m.
       if m then
         bind_p previous (\<lambda>op.
         bind_p (unary F E n) (\<lambda>right.
         return_p (UnaryExpr op right)))
       else call F E n)"

primrec factor_loop :: "double_arith \<Rightarrow> Expr parsing \<Rightarrow> nat \<Rightarrow> Expr \<Rightarrow> Expr parsing" where
  "factor_loop F E 0 expr = out_of_fuel"
| "factor_loop F E (Suc n) expr =
     bind_p (match_any [SLASH, STAR, PERCENT]) (\<lambda>m.
       if m then
         bind_p previous (\<lambda>op.
         bind_p (unary F E n) (\<lambda>right.
         factor_loop F E n (BinaryExpr expr op right)))
       else return_p expr)"

definition factor :: "double_arith \<Rightarrow> Expr parsing \<Rightarrow> nat \<Rightarrow> Expr parsing" where
  "factor F E n = bind_p (unary F E n) (factor_loop F E n)"

primrec term_loop :: "double_arith \<Rightarrow> Expr parsing \<Rightarrow> nat \<Rightarrow> Expr \<Rightarrow> Expr parsing" where
  "term_loop F E 0 expr = out_of_fuel"
| "term_loop F E (Suc n) expr =
     bind_p (match_any [MINUS, PLUS]) (\<lambda>m.
       if m then
         bind_p previous (\<lambda>op.
         bind_p (factor F E n) (\<lambda>right.
         term_loop F E n (BinaryExpr expr op right)))
       else return_p expr)"

text \<open>\<open>Parser::term\<close>, with a suffix because the plain name is reserved.\<close>

definition term_expr :: "double_arith \<Rightarrow> Expr parsing \<Rightarrow> nat \<Rightarrow> Expr parsing" where
  "term_expr F E n = bind_p (factor F E n) (term_loop F E n)"

primrec comparison_loop :: "double_arith \<Rightarrow> Expr parsing \<Rightarrow> nat \<Rightarrow> Expr \<Rightarrow> Expr parsing" where
  "comparison_loop F E 0 expr = out_of_fuel"
| "comparison_loop F E (Suc n) expr =
     bind_p (match_any [GREATER, GREATER_EQUAL, LESS, LESS_EQUAL]) (\<lambda>m.
       if m then
         bind_p previous (\<lambda>op.
         bind_p (term_expr F E n) (\<lambda>right.
         comparison_loop F E n (BinaryExpr expr op right)))
       else return_p expr)"

definition comparison :: "double_arith \<Rightarrow> Expr parsing \<Rightarrow> nat \<Rightarrow> Expr parsing" where
  "comparison F E n = bind_p (term_expr F E n) (comparison_loop F E n)"

primrec equality_loop :: "double_arith \<Rightarrow> Expr parsing \<Rightarrow> nat \<Rightarrow> Expr \<Rightarrow> Expr parsing" where
  "equality_loop F E 0 expr = out_of_fuel"
| "equality_loop F E (Suc n) expr =
     bind_p (match_any [BANG_EQUAL, EQUAL_EQUAL]) (\<lambda>m.
       if m then
         bind_p previous (\<lambda>op.
         bind_p (comparison F E n) (\<lambda>right.
         equality_loop F E n (BinaryExpr expr op right)))
       else return_p expr)"

definition equality :: "double_arith \<Rightarrow> Expr parsing \<Rightarrow> nat \<Rightarrow> Expr parsing" where
  "equality F E n = bind_p (comparison F E n) (equality_loop F E n)"

primrec logicalAnd_loop :: "double_arith \<Rightarrow> Expr parsing \<Rightarrow> nat \<Rightarrow> Expr \<Rightarrow> Expr parsing" where
  "logicalAnd_loop F E 0 expr = out_of_fuel"
| "logicalAnd_loop F E (Suc n) expr =
     bind_p (match AND) (\<lambda>m.
       if m then
         bind_p previous (\<lambda>op.
         bind_p (equality F E n) (\<lambda>right.
         logicalAnd_loop F E n (BinaryExpr expr op right)))
       else return_p expr)"

definition logicalAnd :: "double_arith \<Rightarrow> Expr parsing \<Rightarrow> nat \<Rightarrow> Expr parsing" where
  "logicalAnd F E n = bind_p (equality F E n) (logicalAnd_loop F E n)"

primrec logicalOr_loop :: "double_arith \<Rightarrow> Expr parsing \<Rightarrow> nat \<Rightarrow> Expr \<Rightarrow> Expr parsing" where
  "logicalOr_loop F E 0 expr = out_of_fuel"
| "logicalOr_loop F E (Suc n) expr =
     bind_p (match OR) (\<lambda>m.
       if m then
         bind_p previous (\<lambda>op.
         bind_p (logicalAnd F E n) (\<lambda>right.
         logicalOr_loop F E n (BinaryExpr expr op right)))
       else return_p expr)"

definition logicalOr :: "double_arith \<Rightarrow> Expr parsing \<Rightarrow> nat \<Rightarrow> Expr parsing" where
  "logicalOr F E n = bind_p (logicalAnd F E n) (logicalOr_loop F E n)"

primrec assignment :: "double_arith \<Rightarrow> Expr parsing \<Rightarrow> nat \<Rightarrow> Expr parsing" where
  "assignment F E 0 = out_of_fuel"
| "assignment F E (Suc n) =
     bind_p (logicalOr F E n) (\<lambda>expr.
     bind_p (match EQUAL) (\<lambda>m.
       if m then
         bind_p previous (\<lambda>equals.
         bind_p (assignment F E n) (\<lambda>val.
           case expr of
             VariableExpr name \<Rightarrow> return_p (AssignExpr name val)
           | _ \<Rightarrow> bind_p (error equals ''Invalid assignment target'') (\<lambda>_. return_p expr)))
       else return_p expr))"

primrec expression :: "double_arith \<Rightarrow> nat \<Rightarrow> Expr parsing" where
  "expression F 0 s = out_of_fuel s"
| "expression F (Suc n) s = assignment F (expression F n) (Suc n) s"

subsection \<open>Statements\<close>

definition expressionStatement :: "double_arith \<Rightarrow> nat \<Rightarrow> Stmt parsing" where
  "expressionStatement F n =
     bind_p (expression F n) (\<lambda>expr.
     bind_p (consume SEMICOLON ''Expect ';' after expression'') (\<lambda>_.
     return_p (ExpressionStmt expr)))"

definition printStatement :: "double_arith \<Rightarrow> nat \<Rightarrow> Stmt parsing" where
  "printStatement F n =
     bind_p (expression F n) (\<lambda>val.
     bind_p (consume SEMICOLON ''Expect ';' after value.'') (\<lambda>_.
     return_p (ExpressionStmt val)))"

definition returnStatement :: "double_arith \<Rightarrow> nat \<Rightarrow> Stmt parsing" where
  "returnStatement F n =
     bind_p previous (\<lambda>keyword.
     bind_p (check SEMICOLON) (\<lambda>c.
     bind_p (if \<not> c then bind_p (expression F n) (\<lambda>e. return_p (Some e))
             else return_p None) (\<lambda>val.
     bind_p (consume SEMICOLON ''Expect ';' after return value'') (\<lambda>_.
     return_p (ReturnStmt keyword val)))))"

definition varDeclaration :: "double_arith \<Rightarrow> nat \<Rightarrow> bool \<Rightarrow> Stmt parsing" where
  "varDeclaration F n is_const =
     bind_p (consume IDENTIFIER ''Expect variable name'') (\<lambda>name.
     bind_p (match EQUAL) (\<lambda>m.
     bind_p (if m then bind_p (expression F n) (\<lambda>e. return_p (Some e))
             else if is_const
               then bind_p (error name ''Const declarations must have an initializer'') throw_p
             else return_p None) (\<lambda>initializer.
     bind_p (consume SEMICOLON ''Expect ';' after variable declaration'') (\<lambda>_.
     return_p (VarDeclStmt name initializer is_const)))))"

text \<open>
  Modelled from the spec: the default of \<open>varDeclaration\<close>'s parameter \<open>is_const\<close>, which
  is given in the parser's header and not in the sources at hand. \<open>declaration\<close> calls
  \<open>varDeclaration()\<close> for the keyword \<open>var\<close>, and the spec has \<open>var x;\<close> parse without a
  diagnostic, so the default is false.
\<close>

definition is_const_default :: bool where
  "is_const_default = False"

text \<open>
  \<open>ifStatement\<close>, \<open>whileStatement\<close> and \<open>block\<close> take as \<open>S\<close> and \<open>D\<close> the routines
  they call for a nested statement and a nested declaration.
\<close>

definition ifStatement :: "double_arith \<Rightarrow> Stmt parsing \<Rightarrow> nat \<Rightarrow> Stmt parsing" where
  "ifStatement F S n =
     bind_p (consume LEFT_PAREN (''Expect '(' after 'if'' @ [CHR 39])) (\<lambda>_.
     bind_p (expression F n) (\<lambda>condition.
     bind_p (consume RIGHT_PAREN ''Expect ')' after if condition'') (\<lambda>_.
     bind_p S (\<lambda>thenBranch.
     bind_p (match ELSE) (\<lambda>m.
     bind_p (if m then bind_p S (\<lambda>e. return_p (Some e)) else return_p None) (\<lambda>elseBranch.
     return_p (IfStmt condition thenBranch elseBranch)))))))"

definition whileStatement :: "double_arith \<Rightarrow> Stmt parsing \<Rightarrow> nat \<Rightarrow> Stmt parsing" where
  "whileStatement F S n =
     bind_p (consume LEFT_PAREN (''Expect '(' after 'while'' @ [CHR 39])) (\<lambda>_.
     bind_p (expression F n) (\<lambda>condition.
     bind_p (consume RIGHT_PAREN ''Expect ')' after while condition'') (\<lambda>_.
     bind_p S (\<lambda>body.
     return_p (WhileStmt condition body)))))"

primrec block_loop :: "Stmt parsing \<Rightarrow> nat \<Rightarrow> Stmt list \<Rightarrow> (Stmt list) parsing" where
  "block_loop D 0 statements = out_of_fuel"
| "block_loop D (Suc n) statements =
     bind_p (check RIGHT_BRACE) (\<lambda>c.
     bind_p (if \<not> c then bind_p isAtEnd (\<lambda>e. return_p (\<not> e)) else return_p False) (\<lambda>go.
       if go then bind_p D (\<lambda>d. block_loop D n (statements @ [d]))
       else return_p statements))"

definition block :: "Stmt parsing \<Rightarrow> nat \<Rightarrow> (Stmt list) parsing" where
  "block D n =
     bind_p (block_loop D n []) (\<lambda>statements.
     bind_p (consume RIGHT_BRACE ''Expect '}' after block'') (\<lambda>_.
     return_p statements))"

text \<open>
  \<open>Parser::statement\<close> and \<open>Parser::declaration\<close> (with a suffix because the plain name
  is reserved). \<open>forStatement\<close> is left out: no routine calls it.
\<close>

fun statement :: "double_arith \<Rightarrow> nat \<Rightarrow> Stmt parsing"
and declaration_stmt :: "double_arith \<Rightarrow> nat \<Rightarrow> Stmt parsing"
where
  "statement F 0 s = out_of_fuel s"
| "statement F (Suc n) s =
     bind_p (match IF) (\<lambda>m. if m then ifStatement F (statement F n) n else
     bind_p (match WHILE) (\<lambda>m. if m then whileStatement F (statement F n) n else
     bind_p (match PRINT) (\<lambda>m. if m then printStatement F n else
     bind_p (match RETURN) (\<lambda>m. if m then returnStatement F n else
     bind_p (match LEFT_BRACE) (\<lambda>m.
       if m then bind_p (block (declaration_stmt F n) n) (\<lambda>b. return_p (BlockStmt b))
       else expressionStatement F n))))) s"
| "declaration_stmt F 0 s = out_of_fuel s"
| "declaration_stmt F (Suc n) s =
     bind_p (match VAR) (\<lambda>m.
       if m then varDeclaration F n is_const_default
       else statement F n) s"

subsection \<open>Recovery and the top level\<close>

primrec synchronize_loop :: "nat \<Rightarrow> unit parsing" where
  "synchronize_loop 0 = out_of_fuel"
| "synchronize_loop (Suc n) =
     bind_p isAtEnd (\<lambda>e.
       if e then return_p ()
       else
         bind_p previous (\<lambda>p.
           if type p = SEMICOLON then return_p ()
           else
             bind_p peek (\<lambda>t.
               if type t \<in> set [FUNCTION, VAR, CONST_TOKEN, FOR, IF, WHILE, RETURN] then return_p ()
               else bind_p advance (\<lambda>_. synchronize_loop n))))"

definition synchronize :: "nat \<Rightarrow> unit parsing" where
  "synchronize n = bind_p advance (\<lambda>_. synchronize_loop n)"

text \<open>The \<open>while (!isAtEnd())\<close> loop of \<open>parse\<close>, with the statements collected so far.\<close>

primrec parse_loop :: "double_arith \<Rightarrow> nat \<Rightarrow> Stmt list \<Rightarrow> (Stmt list) parsing" where
  "parse_loop F 0 statements = out_of_fuel"
| "parse_loop F (Suc n) statements =
     bind_p isAtEnd (\<lambda>e.
       if e then return_p statements
       else
         bind_p (try_catch
                   (bind_p (declaration_stmt F n) (\<lambda>d. return_p (statements @ [d])))
                   (\<lambda>ex. bind_p (synchronize n) (\<lambda>_. return_p statements)))
           (parse_loop F n))"

text \<open>A parser as its constructor leaves it.\<close>

definition new_Parser :: "Token list \<Rightarrow> string \<Rightarrow> Parser" where
  "new_Parser toks fname = \<lparr>tokens = toks, filename = fname, current = 0, diagnostics = []\<rparr>"

text \<open>
  \<open>parse_fuel\<close> is \<open>Parser::parse\<close> with the fuel as an argument; \<open>parse\<close> gives it
  fuel that is enough for every token vector that has an end-of-file token.
\<close>

definition parse_fuel ::
  "double_arith \<Rightarrow> nat \<Rightarrow> Parser \<Rightarrow> ((Stmt list) outcome \<times> Parser) option" where
  "parse_fuel F n s = parse_loop F n [] s"

definition parse :: "double_arith \<Rightarrow> Parser \<Rightarrow> ((Stmt list) outcome \<times> Parser) option" where
  "parse F s = parse_fuel F (4 * length (tokens s) + 8) s"

section \<open>Notions used in the properties\<close>

subsection \<open>Operands of arithmetic\<close>

definition same_numeric_kind :: "Value \<Rightarrow> Value \<Rightarrow> bool" where
  "same_numeric_kind l r =
     (case (l, r) of (VInt _, VInt _) \<Rightarrow> True | (VDouble _, VDouble _) \<Rightarrow> True | _ \<Rightarrow> False)"

subsection \<open>Well-formed parser states\<close>

text \<open>
  A parser state is well formed when an end-of-file token lies at the cursor or after it.
  \<open>remaining\<close> bounds the tokens still to be read. \<open>extends s s'\<close> says that \<open>s'\<close> is
  \<open>s\<close> further on: same tokens, the cursor not moved back, no diagnostic lost.
  \<open>reported\<close> says that a thrown \<open>ParseError\<close> has left a diagnostic behind.
  \<open>ends_on c r m\<close>: on every well-formed state with at most \<open>r\<close> tokens remaining and
  the cursor at \<open>c\<close> or beyond, the routine \<open>m\<close> ends within its fuel, reads nothing out
  of range, and leaves such a state. \<open>moves_on\<close> adds that the cursor has moved when
  \<open>m\<close> returns.
\<close>

definition well_formed :: "Parser \<Rightarrow> bool" where
  "well_formed s \<longleftrightarrow> (\<exists>k. current s \<le> k \<and> k < length (tokens s) \<and> type (tokens s ! k) = END_OF_FILE)"

definition remaining :: "Parser \<Rightarrow> nat" where
  "remaining s = length (tokens s) - current s"

definition extends :: "Parser \<Rightarrow> Parser \<Rightarrow> bool" where
  "extends s s' \<longleftrightarrow>
     well_formed s' \<and> tokens s' = tokens s \<and> filename s' = filename s \<and> current s \<le> current s'
     \<and> length (diagnostics s) \<le> length (diagnostics s')"

definition reported :: "Parser \<Rightarrow> 'a outcome \<Rightarrow> Parser \<Rightarrow> bool" where
  "reported s out s' \<longleftrightarrow>
     (\<forall>msg. out = Throws (ParseError msg) \<longrightarrow> length (diagnostics s) < length (diagnostics s'))"

definition ends_well :: "Parser \<Rightarrow> 'a outcome \<Rightarrow> Parser \<Rightarrow> bool" where
  "ends_well s out s' \<longleftrightarrow> out \<noteq> Undefined \<and> extends s s' \<and> reported s out s'"

definition ends_on :: "nat \<Rightarrow> nat \<Rightarrow> 'a parsing \<Rightarrow> bool" where
  "ends_on c r m \<longleftrightarrow>
     (\<forall>s. well_formed s \<and> remaining s \<le> r \<and> c \<le> current s \<longrightarrow>
        (\<exists>out s'. m s = Some (out, s') \<and> ends_well s out s'))"

definition moves_on :: "nat \<Rightarrow> nat \<Rightarrow> 'a parsing \<Rightarrow> bool" where
  "moves_on c r m \<longleftrightarrow>
     (\<forall>s. well_formed s \<and> remaining s \<le> r \<and> c \<le> current s \<longrightarrow>
        (\<exists>out s'. m s = Some (out, s') \<and> ends_well s out s'
           \<and> (\<forall>x. out = Returns x \<longrightarrow> current s < current s')))"

text \<open>
  The places where \<open>synchronize\<close> stops: at the end of file, after a semicolon, or
  before a keyword that begins a statement.
\<close>

definition resync_at :: "Token list \<Rightarrow> nat \<Rightarrow> bool" where
  "resync_at toks k \<longleftrightarrow>
     type (toks ! k) = END_OF_FILE
     \<or> type (toks ! (k - 1)) = SEMICOLON
     \<or> type (toks ! k) \<in> set [FUNCTION, VAR, CONST_TOKEN, FOR, IF, WHILE, RETURN]"

subsection \<open>Inputs for the closed examples\<close>

definition tk :: "TokenType \<Rightarrow> string \<Rightarrow> Token" where
  "tk t l = \<lparr>type = t, lexeme = l, line = 1, column = 1\<rparr>"

text \<open>
  An arithmetic for the closed examples: a table with the entries the examples use, as
  IEEE 754 gives them (\<open>1.0\<close> is \<open>0x3FF0000000000000\<close>, \<open>2.0 * 3.0 = 6.0\<close>,
  \<open>1.0 + 6.0 = 7.0\<close>). A lexeme outside the table is rejected, as \<open>std::stod\<close> rejects
  \<open>1e999\<close>; the results of the operations outside the table are arbitrary, and no general
  statement below depends on them.
\<close>

definition example_arith :: double_arith where
  "example_arith = \<lparr>
     stod = (\<lambda>s. if s = ''0'' then Some 0
                  else if s = ''1'' then Some 0x3FF0000000000000
                  else if s = ''2'' then Some 0x4000000000000000
                  else if s = ''3'' then Some 0x4008000000000000
                  else if s = ''10'' then Some 0x4024000000000000
                  else None),
     dadd = (\<lambda>a b. if a = 0x3FF0000000000000 \<and> b = 0x4018000000000000
                    then 0x401C000000000000 else 0x7FF8000000000000),
     dsub = (\<lambda>a b. 0x7FF8000000000000),
     dmul = (\<lambda>a b. if a = 0x4000000000000000 \<and> b = 0x4008000000000000
                    then 0x4018000000000000 else 0x7FF8000000000000),
     ddiv = (\<lambda>a b. 0x7FF8000000000000),
     dshow = (\<lambda>d. if d = 0x401C000000000000 then ''7'' else ''?'')\<rparr>"

text \<open>
  Modelled from the spec: the caller of the two components, which is not in the sources at
  hand. The spec's pipeline hands the token vector to the parser and the statements it
  returns to a fresh interpreter; the result is the parser's diagnostics with the
  interpreter's outcome and final state. The caller decides from the diagnostics whether
  to evaluate; the programs it is used for below parse without a diagnostic.
\<close>

definition run_program ::
  "double_arith \<Rightarrow> Token list \<Rightarrow> (Diagnostic list \<times> (fault + unit) \<times> Interpreter) option" where
  "run_program F toks =
     (case parse F (new_Parser toks ''script'') of
        Some (Returns stmts, p) \<Rightarrow> Some (diagnostics p, interpret_stmts F stmts new_Interpreter)
      | _ \<Rightarrow> None)"

text \<open>The tokens of \<open>"a" + 1;\<close> and of \<open>1 + "a";\<close>.\<close>

definition program_a_plus_1 :: "Token list" where
  "program_a_plus_1 =
     [tk STRING_LITERAL ''a'', tk PLUS ''+'', tk INTEGER_LITERAL ''1'', tk SEMICOLON '';'',
      tk END_OF_FILE '''']"

definition program_1_plus_a :: "Token list" where
  "program_1_plus_a =
     [tk INTEGER_LITERAL ''1'', tk PLUS ''+'', tk STRING_LITERAL ''a'', tk SEMICOLON '';'',
      tk END_OF_FILE '''']"

text \<open>The tokens of \<open>1 + 2 * 3;\<close>, of \<open>10 / 0;\<close> and of \<open>true / 1;\<close>.\<close>

definition program_1_plus_2_times_3 :: "Token list" where
  "program_1_plus_2_times_3 =
     [tk INTEGER_LITERAL ''1'', tk PLUS ''+'', tk INTEGER_LITERAL ''2'', tk STAR ''*'',
      tk INTEGER_LITERAL ''3'', tk SEMICOLON '';'', tk END_OF_FILE '''']"

definition program_10_div_0 :: "Token list" where
  "program_10_div_0 =
     [tk INTEGER_LITERAL ''10'', tk SLASH ''/'', tk INTEGER_LITERAL ''0'', tk SEMICOLON '';'',
      tk END_OF_FILE '''']"

definition program_true_div_1 :: "Token list" where
  "program_true_div_1 =
     [tk TRUE ''true'', tk SLASH ''/'', tk INTEGER_LITERAL ''1'', tk SEMICOLON '';'',
      tk END_OF_FILE '''']"

text \<open>The tokens of \<open>var x; x;\<close> and of \<open>var x; = ; x;\<close>, whose second statement does not parse.\<close>

definition program_var_x :: "Token list" where
  "program_var_x =
     [tk VAR ''var'', tk IDENTIFIER ''x'', tk SEMICOLON '';'',
      tk IDENTIFIER ''x'', tk SEMICOLON '';'', tk END_OF_FILE '''']"

definition program_broken :: "Token list" where
  "program_broken =
     [tk VAR ''var'', tk IDENTIFIER ''x'', tk SEMICOLON '';'',
      tk EQUAL ''='', tk SEMICOLON '';'',
      tk IDENTIFIER ''x'', tk SEMICOLON '';'', tk END_OF_FILE '''']"

text \<open>
  Two statements that begin with the keyword \<open>print\<close>: in the first the keyword is followed by
  a string, in the second by a call of the identifier \<open>print\<close>.
\<close>

definition program_print_string :: "Token list" where
  "program_print_string =
     [tk PRINT ''print'', tk STRING_LITERAL ''hi'', tk SEMICOLON '';'', tk END_OF_FILE '''']"

definition program_print_call :: "Token list" where
  "program_print_call =
     [tk PRINT ''print'', tk IDENTIFIER ''print'', tk LEFT_PAREN ''('', tk STRING_LITERAL ''hi'',
      tk RIGHT_PAREN '')'', tk SEMICOLON '';'', tk END_OF_FILE '''']"

text \<open>Expressions without a call.\<close>

fun call_free :: "Expr \<Rightarrow> bool" where
  "call_free (LiteralExpr v) = True"
| "call_free (UnaryExpr op right) = call_free right"
| "call_free (BinaryExpr left op right) = (call_free left \<and> call_free right)"
| "call_free (GroupingExpr expr) = call_free expr"
| "call_free (VariableExpr name) = True"
| "call_free (AssignExpr name expr) = call_free expr"
| "call_free (CallExpr callee paren arguments) = False"

text \<open>
  The tokens of \<open>f(a, ..., a); z;\<close> with \<open>k + 1\<close> arguments, and the diagnostic that an
  argument beyond the 255th records.
\<close>

fun args_tokens :: "nat \<Rightarrow> Token list" where
  "args_tokens 0 = [tk IDENTIFIER ''a'']"
| "args_tokens (Suc k) = tk IDENTIFIER ''a'' # tk COMMA '','' # args_tokens k"

definition call_program :: "nat \<Rightarrow> Token list" where
  "call_program k =
     [tk IDENTIFIER ''f'', tk LEFT_PAREN ''(''] @ args_tokens k
     @ [tk RIGHT_PAREN '')'', tk SEMICOLON '';'',
        tk IDENTIFIER ''z'', tk SEMICOLON '';'', tk END_OF_FILE '''']"

definition too_many_arguments :: "string \<Rightarrow> Diagnostic" where
  "too_many_arguments fname =
     \<lparr>severity = ERROR,
      message = ''Cannot have more than 255 arguments. at 'a'' @ [CHR 39],
      location = \<lparr>loc_filename = fname, loc_line = 1, loc_column = 1\<rparr>\<rparr>"

text \<open>How many of the arguments \<open>a + 1, ..., a + k + 1\<close> come after the 255th.\<close>

definition over_limit :: "nat \<Rightarrow> nat \<Rightarrow> nat" where
  "over_limit a k = (a + Suc k - 255) - (a - 255)"

text \<open>
  The tokens of \<open>1e999;\<close>, whose literal is out of the range of a double, and an argument
  list of one identifier.
\<close>

definition program_overflow :: "Token list" where
  "program_overflow = [tk FLOAT_LITERAL ''1e999'', tk SEMICOLON '';'', tk END_OF_FILE '''']"

definition three_tokens :: "Token list" where
  "three_tokens = [tk IDENTIFIER ''a'', tk RIGHT_PAREN '')'', tk END_OF_FILE '''']"


text \<open>
  The tokens of \<open>var x; "s"; x;\<close>, of \<open>2 * 3 + 1;\<close> and of \<open>var x = 1e999; print(x);\<close>.
\<close>

definition program_var_x_later :: "Token list" where
  "program_var_x_later =
     [tk VAR ''var'', tk IDENTIFIER ''x'', tk SEMICOLON '';'',
      tk STRING_LITERAL ''s'', tk SEMICOLON '';'',
      tk IDENTIFIER ''x'', tk SEMICOLON '';'', tk END_OF_FILE '''']"

definition program_2_times_3_plus_1 :: "Token list" where
  "program_2_times_3_plus_1 =
     [tk INTEGER_LITERAL ''2'', tk STAR ''*'', tk INTEGER_LITERAL ''3'', tk PLUS ''+'',
      tk INTEGER_LITERAL ''1'', tk SEMICOLON '';'', tk END_OF_FILE '''']"

definition program_overflow_var :: "Token list" where
  "program_overflow_var =
     [tk VAR ''var'', tk IDENTIFIER ''x'', tk EQUAL ''='', tk FLOAT_LITERAL ''1e999'',
      tk SEMICOLON '';'',
      tk IDENTIFIER ''print'', tk LEFT_PAREN ''('', tk IDENTIFIER ''x'', tk RIGHT_PAREN '')'',
      tk SEMICOLON '';'', tk END_OF_FILE '''']"

lemmas routine_defs =
  bind_p_def return_p_def throw_p_def try_catch_def out_of_fuel_def
  peek_def previous_def isAtEnd_def increment_current_def advance_def check_def match_def
  error_def consume_def report_def
  primary_def finishCall_def call_def factor_def term_expr_def comparison_def equality_def
  logicalAnd_def logicalOr_def expressionStatement_def printStatement_def returnStatement_def
  varDeclaration_def ifStatement_def whileStatement_def block_def synchronize_def
  is_const_default_def

lemmas parser_defs = parse_def parse_fuel_def new_Parser_def tk_def run_program_def
  routine_defs new_Interpreter_def binary_switch_def

section \<open>Properties of the interpreter\<close>






lemma variant_ne_not_eq: "variant_ne a b = (\<not> variant_eq a b)"
  by (cases a; cases b) (auto simp: double_ne_def double_eq_def)

lemma variant_eq_sym: "variant_eq a b = variant_eq b a"
  by (cases a; cases b) (auto simp: double_eq_def)

text \<open>
  Claim C4, as stated, fails: a \<open>double\<close> that is a NaN is a value of the union, and it
  does not equal itself.
\<close>

theorem nan_not_equal_to_itself:
  "\<not> variant_eq (VDouble 0x7FF8000000000000) (VDouble 0x7FF8000000000000)"
  by (simp add: double_eq_def is_nan_def magnitude_def)

text \<open>
  Claim C4, amended. \<open>==\<close> and \<open>!=\<close> never fault, and \<open>!=\<close> is the negation of
  \<open>==\<close>. Equality is symmetric. Two values of different kinds are unequal, two values
  of the same kind other than \<open>double\<close> are equal exactly when their payloads are the
  same, and two doubles are equal exactly when IEEE 754 comparison says so. So every value
  equals itself unless it is a \<open>double\<close> holding a NaN. The integer 1 and the string
  \<open>"1"\<close> are unequal.
\<close>

theorem equality_of_values:
  "binary_switch F EQUAL_EQUAL a b = Inr (VBool (variant_eq a b))
   \<and> binary_switch F BANG_EQUAL a b = Inr (VBool (\<not> variant_eq a b))
   \<and> variant_eq a b = variant_eq b a
   \<and> variant_eq a b = (case (a, b) of (VDouble x, VDouble y) \<Rightarrow> double_eq x y | _ \<Rightarrow> a = b)
   \<and> variant_eq a a = (case a of VDouble x \<Rightarrow> \<not> is_nan x | _ \<Rightarrow> True)
   \<and> variant_eq (VInt 1) (VString ''1'') = False"
proof (intro conjI)
  show "binary_switch F EQUAL_EQUAL a b = Inr (VBool (variant_eq a b))"
    by (simp add: binary_switch_def)
  show "binary_switch F BANG_EQUAL a b = Inr (VBool (\<not> variant_eq a b))"
    by (simp add: binary_switch_def variant_ne_not_eq)
  show "variant_eq a b = variant_eq b a"
    by (rule variant_eq_sym)
  show "variant_eq a b = (case (a, b) of (VDouble x, VDouble y) \<Rightarrow> double_eq x y | _ \<Rightarrow> a = b)"
    by (cases a; cases b) auto
  show "variant_eq a a = (case a of VDouble x \<Rightarrow> \<not> is_nan x | _ \<Rightarrow> True)"
    by (cases a) (auto simp: double_eq_def)
  show "variant_eq (VInt 1) (VString ''1'') = False"
    by simp
qed

theorem equality_of_values_witness:
  "binary_switch example_arith EQUAL_EQUAL (VInt 1) (VString ''1'') = Inr (VBool False)
   \<and> binary_switch example_arith BANG_EQUAL (VInt 1) (VString ''1'') = Inr (VBool True)
   \<and> variant_eq (VString ''1'') (VInt 1) = False
   \<and> variant_eq (VInt 1) (VInt 1)"
  using equality_of_values[of example_arith "VInt 1" "VString ''1''"]
    equality_of_values[of example_arith "VInt 1" "VInt 1"]
  by simp

text \<open>
  Claim C7. Reading a name that is not bound faults with "Undefined variable", and
  reading a bound name gives the value it is bound to, whatever the last value was. An
  assignment adds no fault of its own: when its right-hand side evaluates, it binds the
  name to the value, whether or not the name was bound, and a read that follows returns
  that value, also after the last value or the output have changed; when its right-hand
  side faults, that fault is the outcome.
\<close>

theorem variable_read_and_assignment:
  "(variables s (lexeme name) = None \<longrightarrow>
      evaluate F (VariableExpr name) s =
        (Inl (RuntimeError (''Undefined variable: '' @ lexeme name)), s))
   \<and> (variables s (lexeme name) = Some w \<longrightarrow>
      evaluate F (VariableExpr name) s = (Inr w, s\<lparr>lastValue := w\<rparr>))
   \<and> (evaluate F expr s = (Inr v, s1) \<longrightarrow>
      evaluate F (AssignExpr name expr) s =
        (Inr v, s1\<lparr>variables := (variables s1)(lexeme name \<mapsto> v), lastValue := v\<rparr>)
      \<and> evaluate F (VariableExpr name)
            (s1\<lparr>variables := (variables s1)(lexeme name \<mapsto> v), lastValue := v\<rparr>) =
        (Inr v, s1\<lparr>variables := (variables s1)(lexeme name \<mapsto> v), lastValue := v\<rparr>)
      \<and> (\<forall>l c. evaluate F (VariableExpr name)
            (s1\<lparr>variables := (variables s1)(lexeme name \<mapsto> v), lastValue := l, cout := c\<rparr>) =
        (Inr v, s1\<lparr>variables := (variables s1)(lexeme name \<mapsto> v), lastValue := v, cout := c\<rparr>)))
   \<and> (evaluate F expr s = (Inl f, s1) \<longrightarrow>
      evaluate F (AssignExpr name expr) s = (Inl f, s1))"
  by (auto split: prod.splits sum.splits)

theorem variable_read_and_assignment_witness:
  "variables new_Interpreter (lexeme (tk IDENTIFIER ''x'')) = None
   \<and> evaluate example_arith (VariableExpr (tk IDENTIFIER ''x'')) new_Interpreter =
       (Inl (RuntimeError ''Undefined variable: x''), new_Interpreter)
   \<and> variables (new_Interpreter\<lparr>variables := [''x'' \<mapsto> VBool True], lastValue := VNil\<rparr>)
        (lexeme (tk IDENTIFIER ''x'')) = Some (VBool True)
   \<and> evaluate example_arith (VariableExpr (tk IDENTIFIER ''x''))
        (new_Interpreter\<lparr>variables := [''x'' \<mapsto> VBool True], lastValue := VNil\<rparr>) =
       (Inr (VBool True), new_Interpreter\<lparr>variables := [''x'' \<mapsto> VBool True], lastValue := VBool True\<rparr>)
   \<and> evaluate example_arith (LiteralExpr (VBool True)) new_Interpreter =
       (Inr (VBool True), new_Interpreter\<lparr>lastValue := VBool True\<rparr>)
   \<and> evaluate example_arith (AssignExpr (tk IDENTIFIER ''x'') (LiteralExpr (VBool True)))
         new_Interpreter =
       (Inr (VBool True), new_Interpreter\<lparr>variables := [''x'' \<mapsto> VBool True], lastValue := VBool True\<rparr>)
   \<and> evaluate example_arith (VariableExpr (tk IDENTIFIER ''x''))
         (new_Interpreter\<lparr>variables := [''x'' \<mapsto> VBool True], lastValue := VBool True\<rparr>) =
       (Inr (VBool True), new_Interpreter\<lparr>variables := [''x'' \<mapsto> VBool True], lastValue := VBool True\<rparr>)"
proof -
  let ?b = "new_Interpreter\<lparr>variables := [''x'' \<mapsto> VBool True], lastValue := VNil\<rparr>"
  have 1: "variables new_Interpreter (lexeme (tk IDENTIFIER ''x'')) = None"
    by (simp add: new_Interpreter_def)
  have 2: "evaluate example_arith (LiteralExpr (VBool True)) new_Interpreter =
       (Inr (VBool True), new_Interpreter\<lparr>lastValue := VBool True\<rparr>)"
    by simp
  have 3: "variables ?b (lexeme (tk IDENTIFIER ''x'')) = Some (VBool True)"
    by (simp add: tk_def)
  from 1 2 variable_read_and_assignment[where s = new_Interpreter and name = "tk IDENTIFIER ''x''"
      and F = example_arith and expr = "LiteralExpr (VBool True)" and v = "VBool True"
      and ?s1.0 = "new_Interpreter\<lparr>lastValue := VBool True\<rparr>"]
  have a: "evaluate example_arith (VariableExpr (tk IDENTIFIER ''x'')) new_Interpreter =
       (Inl (RuntimeError ''Undefined variable: x''), new_Interpreter)"
    "evaluate example_arith (AssignExpr (tk IDENTIFIER ''x'') (LiteralExpr (VBool True)))
         new_Interpreter =
       (Inr (VBool True), new_Interpreter\<lparr>variables := [''x'' \<mapsto> VBool True], lastValue := VBool True\<rparr>)"
    "evaluate example_arith (VariableExpr (tk IDENTIFIER ''x''))
         (new_Interpreter\<lparr>variables := [''x'' \<mapsto> VBool True], lastValue := VBool True\<rparr>) =
       (Inr (VBool True), new_Interpreter\<lparr>variables := [''x'' \<mapsto> VBool True], lastValue := VBool True\<rparr>)"
    by (simp_all add: tk_def new_Interpreter_def)
  from 3 variable_read_and_assignment[where s = ?b and name = "tk IDENTIFIER ''x''"
      and w = "VBool True" and F = example_arith]
  have b: "evaluate example_arith (VariableExpr (tk IDENTIFIER ''x'')) ?b =
       (Inr (VBool True), new_Interpreter\<lparr>variables := [''x'' \<mapsto> VBool True], lastValue := VBool True\<rparr>)"
    by (simp add: tk_def new_Interpreter_def)
  from 1 2 3 a b show ?thesis by simp
qed

section \<open>The parser ends on every input\<close>

lemma well_formed_in_range: "well_formed s \<Longrightarrow> current s < length (tokens s)"
  by (auto simp: well_formed_def)

lemma well_formed_remaining: "well_formed s \<Longrightarrow> 0 < remaining s"
  by (auto simp: well_formed_def remaining_def)

lemma extends_refl: "well_formed s \<Longrightarrow> extends s s"
  by (simp add: extends_def)

lemma extends_trans: "extends s s1 \<Longrightarrow> extends s1 s2 \<Longrightarrow> extends s s2"
  by (auto simp: extends_def)

lemma extends_remaining: "extends s s' \<Longrightarrow> remaining s' \<le> remaining s"
  by (auto simp: extends_def remaining_def)

lemma well_formed_diagnostics [simp]: "well_formed (s\<lparr>diagnostics := d\<rparr>) = well_formed s"
  by (simp add: well_formed_def)

lemma well_formed_step:
  assumes "well_formed s" "type (tokens s ! current s) \<noteq> END_OF_FILE"
  shows "well_formed (s\<lparr>current := Suc (current s)\<rparr>)"
proof -
  from assms(1) obtain k where k: "current s \<le> k" "k < length (tokens s)"
    "type (tokens s ! k) = END_OF_FILE" by (auto simp: well_formed_def)
  with assms(2) have "k \<noteq> current s" by auto
  with k show ?thesis by (auto simp: well_formed_def intro!: exI[of _ k])
qed

lemma ends_on_zero: "ends_on c 0 m"
  using well_formed_remaining by (fastforce simp: ends_on_def)

lemma moves_on_zero: "moves_on c 0 m"
  using well_formed_remaining by (fastforce simp: moves_on_def)

lemma ends_on_mono: "ends_on c r m \<Longrightarrow> c \<le> c' \<Longrightarrow> r' \<le> r \<Longrightarrow> ends_on c' r' m"
  unfolding ends_on_def by (meson le_trans)

lemma moves_on_mono: "moves_on c r m \<Longrightarrow> c \<le> c' \<Longrightarrow> r' \<le> r \<Longrightarrow> moves_on c' r' m"
  unfolding moves_on_def by (meson le_trans)

lemma moves_on_total: "moves_on c r m \<Longrightarrow> ends_on c r m"
  unfolding moves_on_def ends_on_def by blast

lemma total_below: "ends_on 0 r m \<Longrightarrow> r' \<le> r \<Longrightarrow> ends_on c r' m"
  using ends_on_mono[of 0 r m c r'] by simp

lemma moves_below: "moves_on 0 r m \<Longrightarrow> r' \<le> r \<Longrightarrow> moves_on c r' m"
  using moves_on_mono[of 0 r m c r'] by simp

lemma ends_well_same: "well_formed s \<Longrightarrow> ends_well s (Returns x) s"
  by (simp add: ends_well_def extends_refl reported_def)

lemma ends_well_step:
  "well_formed s \<Longrightarrow> type (tokens s ! current s) \<noteq> END_OF_FILE \<Longrightarrow>
     ends_well s (Returns x) (s\<lparr>current := Suc (current s)\<rparr>)"
  by (simp add: ends_well_def extends_def well_formed_step reported_def)

lemma ends_well_trans:
  "ends_well s (Returns x) s1 \<Longrightarrow> ends_well s1 out s2 \<Longrightarrow> ends_well s out s2"
  by (auto simp: ends_well_def reported_def extends_def)

text \<open>Sequencing, on one state.\<close>

lemma bind_p_Returns: "m s = Some (Returns x, s1) \<Longrightarrow> bind_p m f s = f x s1"
  by (simp add: bind_p_def)

lemma bind_p_Throws: "m s = Some (Throws e, s1) \<Longrightarrow> bind_p m f s = Some (Throws e, s1)"
  by (simp add: bind_p_def)

lemma ends_well_Throws:
  "ends_well s (Throws e :: 'a outcome) s1 \<Longrightarrow> ends_well s (Throws e :: 'b outcome) s1"
  by (simp add: ends_well_def reported_def)

lemma bind_ends_well:
  assumes m: "m s = Some (out, s1)" "ends_well s out s1"
    and f: "\<And>x. out = Returns x \<Longrightarrow> \<exists>out2 s2. f x s1 = Some (out2, s2) \<and> ends_well s1 out2 s2"
  shows "\<exists>out' s'. bind_p m f s = Some (out', s') \<and> ends_well s out' s'"
proof (cases out)
  case (Returns x)
  with f obtain out2 s2 where "f x s1 = Some (out2, s2)" "ends_well s1 out2 s2" by blast
  with m Returns show ?thesis
    by (auto simp: bind_p_Returns intro: ends_well_trans)
next
  case (Throws e)
  with m show ?thesis
    by (auto simp: bind_p_Throws intro: ends_well_Throws)
next
  case Undefined
  with m show ?thesis by (simp add: ends_well_def)
qed

lemma total_return: "ends_on c r (return_p x)"
  by (simp add: ends_on_def return_p_def ends_well_same)

lemma total_throw_stod: "ends_on c r (throw_p StodFailure)"
  by (simp add: ends_on_def throw_p_def ends_well_def extends_refl reported_def)

lemma total_bind:
  assumes m: "ends_on c r m" and f: "\<And>x. ends_on c r (f x)"
  shows "ends_on c r (bind_p m f)"
  unfolding ends_on_def
proof (intro allI impI)
  fix s assume s: "well_formed s \<and> remaining s \<le> r \<and> c \<le> current s"
  with m obtain out s1 where 1: "m s = Some (out, s1)" "ends_well s out s1"
    unfolding ends_on_def by blast
  have "\<exists>out2 s2. f x s1 = Some (out2, s2) \<and> ends_well s1 out2 s2" for x
  proof -
    from 1 s have "well_formed s1 \<and> remaining s1 \<le> r \<and> c \<le> current s1"
      by (auto simp: ends_well_def extends_def remaining_def)
    with f[of x] show ?thesis unfolding ends_on_def by blast
  qed
  then show "\<exists>out s'. bind_p m f s = Some (out, s') \<and> ends_well s out s'"
    by (intro bind_ends_well[where m = m and s = s and f = f, OF 1]) blast
qed

lemma total_bind_moves:
  assumes m: "moves_on c r m" and f: "\<And>x. ends_on (Suc c) (r - 1) (f x)"
  shows "ends_on c r (bind_p m f)"
  unfolding ends_on_def
proof (intro allI impI)
  fix s assume s: "well_formed s \<and> remaining s \<le> r \<and> c \<le> current s"
  with m obtain out s1 where 1: "m s = Some (out, s1)" "ends_well s out s1"
    and mv: "\<forall>x. out = Returns x \<longrightarrow> current s < current s1"
    unfolding moves_on_def by blast
  have "\<exists>out2 s2. f x s1 = Some (out2, s2) \<and> ends_well s1 out2 s2" if "out = Returns x" for x
  proof -
    from that mv have "current s < current s1" by simp
    with 1 s have "well_formed s1 \<and> remaining s1 \<le> r - 1 \<and> Suc c \<le> current s1"
      by (auto simp: ends_well_def extends_def remaining_def)
    with f[of x] show ?thesis unfolding ends_on_def by blast
  qed
  then show "\<exists>out s'. bind_p m f s = Some (out, s') \<and> ends_well s out s'"
    by (intro bind_ends_well[where m = m and s = s and f = f, OF 1]) blast
qed

lemma moves_bind_moves:
  assumes m: "moves_on c r m" and f: "\<And>x. ends_on (Suc c) (r - 1) (f x)"
  shows "moves_on c r (bind_p m f)"
  unfolding moves_on_def
proof (intro allI impI)
  fix s assume s: "well_formed s \<and> remaining s \<le> r \<and> c \<le> current s"
  with m obtain out s1 where 1: "m s = Some (out, s1)" "ends_well s out s1"
    and mv: "\<forall>x. out = Returns x \<longrightarrow> current s < current s1"
    unfolding moves_on_def by blast
  show "\<exists>out s'. bind_p m f s = Some (out, s') \<and> ends_well s out s'
     \<and> (\<forall>x. out = Returns x \<longrightarrow> current s < current s')"
  proof (cases out)
    case (Returns x)
    with mv have lt: "current s < current s1" by simp
    with 1 s have "well_formed s1 \<and> remaining s1 \<le> r - 1 \<and> Suc c \<le> current s1"
      by (auto simp: ends_well_def extends_def remaining_def)
    with f[of x] obtain out2 s2 where 2: "f x s1 = Some (out2, s2)" "ends_well s1 out2 s2"
      unfolding ends_on_def by blast
    from 2 lt have "current s < current s2" by (auto simp: ends_well_def extends_def)
    with 1 2 Returns show ?thesis
      by (auto simp: bind_p_Returns intro: ends_well_trans)
  next
    case (Throws e)
    with 1 show ?thesis by (auto simp: bind_p_Throws intro: ends_well_Throws)
  next
    case Undefined
    with 1 show ?thesis by (simp add: ends_well_def)
  qed
qed

lemma moves_bind:
  assumes m: "ends_on c r m" and f: "\<And>x. moves_on c r (f x)"
  shows "moves_on c r (bind_p m f)"
  unfolding moves_on_def
proof (intro allI impI)
  fix s assume s: "well_formed s \<and> remaining s \<le> r \<and> c \<le> current s"
  with m obtain out s1 where 1: "m s = Some (out, s1)" "ends_well s out s1"
    unfolding ends_on_def by blast
  show "\<exists>out s'. bind_p m f s = Some (out, s') \<and> ends_well s out s'
     \<and> (\<forall>x. out = Returns x \<longrightarrow> current s < current s')"
  proof (cases out)
    case (Returns x)
    from 1 s have le: "current s \<le> current s1" and "well_formed s1 \<and> remaining s1 \<le> r \<and> c \<le> current s1"
      by (auto simp: ends_well_def extends_def remaining_def)
    with f[of x] obtain out2 s2 where 2: "f x s1 = Some (out2, s2)" "ends_well s1 out2 s2"
      "\<forall>y. out2 = Returns y \<longrightarrow> current s1 < current s2"
      unfolding moves_on_def by blast
    with 1 Returns le show ?thesis
      by (auto simp: bind_p_Returns intro: ends_well_trans)
  next
    case (Throws e)
    with 1 show ?thesis by (auto simp: bind_p_Throws intro: ends_well_Throws)
  next
    case Undefined
    with 1 show ?thesis by (simp add: ends_well_def)
  qed
qed

text \<open>What the cursor routines do on a well-formed state.\<close>

lemma peek_wf: "well_formed s \<Longrightarrow> peek s = Some (Returns (tokens s ! current s), s)"
  by (simp add: peek_def well_formed_in_range)

lemma isAtEnd_wf:
  "well_formed s \<Longrightarrow> isAtEnd s = Some (Returns (type (tokens s ! current s) = END_OF_FILE), s)"
  by (simp add: isAtEnd_def bind_p_def peek_wf return_p_def)

lemma check_wf:
  "well_formed s \<Longrightarrow> check t s = Some (Returns (type (tokens s ! current s) \<noteq> END_OF_FILE
      \<and> type (tokens s ! current s) = t), s)"
  by (simp add: check_def bind_p_def isAtEnd_wf peek_wf return_p_def)

lemma previous_wf:
  "well_formed s \<Longrightarrow> 0 < current s \<Longrightarrow> previous s = Some (Returns (tokens s ! (current s - 1)), s)"
  using well_formed_in_range[of s] by (simp add: previous_def)

lemma advance_step:
  "well_formed s \<Longrightarrow> type (tokens s ! current s) \<noteq> END_OF_FILE \<Longrightarrow>
     advance s = Some (Returns (tokens s ! current s), s\<lparr>current := Suc (current s)\<rparr>)"
  using well_formed_in_range[of s]
  by (simp add: advance_def bind_p_def isAtEnd_wf increment_current_def previous_def)

lemma advance_at_end:
  "well_formed s \<Longrightarrow> type (tokens s ! current s) = END_OF_FILE \<Longrightarrow> 0 < current s \<Longrightarrow>
     advance s = Some (Returns (tokens s ! (current s - 1)), s)"
  by (simp add: advance_def bind_p_def isAtEnd_wf return_p_def previous_wf)

lemma match_wf:
  "well_formed s \<Longrightarrow> match t s =
     (if type (tokens s ! current s) \<noteq> END_OF_FILE \<and> type (tokens s ! current s) = t
      then Some (Returns True, s\<lparr>current := Suc (current s)\<rparr>)
      else Some (Returns False, s))"
  by (simp add: match_def bind_p_def check_wf advance_step return_p_def)

lemma match_any_wf:
  "well_formed s \<Longrightarrow> match_any ts s =
     (if type (tokens s ! current s) \<noteq> END_OF_FILE \<and> type (tokens s ! current s) \<in> set ts
      then Some (Returns True, s\<lparr>current := Suc (current s)\<rparr>)
      else Some (Returns False, s))"
  by (induction ts) (auto simp: bind_p_def check_wf advance_step return_p_def)

lemma error_throw:
  "bind_p (error t msg) throw_p s =
     Some (Throws (ParseError msg), snd (the (error t msg s)))"
  by (simp add: bind_p_def error_def throw_p_def)

lemma ends_well_error:
  "well_formed s \<Longrightarrow> ends_well s (Throws e) (snd (the (error t msg s)))"
  "well_formed s \<Longrightarrow> ends_well s (Returns x) (snd (the (error t msg s)))"
  by (simp_all add: error_def ends_well_def extends_def reported_def report_def)

lemma consume_wf:
  "well_formed s \<Longrightarrow> consume t msg s =
     (if type (tokens s ! current s) \<noteq> END_OF_FILE \<and> type (tokens s ! current s) = t
      then Some (Returns (tokens s ! current s), s\<lparr>current := Suc (current s)\<rparr>)
      else Some (Throws (ParseError msg), snd (the (error (tokens s ! current s) msg s))))"
  by (simp add: consume_def bind_p_Returns[OF check_wf] advance_step bind_p_Returns[OF peek_wf] error_throw)

lemma total_peek: "ends_on c r peek"
  by (simp add: ends_on_def peek_wf ends_well_same)

lemma total_isAtEnd: "ends_on c r isAtEnd"
  by (simp add: ends_on_def isAtEnd_wf ends_well_same)

lemma total_check: "ends_on c r (check t)"
  by (simp add: ends_on_def check_wf ends_well_same)

lemma total_error: "ends_on c r (error t msg)"
  by (simp add: ends_on_def error_def ends_well_def extends_def reported_def report_def)

lemma total_error_throw: "ends_on c r (bind_p (error t msg) throw_p)"
  by (simp add: ends_on_def error_throw ends_well_error)

lemma total_previous: "ends_on (Suc c) r previous"
  by (simp add: ends_on_def previous_wf ends_well_same)

lemma moves_consume: "moves_on c r (consume t msg)"
  by (auto simp: moves_on_def consume_wf ends_well_error intro!: ends_well_step)

lemma total_consume: "ends_on c r (consume t msg)"
  by (rule moves_on_total[OF moves_consume])

lemma total_match: "ends_on c r (match t)"
  by (auto simp: ends_on_def match_wf ends_well_same intro!: ends_well_step)

lemma total_match_any: "ends_on c r (match_any ts)"
  by (auto simp: ends_on_def match_any_wf ends_well_same intro!: ends_well_step)

lemma remaining_step:
  "well_formed s \<Longrightarrow> remaining s \<le> r \<Longrightarrow> remaining (s\<lparr>current := Suc (current s)\<rparr>) \<le> r - 1"
  using well_formed_in_range[of s] by (simp add: remaining_def)

text \<open>After a match, the branch taken runs one token further on.\<close>

lemma total_after_step:
  assumes s: "well_formed s" "remaining s \<le> r" "c \<le> current s"
    and ne: "type (tokens s ! current s) \<noteq> END_OF_FILE"
    and t: "ends_on (Suc c) (r - 1) m"
  shows "\<exists>out s'. m (s\<lparr>current := Suc (current s)\<rparr>) = Some (out, s') \<and> ends_well s out s'
           \<and> current s < current s'"
proof -
  let ?s1 = "s\<lparr>current := Suc (current s)\<rparr>"
  from s have "well_formed ?s1 \<and> remaining ?s1 \<le> r - 1 \<and> Suc c \<le> current ?s1"
    using well_formed_step[OF _ ne] remaining_step[of s r] by simp
  with t obtain out s2 where 2: "m ?s1 = Some (out, s2)" "ends_well ?s1 out s2"
    unfolding ends_on_def by blast
  from 2 have "current s < current s2" by (auto simp: ends_well_def extends_def)
  with 2 ends_well_trans[OF ends_well_step[OF s(1) ne, of "()"]] show ?thesis by blast
qed

lemma total_bind_match:
  assumes t: "ends_on (Suc c) (r - 1) (f True)" and e: "ends_on c r (f False)"
  shows "ends_on c r (bind_p (match t) f)"
  unfolding ends_on_def
proof (intro allI impI)
  fix s assume s: "well_formed s \<and> remaining s \<le> r \<and> c \<le> current s"
  show "\<exists>out s'. bind_p (match t) f s = Some (out, s') \<and> ends_well s out s'"
  proof (cases "type (tokens s ! current s) \<noteq> END_OF_FILE \<and> type (tokens s ! current s) = t")
    case True
    then have ne: "type (tokens s ! current s) \<noteq> END_OF_FILE" by blast
    from total_after_step[OF _ _ _ ne t] s True show ?thesis
      by (auto simp: bind_p_def match_wf)
  next
    case False
    with s e show ?thesis
      by (auto simp: bind_p_def match_wf ends_on_def)
  qed
qed

lemma total_bind_match_any:
  assumes t: "ends_on (Suc c) (r - 1) (f True)" and e: "ends_on c r (f False)"
  shows "ends_on c r (bind_p (match_any ts) f)"
  unfolding ends_on_def
proof (intro allI impI)
  fix s assume s: "well_formed s \<and> remaining s \<le> r \<and> c \<le> current s"
  show "\<exists>out s'. bind_p (match_any ts) f s = Some (out, s') \<and> ends_well s out s'"
  proof (cases "type (tokens s ! current s) \<noteq> END_OF_FILE \<and> type (tokens s ! current s) \<in> set ts")
    case True
    then have ne: "type (tokens s ! current s) \<noteq> END_OF_FILE" by blast
    from total_after_step[OF _ _ _ ne t] s True show ?thesis
      by (auto simp: bind_p_def match_any_wf)
  next
    case False
    with s e show ?thesis
      by (auto simp: bind_p_def match_any_wf ends_on_def)
  qed
qed

lemma moves_bind_match:
  assumes t: "ends_on (Suc c) (r - 1) (f True)" and e: "moves_on c r (f False)"
  shows "moves_on c r (bind_p (match t) f)"
  unfolding moves_on_def
proof (intro allI impI)
  fix s assume s: "well_formed s \<and> remaining s \<le> r \<and> c \<le> current s"
  show "\<exists>out s'. bind_p (match t) f s = Some (out, s') \<and> ends_well s out s'
      \<and> (\<forall>x. out = Returns x \<longrightarrow> current s < current s')"
  proof (cases "type (tokens s ! current s) \<noteq> END_OF_FILE \<and> type (tokens s ! current s) = t")
    case True
    then have ne: "type (tokens s ! current s) \<noteq> END_OF_FILE" by blast
    from total_after_step[OF _ _ _ ne t] s True show ?thesis
      by (auto simp: bind_p_def match_wf)
  next
    case False
    with s e show ?thesis
      by (auto simp: bind_p_def match_wf moves_on_def)
  qed
qed

lemmas total_leaf = total_return total_throw_stod total_peek total_isAtEnd total_check total_error
  total_error_throw total_consume total_match total_match_any ends_on_zero

lemma bind_return: "bind_p (return_p x) f = f x"
  by (rule ext) (simp add: bind_p_def return_p_def)

lemma total_bind_previous:
  "(\<And>t. ends_on (Suc c) r (f t)) \<Longrightarrow> ends_on (Suc c) r (bind_p previous f)"
  by (rule total_bind[OF total_previous])

lemma total_bind_consume:
  "(\<And>t. ends_on (Suc c) (r - 1) (f t)) \<Longrightarrow> ends_on c r (bind_p (consume k msg) f)"
  by (rule total_bind_moves[OF moves_consume])

lemma moves_bind_consume:
  "(\<And>t. ends_on (Suc c) (r - 1) (f t)) \<Longrightarrow> moves_on c r (bind_p (consume k msg) f)"
  by (rule moves_bind_moves[OF moves_consume])

lemma primary_total:
  assumes "ends_on 0 (r - 1) E"
  shows "ends_on c r (primary F E)"
proof -
  note FACTS = total_below[OF assms]
  show ?thesis
    unfolding primary_def
    by ((simp add: total_leaf bind_return FACTS split: option.split Expr.split
          | rule conjI | rule impI | rule allI
          | rule total_bind_match | rule total_bind_match_any | rule total_bind_previous
          | rule total_bind_consume | rule total_bind)+)
qed

lemma finishCall_loop_total:
  assumes "ends_on 0 r E" and "2 * r \<le> n"
  shows "ends_on c r (finishCall_loop E n arguments)"
  using assms
proof (induction n arbitrary: r c arguments)
  case 0
  then show ?case by (simp add: ends_on_zero)
next
  case (Suc n)
  show ?case
  proof (cases r)
    case 0
    then show ?thesis by (simp add: ends_on_zero)
  next
    case r: (Suc r')
    have E: "\<And>c. ends_on c (Suc r') E" "\<And>c. ends_on c r' E"
      using total_below[OF Suc.prems(1)] r by simp_all
    have again: "\<And>c args. ends_on c r' (finishCall_loop E n args)"
      using Suc.prems r by (intro Suc.IH E) simp_all
    note FACTS = E again
    show ?thesis
      unfolding r finishCall_loop.simps
      by ((simp add: total_leaf bind_return FACTS del: match_any.simps split: option.split Expr.split
          | rule conjI | rule impI | rule allI
          | rule total_bind_match | rule total_bind_match_any | rule total_bind_previous
          | rule total_bind_consume | rule total_bind)+)
  qed
qed

lemma finishCall_total:
  assumes "ends_on 0 r E" and "2 * r \<le> n"
  shows "ends_on c r (finishCall E n callee)"
proof -
  have args: "\<And>c a. ends_on c r (finishCall_loop E n a)"
    using assms by (intro finishCall_loop_total) simp_all
  note FACTS = args
  show ?thesis
    unfolding finishCall_def
    by ((simp add: total_leaf bind_return FACTS del: match_any.simps split: option.split Expr.split
          | rule conjI | rule impI | rule allI
          | rule total_bind_match | rule total_bind_match_any | rule total_bind_previous
          | rule total_bind_consume | rule total_bind)+)
qed

lemma call_loop_total:
  assumes "ends_on 0 (r - 1) E" and "2 * r \<le> n"
  shows "ends_on c r (call_loop E n expr)"
  using assms
proof (induction n arbitrary: r c expr)
  case 0
  then show ?case by (simp add: ends_on_zero)
next
  case (Suc n)
  show ?case
  proof (cases r)
    case 0
    then show ?thesis by (simp add: ends_on_zero)
  next
    case r: (Suc r')
    have E: "ends_on 0 r' E" "ends_on 0 (r' - 1) E"
      using total_below[OF Suc.prems(1)] r by simp_all
    have finish: "\<And>c e. ends_on c r' (finishCall E n e)"
      using Suc.prems r by (intro finishCall_total E) simp_all
    have again: "\<And>c e. ends_on c r' (call_loop E n e)"
      using Suc.prems r by (intro Suc.IH E) simp_all
    note FACTS = finish again
    show ?thesis
      unfolding r call_loop.simps
      by ((simp add: total_leaf bind_return FACTS del: match_any.simps split: option.split Expr.split
          | rule conjI | rule impI | rule allI
          | rule total_bind_match | rule total_bind_match_any | rule total_bind_previous
          | rule total_bind_consume | rule total_bind)+)
  qed
qed

lemma call_total:
  assumes "ends_on 0 (r - 1) E" and "2 * r \<le> n"
  shows "ends_on c r (call F E n)"
proof -
  have first: "\<And>c. ends_on c r (primary F E)"
    using assms by (intro primary_total) simp_all
  have rest: "\<And>c e. ends_on c r (call_loop E n e)"
    using assms by (intro call_loop_total) simp_all
  note FACTS = first rest
  show ?thesis
    unfolding call_def
    by ((simp add: total_leaf bind_return FACTS del: match_any.simps split: option.split Expr.split
          | rule conjI | rule impI | rule allI
          | rule total_bind_match | rule total_bind_match_any | rule total_bind_previous
          | rule total_bind_consume | rule total_bind)+)
qed

lemma unary_total:
  assumes "ends_on 0 (r - 1) E" and "2 * r + 1 \<le> n"
  shows "ends_on c r (unary F E n)"
  using assms
proof (induction n arbitrary: r c)
  case 0
  then show ?case by simp
next
  case (Suc n)
  show ?case
  proof (cases r)
    case 0
    then show ?thesis by (simp add: ends_on_zero)
  next
    case r: (Suc r')
    have E: "ends_on 0 (r' - 1) E"
      using total_below[OF Suc.prems(1)] r by simp
    have operand: "\<And>c. ends_on c r (call F E n)"
      using Suc.prems r by (intro call_total) simp_all
    have again: "\<And>c. ends_on c r' (unary F E n)"
      using Suc.prems r by (intro Suc.IH E) simp_all
    note FACTS = operand[unfolded r] again
    show ?thesis
      unfolding r unary.simps
      by ((simp add: total_leaf bind_return FACTS del: match_any.simps split: option.split Expr.split
          | rule conjI | rule impI | rule allI
          | rule total_bind_match | rule total_bind_match_any | rule total_bind_previous
          | rule total_bind_consume | rule total_bind)+)
  qed
qed

lemma factor_loop_total:
  assumes "ends_on 0 (r - 1) E" and "2 * r + 1 \<le> n"
  shows "ends_on c r (factor_loop F E n expr)"
  using assms
proof (induction n arbitrary: r c expr)
  case 0
  then show ?case by (simp add: ends_on_zero)
next
  case (Suc n)
  show ?case
  proof (cases r)
    case 0
    then show ?thesis by (simp add: ends_on_zero)
  next
    case r: (Suc r')
    have E: "ends_on 0 (r' - 1) E"
      using total_below[OF Suc.prems(1)] r by simp
    have operand: "\<And>c. ends_on c r' (unary F E n)"
      using Suc.prems r by (intro unary_total E) simp_all
    have again: "\<And>c e. ends_on c r' (factor_loop F E n e)"
      using Suc.prems r by (intro Suc.IH E) simp_all
    note FACTS = operand again
    show ?thesis
      unfolding r factor_loop.simps
      by ((simp add: total_leaf bind_return FACTS del: match_any.simps split: option.split Expr.split
          | rule conjI | rule impI | rule allI
          | rule total_bind_match | rule total_bind_match_any | rule total_bind_previous
          | rule total_bind_consume | rule total_bind)+)
  qed
qed

lemma factor_total:
  assumes "ends_on 0 (r - 1) E" and "2 * r + 1 \<le> n"
  shows "ends_on c r (factor F E n)"
proof -
  have first: "\<And>c. ends_on c r (unary F E n)"
    using assms by (intro unary_total) simp_all
  have rest: "\<And>c e. ends_on c r (factor_loop F E n e)"
    using assms by (intro factor_loop_total) simp_all
  note FACTS = first rest
  show ?thesis
    unfolding factor_def
    by ((simp add: total_leaf bind_return FACTS del: match_any.simps split: option.split Expr.split
          | rule conjI | rule impI | rule allI
          | rule total_bind_match | rule total_bind_match_any | rule total_bind_previous
          | rule total_bind_consume | rule total_bind)+)
qed

lemma term_loop_total:
  assumes "ends_on 0 (r - 1) E" and "2 * r + 1 \<le> n"
  shows "ends_on c r (term_loop F E n expr)"
  using assms
proof (induction n arbitrary: r c expr)
  case 0
  then show ?case by (simp add: ends_on_zero)
next
  case (Suc n)
  show ?case
  proof (cases r)
    case 0
    then show ?thesis by (simp add: ends_on_zero)
  next
    case r: (Suc r')
    have E: "ends_on 0 (r' - 1) E"
      using total_below[OF Suc.prems(1)] r by simp
    have operand: "\<And>c. ends_on c r' (factor F E n)"
      using Suc.prems r by (intro factor_total E) simp_all
    have again: "\<And>c e. ends_on c r' (term_loop F E n e)"
      using Suc.prems r by (intro Suc.IH E) simp_all
    note FACTS = operand again
    show ?thesis
      unfolding r term_loop.simps
      by ((simp add: total_leaf bind_return FACTS del: match_any.simps split: option.split Expr.split
          | rule conjI | rule impI | rule allI
          | rule total_bind_match | rule total_bind_match_any | rule total_bind_previous
          | rule total_bind_consume | rule total_bind)+)
  qed
qed

lemma term_expr_total:
  assumes "ends_on 0 (r - 1) E" and "2 * r + 1 \<le> n"
  shows "ends_on c r (term_expr F E n)"
proof -
  have first: "\<And>c. ends_on c r (factor F E n)"
    using assms by (intro factor_total) simp_all
  have rest: "\<And>c e. ends_on c r (term_loop F E n e)"
    using assms by (intro term_loop_total) simp_all
  note FACTS = first rest
  show ?thesis
    unfolding term_expr_def
    by ((simp add: total_leaf bind_return FACTS del: match_any.simps split: option.split Expr.split
          | rule conjI | rule impI | rule allI
          | rule total_bind_match | rule total_bind_match_any | rule total_bind_previous
          | rule total_bind_consume | rule total_bind)+)
qed

lemma comparison_loop_total:
  assumes "ends_on 0 (r - 1) E" and "2 * r + 1 \<le> n"
  shows "ends_on c r (comparison_loop F E n expr)"
  using assms
proof (induction n arbitrary: r c expr)
  case 0
  then show ?case by (simp add: ends_on_zero)
next
  case (Suc n)
  show ?case
  proof (cases r)
    case 0
    then show ?thesis by (simp add: ends_on_zero)
  next
    case r: (Suc r')
    have E: "ends_on 0 (r' - 1) E"
      using total_below[OF Suc.prems(1)] r by simp
    have operand: "\<And>c. ends_on c r' (term_expr F E n)"
      using Suc.prems r by (intro term_expr_total E) simp_all
    have again: "\<And>c e. ends_on c r' (comparison_loop F E n e)"
      using Suc.prems r by (intro Suc.IH E) simp_all
    note FACTS = operand again
    show ?thesis
      unfolding r comparison_loop.simps
      by ((simp add: total_leaf bind_return FACTS del: match_any.simps split: option.split Expr.split
          | rule conjI | rule impI | rule allI
          | rule total_bind_match | rule total_bind_match_any | rule total_bind_previous
          | rule total_bind_consume | rule total_bind)+)
  qed
qed

lemma comparison_total:
  assumes "ends_on 0 (r - 1) E" and "2 * r + 1 \<le> n"
  shows "ends_on c r (comparison F E n)"
proof -
  have first: "\<And>c. ends_on c r (term_expr F E n)"
    using assms by (intro term_expr_total) simp_all
  have rest: "\<And>c e. ends_on c r (comparison_loop F E n e)"
    using assms by (intro comparison_loop_total) simp_all
  note FACTS = first rest
  show ?thesis
    unfolding comparison_def
    by ((simp add: total_leaf bind_return FACTS del: match_any.simps split: option.split Expr.split
          | rule conjI | rule impI | rule allI
          | rule total_bind_match | rule total_bind_match_any | rule total_bind_previous
          | rule total_bind_consume | rule total_bind)+)
qed

lemma equality_loop_total:
  assumes "ends_on 0 (r - 1) E" and "2 * r + 1 \<le> n"
  shows "ends_on c r (equality_loop F E n expr)"
  using assms
proof (induction n arbitrary: r c expr)
  case 0
  then show ?case by (simp add: ends_on_zero)
next
  case (Suc n)
  show ?case
  proof (cases r)
    case 0
    then show ?thesis by (simp add: ends_on_zero)
  next
    case r: (Suc r')
    have E: "ends_on 0 (r' - 1) E"
      using total_below[OF Suc.prems(1)] r by simp
    have operand: "\<And>c. ends_on c r' (comparison F E n)"
      using Suc.prems r by (intro comparison_total E) simp_all
    have again: "\<And>c e. ends_on c r' (equality_loop F E n e)"
      using Suc.prems r by (intro Suc.IH E) simp_all
    note FACTS = operand again
    show ?thesis
      unfolding r equality_loop.simps
      by ((simp add: total_leaf bind_return FACTS del: match_any.simps split: option.split Expr.split
          | rule conjI | rule impI | rule allI
          | rule total_bind_match | rule total_bind_match_any | rule total_bind_previous
          | rule total_bind_consume | rule total_bind)+)
  qed
qed

lemma equality_total:
  assumes "ends_on 0 (r - 1) E" and "2 * r + 1 \<le> n"
  shows "ends_on c r (equality F E n)"
proof -
  have first: "\<And>c. ends_on c r (comparison F E n)"
    using assms by (intro comparison_total) simp_all
  have rest: "\<And>c e. ends_on c r (equality_loop F E n e)"
    using assms by (intro equality_loop_total) simp_all
  note FACTS = first rest
  show ?thesis
    unfolding equality_def
    by ((simp add: total_leaf bind_return FACTS del: match_any.simps split: option.split Expr.split
          | rule conjI | rule impI | rule allI
          | rule total_bind_match | rule total_bind_match_any | rule total_bind_previous
          | rule total_bind_consume | rule total_bind)+)
qed

lemma logicalAnd_loop_total:
  assumes "ends_on 0 (r - 1) E" and "2 * r + 1 \<le> n"
  shows "ends_on c r (logicalAnd_loop F E n expr)"
  using assms
proof (induction n arbitrary: r c expr)
  case 0
  then show ?case by (simp add: ends_on_zero)
next
  case (Suc n)
  show ?case
  proof (cases r)
    case 0
    then show ?thesis by (simp add: ends_on_zero)
  next
    case r: (Suc r')
    have E: "ends_on 0 (r' - 1) E"
      using total_below[OF Suc.prems(1)] r by simp
    have operand: "\<And>c. ends_on c r' (equality F E n)"
      using Suc.prems r by (intro equality_total E) simp_all
    have again: "\<And>c e. ends_on c r' (logicalAnd_loop F E n e)"
      using Suc.prems r by (intro Suc.IH E) simp_all
    note FACTS = operand again
    show ?thesis
      unfolding r logicalAnd_loop.simps
      by ((simp add: total_leaf bind_return FACTS del: match_any.simps split: option.split Expr.split
          | rule conjI | rule impI | rule allI
          | rule total_bind_match | rule total_bind_match_any | rule total_bind_previous
          | rule total_bind_consume | rule total_bind)+)
  qed
qed

lemma logicalAnd_total:
  assumes "ends_on 0 (r - 1) E" and "2 * r + 1 \<le> n"
  shows "ends_on c r (logicalAnd F E n)"
proof -
  have first: "\<And>c. ends_on c r (equality F E n)"
    using assms by (intro equality_total) simp_all
  have rest: "\<And>c e. ends_on c r (logicalAnd_loop F E n e)"
    using assms by (intro logicalAnd_loop_total) simp_all
  note FACTS = first rest
  show ?thesis
    unfolding logicalAnd_def
    by ((simp add: total_leaf bind_return FACTS del: match_any.simps split: option.split Expr.split
          | rule conjI | rule impI | rule allI
          | rule total_bind_match | rule total_bind_match_any | rule total_bind_previous
          | rule total_bind_consume | rule total_bind)+)
qed

lemma logicalOr_loop_total:
  assumes "ends_on 0 (r - 1) E" and "2 * r + 1 \<le> n"
  shows "ends_on c r (logicalOr_loop F E n expr)"
  using assms
proof (induction n arbitrary: r c expr)
  case 0
  then show ?case by (simp add: ends_on_zero)
next
  case (Suc n)
  show ?case
  proof (cases r)
    case 0
    then show ?thesis by (simp add: ends_on_zero)
  next
    case r: (Suc r')
    have E: "ends_on 0 (r' - 1) E"
      using total_below[OF Suc.prems(1)] r by simp
    have operand: "\<And>c. ends_on c r' (logicalAnd F E n)"
      using Suc.prems r by (intro logicalAnd_total E) simp_all
    have again: "\<And>c e. ends_on c r' (logicalOr_loop F E n e)"
      using Suc.prems r by (intro Suc.IH E) simp_all
    note FACTS = operand again
    show ?thesis
      unfolding r logicalOr_loop.simps
      by ((simp add: total_leaf bind_return FACTS del: match_any.simps split: option.split Expr.split
          | rule conjI | rule impI | rule allI
          | rule total_bind_match | rule total_bind_match_any | rule total_bind_previous
          | rule total_bind_consume | rule total_bind)+)
  qed
qed

lemma logicalOr_total:
  assumes "ends_on 0 (r - 1) E" and "2 * r + 1 \<le> n"
  shows "ends_on c r (logicalOr F E n)"
proof -
  have first: "\<And>c. ends_on c r (logicalAnd F E n)"
    using assms by (intro logicalAnd_total) simp_all
  have rest: "\<And>c e. ends_on c r (logicalOr_loop F E n e)"
    using assms by (intro logicalOr_loop_total) simp_all
  note FACTS = first rest
  show ?thesis
    unfolding logicalOr_def
    by ((simp add: total_leaf bind_return FACTS del: match_any.simps split: option.split Expr.split
          | rule conjI | rule impI | rule allI
          | rule total_bind_match | rule total_bind_match_any | rule total_bind_previous
          | rule total_bind_consume | rule total_bind)+)
qed

lemma assignment_total:
  assumes "ends_on 0 (r - 1) E" and "2 * r + 2 \<le> n"
  shows "ends_on c r (assignment F E n)"
  using assms
proof (induction n arbitrary: r c)
  case 0
  then show ?case by simp
next
  case (Suc n)
  show ?case
  proof (cases r)
    case 0
    then show ?thesis by (simp add: ends_on_zero)
  next
    case r: (Suc r')
    have E: "ends_on 0 (r' - 1) E"
      using total_below[OF Suc.prems(1)] r by simp
    have operand: "\<And>c. ends_on c r (logicalOr F E n)"
      using Suc.prems r by (intro logicalOr_total) simp_all
    have again: "\<And>c. ends_on c r' (assignment F E n)"
      using Suc.prems r by (intro Suc.IH E) simp_all
    note FACTS = operand[unfolded r] again
    show ?thesis
      unfolding r assignment.simps
      by ((simp add: total_leaf bind_return FACTS del: match_any.simps split: option.split Expr.split
          | rule conjI | rule impI | rule allI
          | rule total_bind_match | rule total_bind_match_any | rule total_bind_previous
          | rule total_bind_consume | rule total_bind)+)
  qed
qed

lemma expression_Suc: "expression F (Suc n) = assignment F (expression F n) (Suc n)"
  by (rule ext) simp

lemma expression_total:
  assumes "2 * r + 2 \<le> n"
  shows "ends_on c r (expression F n)"
  using assms
proof (induction n arbitrary: r c)
  case 0
  then show ?case by simp
next
  case (Suc n)
  show ?case
  proof (cases r)
    case 0
    then show ?thesis by (simp add: ends_on_zero)
  next
    case r: (Suc r')
    have "ends_on 0 (r - 1) (expression F n)"
      using Suc.prems r by (intro Suc.IH) simp
    then show ?thesis
      unfolding expression_Suc using Suc.prems by (intro assignment_total) simp_all
  qed
qed

lemma expression_below:
  "2 * r + 2 \<le> n \<Longrightarrow> r' \<le> r \<Longrightarrow> ends_on c r' (expression F n)"
  by (rule expression_total) simp

lemma expressionStatement_moves:
  assumes "2 * r + 2 \<le> n"
  shows "moves_on c r (expressionStatement F n)"
proof -
  note FACTS = expression_below[OF assms]
  show ?thesis
    unfolding expressionStatement_def
    by ((simp add: total_leaf bind_return FACTS del: match_any.simps split: option.split Expr.split
          | rule conjI | rule impI | rule allI
          | rule moves_bind_match | rule moves_bind_consume
          | rule total_bind_match | rule total_bind_match_any | rule total_bind_previous
          | rule total_bind_consume | rule moves_bind | rule total_bind)+)
qed

lemma printStatement_total:
  assumes "2 * r + 2 \<le> n"
  shows "ends_on c r (printStatement F n)"
proof -
  note FACTS = expression_below[OF assms]
  show ?thesis
    unfolding printStatement_def
    by ((simp add: total_leaf bind_return FACTS del: match_any.simps split: option.split Expr.split
          | rule conjI | rule impI | rule allI
          | rule total_bind_match | rule total_bind_match_any | rule total_bind_previous
          | rule total_bind_consume | rule total_bind)+)
qed

lemma returnStatement_total:
  assumes "2 * r + 2 \<le> n"
  shows "ends_on (Suc c) r (returnStatement F n)"
proof -
  note FACTS = expression_below[OF assms]
  show ?thesis
    unfolding returnStatement_def
    by ((simp add: total_leaf bind_return FACTS del: match_any.simps split: option.split Expr.split
          | rule conjI | rule impI | rule allI
          | rule total_bind_match | rule total_bind_match_any | rule total_bind_previous
          | rule total_bind_consume | rule total_bind)+)
qed

lemma varDeclaration_total:
  assumes "2 * r + 2 \<le> n"
  shows "ends_on c r (varDeclaration F n is_const)"
proof -
  note FACTS = expression_below[OF assms]
  show ?thesis
    unfolding varDeclaration_def
    by ((simp add: total_leaf bind_return FACTS del: match_any.simps split: option.split Expr.split
          | rule conjI | rule impI | rule allI
          | rule total_bind_match | rule total_bind_match_any | rule total_bind_previous
          | rule total_bind_consume | rule total_bind)+)
qed

lemma ifStatement_total:
  assumes "ends_on 0 (r - 1) S" and "2 * r + 2 \<le> n"
  shows "ends_on c r (ifStatement F S n)"
proof -
  note FACTS = expression_below[OF assms(2)] total_below[OF assms(1)]
  show ?thesis
    unfolding ifStatement_def
    by ((simp add: total_leaf bind_return FACTS del: match_any.simps split: option.split Expr.split
          | rule conjI | rule impI | rule allI
          | rule total_bind_match | rule total_bind_match_any | rule total_bind_previous
          | rule total_bind_consume | rule total_bind)+)
qed

lemma whileStatement_total:
  assumes "ends_on 0 (r - 1) S" and "2 * r + 2 \<le> n"
  shows "ends_on c r (whileStatement F S n)"
proof -
  note FACTS = expression_below[OF assms(2)] total_below[OF assms(1)]
  show ?thesis
    unfolding whileStatement_def
    by ((simp add: total_leaf bind_return FACTS del: match_any.simps split: option.split Expr.split
          | rule conjI | rule impI | rule allI
          | rule total_bind_match | rule total_bind_match_any | rule total_bind_previous
          | rule total_bind_consume | rule total_bind)+)
qed

lemma block_loop_total:
  assumes "moves_on 0 r D" and "2 * r \<le> n"
  shows "ends_on c r (block_loop D n statements)"
  using assms
proof (induction n arbitrary: r c statements)
  case 0
  then show ?case by (simp add: ends_on_zero)
next
  case (Suc n)
  show ?case
  proof (cases r)
    case 0
    then show ?thesis by (simp add: ends_on_zero)
  next
    case r: (Suc r')
    have D: "moves_on c (Suc r') D"
      using moves_below[OF Suc.prems(1)] r by simp
    have "moves_on 0 r' D"
      using moves_below[OF Suc.prems(1)] r by simp
    then have again: "\<And>c sts. ends_on c r' (block_loop D n sts)"
      using Suc.prems r by (intro Suc.IH) simp_all
    have step: "ends_on c (Suc r') (bind_p D (\<lambda>d. block_loop D n (statements @ [d])))"
      by (rule total_bind_moves[OF D]) (simp add: again)
    note FACTS = step
    show ?thesis
      unfolding r block_loop.simps
      by ((simp add: total_leaf bind_return FACTS del: match_any.simps split: option.split Expr.split
          | rule conjI | rule impI | rule allI
          | rule total_bind_match | rule total_bind_match_any | rule total_bind_previous
          | rule total_bind_consume | rule total_bind)+)
  qed
qed

lemma block_total:
  assumes "moves_on 0 r D" and "2 * r \<le> n"
  shows "ends_on c r (block D n)"
proof -
  have loop: "\<And>c sts. ends_on c r (block_loop D n sts)"
    using assms by (intro block_loop_total) simp_all
  note FACTS = loop
  show ?thesis
    unfolding block_def
    by ((simp add: total_leaf bind_return FACTS del: match_any.simps split: option.split Expr.split
          | rule conjI | rule impI | rule allI
          | rule total_bind_match | rule total_bind_match_any | rule total_bind_previous
          | rule total_bind_consume | rule total_bind)+)
qed

lemma statement_Suc:
  "statement F (Suc n) =
     bind_p (match IF) (\<lambda>m. if m then ifStatement F (statement F n) n else
     bind_p (match WHILE) (\<lambda>m. if m then whileStatement F (statement F n) n else
     bind_p (match PRINT) (\<lambda>m. if m then printStatement F n else
     bind_p (match RETURN) (\<lambda>m. if m then returnStatement F n else
     bind_p (match LEFT_BRACE) (\<lambda>m.
       if m then bind_p (block (declaration_stmt F n) n) (\<lambda>b. return_p (BlockStmt b))
       else expressionStatement F n)))))"
  by (rule ext) simp

lemma declaration_stmt_Suc:
  "declaration_stmt F (Suc n) =
     bind_p (match VAR) (\<lambda>m.
       if m then varDeclaration F n is_const_default
       else statement F n)"
  by (rule ext) simp

lemma statement_declaration_moves:
  "(\<forall>r c. 2 * r + 3 \<le> n \<longrightarrow> moves_on c r (statement F n))
   \<and> (\<forall>r c. 2 * r + 4 \<le> n \<longrightarrow> moves_on c r (declaration_stmt F n))"
proof (induction n)
  case 0
  then show ?case by simp
next
  case (Suc n)
  have st: "moves_on c r (statement F (Suc n))" if n: "2 * r + 3 \<le> Suc n" for r c
  proof (cases r)
    case 0
    then show ?thesis by (simp add: moves_on_zero)
  next
    case r: (Suc r')
    from Suc n r have S: "ends_on 0 (r' - 1) (statement F n)"
      by (intro moves_on_total) simp
    from Suc n r have D: "moves_on 0 r' (declaration_stmt F n)"
      by simp
    have 1: "\<And>c. ends_on c r' (ifStatement F (statement F n) n)"
      using n r by (intro ifStatement_total S) simp
    have 2: "\<And>c. ends_on c r' (whileStatement F (statement F n) n)"
      using n r by (intro whileStatement_total S) simp
    have 3: "\<And>c. ends_on c r' (printStatement F n)"
      using n r by (intro printStatement_total) simp
    have 4: "\<And>c. ends_on (Suc c) r' (returnStatement F n)"
      using n r by (intro returnStatement_total) simp
    have 5: "\<And>c. ends_on c r' (block (declaration_stmt F n) n)"
      using n r by (intro block_total D) simp
    have 6: "\<And>c. moves_on c (Suc r') (expressionStatement F n)"
      using n r by (intro expressionStatement_moves) simp
    note FACTS = 1 2 3 4 5 6
    show ?thesis
      unfolding r statement_Suc
      by ((simp add: total_leaf bind_return FACTS del: match_any.simps split: option.split Expr.split
          | rule conjI | rule impI | rule allI
          | rule moves_bind_match | rule moves_bind_consume
          | rule total_bind_match | rule total_bind_match_any | rule total_bind_previous
          | rule total_bind_consume | rule moves_bind | rule total_bind)+)
  qed
  have de: "moves_on c r (declaration_stmt F (Suc n))" if n: "2 * r + 4 \<le> Suc n" for r c
  proof (cases r)
    case 0
    then show ?thesis by (simp add: moves_on_zero)
  next
    case r: (Suc r')
    have 1: "\<And>c. ends_on c r' (varDeclaration F n is_const_default)"
      using n r by (intro varDeclaration_total) simp
    from Suc n r have 2: "\<And>c. moves_on c (Suc r') (statement F n)"
      by simp
    note FACTS = 1 2
    show ?thesis
      unfolding r declaration_stmt_Suc
      by ((simp add: total_leaf bind_return FACTS del: match_any.simps split: option.split Expr.split
          | rule conjI | rule impI | rule allI
          | rule moves_bind_match | rule moves_bind_consume
          | rule total_bind_match | rule total_bind_match_any | rule total_bind_previous
          | rule total_bind_consume | rule moves_bind | rule total_bind)+)
  qed
  from st de show ?case by blast
qed

lemma declaration_stmt_moves:
  "2 * r + 4 \<le> n \<Longrightarrow> moves_on c r (declaration_stmt F n)"
  using statement_declaration_moves by blast

lemma synchronize_loop_step:
  assumes "well_formed s" "0 < current s"
  shows "synchronize_loop (Suc n) s =
     (if resync_at (tokens s) (current s) then Some (Returns (), s)
      else synchronize_loop n (s\<lparr>current := Suc (current s)\<rparr>))"
  using assms
  by (simp add: resync_at_def bind_p_Returns[OF isAtEnd_wf] bind_p_Returns[OF previous_wf]
      bind_p_Returns[OF peek_wf] bind_p_Returns[OF advance_step] return_p_def)

lemma synchronize_loop_total:
  assumes "well_formed s" "0 < current s" "remaining s \<le> n"
  shows "\<exists>k. synchronize_loop n s = Some (Returns (), s\<lparr>current := k\<rparr>)
           \<and> current s \<le> k \<and> well_formed (s\<lparr>current := k\<rparr>) \<and> resync_at (tokens s) k
           \<and> (\<forall>j. current s \<le> j \<and> j < k \<longrightarrow> \<not> resync_at (tokens s) j)"
  using assms
proof (induction n arbitrary: s)
  case 0
  with well_formed_remaining[of s] show ?case by simp
next
  case (Suc n)
  show ?case
  proof (cases "resync_at (tokens s) (current s)")
    case True
    with Suc.prems have "synchronize_loop (Suc n) s = Some (Returns (), s\<lparr>current := current s\<rparr>)"
      by (simp add: synchronize_loop_step del: synchronize_loop.simps)
    with True Suc.prems show ?thesis
      by (intro exI[of _ "current s"]) (auto simp del: synchronize_loop.simps)
  next
    case False
    let ?s1 = "s\<lparr>current := Suc (current s)\<rparr>"
    from False have ne: "type (tokens s ! current s) \<noteq> END_OF_FILE"
      by (simp add: resync_at_def)
    from Suc.prems have "well_formed ?s1" "0 < current ?s1" "remaining ?s1 \<le> n"
      using well_formed_step[OF _ ne] remaining_step[of s "Suc n"] by simp_all
    from Suc.IH[OF this] obtain k where k:
      "synchronize_loop n ?s1 = Some (Returns (), ?s1\<lparr>current := k\<rparr>)"
      "Suc (current s) \<le> k" "well_formed (?s1\<lparr>current := k\<rparr>)" "resync_at (tokens s) k"
      "\<forall>j. Suc (current s) \<le> j \<and> j < k \<longrightarrow> \<not> resync_at (tokens s) j"
      by auto
    have "\<not> resync_at (tokens s) j" if "current s \<le> j \<and> j < k" for j
      using that False k(5) by (cases "j = current s") auto
    with k False Suc.prems show ?thesis
      by (intro exI[of _ k]) (auto simp add: synchronize_loop_step simp del: synchronize_loop.simps)
  qed
qed

text \<open>
  \<open>synchronize\<close> on the state a throwing routine leaves: the cursor has moved since
  the statement began, or it is not at the end.
\<close>

lemma synchronize_total:
  assumes "well_formed s" "remaining s \<le> n"
    and "0 < current s \<or> type (tokens s ! current s) \<noteq> END_OF_FILE"
  shows "\<exists>k. synchronize n s = Some (Returns (), s\<lparr>current := k\<rparr>)
           \<and> well_formed (s\<lparr>current := k\<rparr>) \<and> resync_at (tokens s) k
           \<and> (if type (tokens s ! current s) = END_OF_FILE then k = current s
               else current s < k \<and> (\<forall>j. current s < j \<and> j < k \<longrightarrow> \<not> resync_at (tokens s) j))"
proof (cases "type (tokens s ! current s) = END_OF_FILE")
  case True
  with assms have pos: "0 < current s" by simp
  from assms(2) well_formed_remaining[OF assms(1)] obtain n' where n: "n = Suc n'"
    by (cases n) auto
  from True have "resync_at (tokens s) (current s)" by (simp add: resync_at_def)
  with assms(1) pos True n have "synchronize n s = Some (Returns (), s\<lparr>current := current s\<rparr>)"
    by (simp add: synchronize_def bind_p_Returns[OF advance_at_end] synchronize_loop_step
        del: synchronize_loop.simps)
  with True assms(1) show ?thesis
    by (intro exI[of _ "current s"]) (auto simp add: resync_at_def)
next
  case False
  let ?s1 = "s\<lparr>current := Suc (current s)\<rparr>"
  from assms have "well_formed ?s1" "0 < current ?s1" "remaining ?s1 \<le> n"
    using well_formed_step[OF _ False] remaining_step[of s n] by simp_all
  from synchronize_loop_total[OF this] obtain k where k:
    "synchronize_loop n ?s1 = Some (Returns (), ?s1\<lparr>current := k\<rparr>)"
    "Suc (current s) \<le> k" "well_formed (?s1\<lparr>current := k\<rparr>)" "resync_at (tokens s) k"
    "\<forall>j. Suc (current s) \<le> j \<and> j < k \<longrightarrow> \<not> resync_at (tokens s) j"
    by auto
  with False assms(1) show ?thesis
    by (intro exI[of _ k]) (auto simp add: synchronize_def bind_p_Returns[OF advance_step])
qed

lemma parse_loop_at_end:
  "well_formed s \<Longrightarrow> type (tokens s ! current s) = END_OF_FILE \<Longrightarrow>
     parse_loop F (Suc n) sts s = Some (Returns sts, s)"
  by (simp add: bind_p_Returns[OF isAtEnd_wf] return_p_def)

lemma parse_loop_Returns:
  "well_formed s \<Longrightarrow> type (tokens s ! current s) \<noteq> END_OF_FILE \<Longrightarrow>
     declaration_stmt F n s = Some (Returns d, s1) \<Longrightarrow>
     parse_loop F (Suc n) sts s = parse_loop F n (sts @ [d]) s1"
  by (simp add: bind_p_Returns[OF isAtEnd_wf]) (simp add: bind_p_def try_catch_def return_p_def)

lemma parse_loop_Throws:
  "well_formed s \<Longrightarrow> type (tokens s ! current s) \<noteq> END_OF_FILE \<Longrightarrow>
     declaration_stmt F n s = Some (Throws e, s1) \<Longrightarrow>
     synchronize n s1 = Some (Returns (), s2) \<Longrightarrow>
     parse_loop F (Suc n) sts s = parse_loop F n sts s2"
  by (simp add: bind_p_Returns[OF isAtEnd_wf]) (simp add: bind_p_def try_catch_def return_p_def)

text \<open>One turn of the loop of \<open>parse\<close> on a statement that does not parse.\<close>

lemma recovery_step:
  assumes s: "well_formed s" "type (tokens s ! current s) \<noteq> END_OF_FILE" "2 * remaining s + 4 \<le> n"
    and d: "declaration_stmt F n s = Some (Throws e, s1)"
  shows "\<exists>k. synchronize n s1 = Some (Returns (), s1\<lparr>current := k\<rparr>)
           \<and> parse_loop F (Suc n) sts s = parse_loop F n sts (s1\<lparr>current := k\<rparr>)
           \<and> well_formed (s1\<lparr>current := k\<rparr>) \<and> tokens s1 = tokens s \<and> current s < k
           \<and> resync_at (tokens s) k
           \<and> (if type (tokens s ! current s1) = END_OF_FILE then k = current s1
               else current s1 < k \<and> (\<forall>j. current s1 < j \<and> j < k \<longrightarrow> \<not> resync_at (tokens s) j))
           \<and> (\<forall>msg. e = ParseError msg \<longrightarrow> length (diagnostics s) < length (diagnostics s1))"
proof -
  from declaration_stmt_moves[of "remaining s" n 0 F] s
  obtain out s' where "declaration_stmt F n s = Some (out, s')" "ends_well s out s'"
    unfolding moves_on_def by auto
  with d have ew: "ends_well s (Throws e :: Stmt outcome) s1" by simp
  then have s1: "well_formed s1" "tokens s1 = tokens s" "current s \<le> current s1"
    and rep: "\<forall>msg. e = ParseError msg \<longrightarrow> length (diagnostics s) < length (diagnostics s1)"
    by (auto simp: ends_well_def extends_def reported_def)
  from s1 s(3) have fuel: "remaining s1 \<le> n" by (simp add: remaining_def)
  have "0 < current s1 \<or> type (tokens s1 ! current s1) \<noteq> END_OF_FILE"
    using s(2) s1 by (cases "current s1 = current s") auto
  from synchronize_total[OF s1(1) fuel this, unfolded s1(2)] obtain k where k:
    "synchronize n s1 = Some (Returns (), s1\<lparr>current := k\<rparr>)"
    "well_formed (s1\<lparr>current := k\<rparr>)" "resync_at (tokens s) k"
    "if type (tokens s ! current s1) = END_OF_FILE then k = current s1
     else current s1 < k \<and> (\<forall>j. current s1 < j \<and> j < k \<longrightarrow> \<not> resync_at (tokens s) j)"
    by blast
  have "current s < k"
  proof (cases "type (tokens s ! current s1) = END_OF_FILE")
    case True
    with s(2) s1 have "current s1 \<noteq> current s" by auto
    with s1 k(4) True show ?thesis by simp
  next
    case False
    with k(4) s1 show ?thesis by simp
  qed
  with k s1 rep parse_loop_Throws[OF s(1,2) d k(1)] show ?thesis
    by (intro exI[of _ k]) (simp del: parse_loop.simps)
qed

lemma parse_loop_total:
  assumes "well_formed s" "2 * remaining s + 5 \<le> n"
  shows "\<exists>stmts s'. parse_loop F n sts s = Some (Returns stmts, s')
           \<and> well_formed s' \<and> tokens s' = tokens s \<and> type (tokens s ! current s') = END_OF_FILE"
  using assms
proof (induction n arbitrary: s sts)
  case 0
  then show ?case by simp
next
  case (Suc n)
  show ?case
  proof (cases "type (tokens s ! current s) = END_OF_FILE")
    case True
    with Suc.prems show ?thesis by (simp add: parse_loop_at_end del: parse_loop.simps)
  next
    case False
    from Suc.prems have fuel: "2 * remaining s + 4 \<le> n" by simp
    from declaration_stmt_moves[OF fuel, of 0 F] Suc.prems
    obtain out s1 where d: "declaration_stmt F n s = Some (out, s1)" "ends_well s out s1"
      "\<forall>x. out = Returns x \<longrightarrow> current s < current s1"
      unfolding moves_on_def by auto
    show ?thesis
    proof (cases out)
      case (Returns x)
      with d have s1: "well_formed s1" "tokens s1 = tokens s" "current s < current s1"
        by (auto simp: ends_well_def extends_def)
      with Suc.prems have "2 * remaining s1 + 5 \<le> n"
        using well_formed_in_range[OF s1(1)] by (simp add: remaining_def)
      from Suc.IH[OF s1(1) this, of "sts @ [x]"] s1 d(1) Returns Suc.prems(1) False
      show ?thesis by (simp add: parse_loop_Returns del: parse_loop.simps)
    next
      case (Throws e)
      from recovery_step[OF Suc.prems(1) False fuel d(1)[unfolded Throws], of sts]
      obtain k where k: "parse_loop F (Suc n) sts s = parse_loop F n sts (s1\<lparr>current := k\<rparr>)"
        "well_formed (s1\<lparr>current := k\<rparr>)" "tokens s1 = tokens s" "current s < k"
        by blast
      with Suc.prems have "2 * remaining (s1\<lparr>current := k\<rparr>) + 5 \<le> n"
        using well_formed_in_range[OF k(2)] by (simp add: remaining_def)
      from Suc.IH[OF k(2) this, of sts] k show ?thesis by simp
    next
      case Undefined
      with d show ?thesis by (simp add: ends_well_def)
    qed
  qed
qed

lemma well_formed_new_Parser:
  "well_formed (new_Parser toks fname) \<longleftrightarrow> (\<exists>k<length toks. type (toks ! k) = END_OF_FILE)"
  by (auto simp: well_formed_def new_Parser_def)

text \<open>
  Claim C3. On every token vector with an end-of-file token, \<open>parse\<close> returns a
  sequence of statements: it does not run on for ever, reads nothing out of range and
  throws nothing. When a statement does not parse, the exception is caught,
  \<open>synchronize\<close> advances one token and then skips to the first place where the token
  before is a semicolon or the token at the cursor begins a statement (or is the end of
  file), and the loop goes on from there with the statements collected so far. A
  \<open>ParseError\<close> has recorded a diagnostic by then. The other failure has not: where the
  conversion of a numeric literal throws, as for \<open>1e999\<close>, which is out of the range of a
  double, the statement is dropped and nothing is reported. \<open>1e999;\<close> parses to no
  statement and no diagnostic, and \<open>var x = 1e999; print(x);\<close> parses without a
  diagnostic to the call alone, which then faults on the undeclared \<open>x\<close>.
\<close>

theorem parse_returns_and_recovers:
  assumes "well_formed s"
  shows "(\<exists>stmts s'. parse F s = Some (Returns stmts, s')
            \<and> tokens s' = tokens s \<and> type (tokens s ! current s') = END_OF_FILE)
       \<and> (\<forall>n e s1 sts. type (tokens s ! current s) \<noteq> END_OF_FILE \<and> 2 * remaining s + 4 \<le> n
             \<and> declaration_stmt F n s = Some (Throws e, s1) \<longrightarrow>
            (\<exists>k. synchronize n s1 = Some (Returns (), s1\<lparr>current := k\<rparr>)
               \<and> parse_loop F (Suc n) sts s = parse_loop F n sts (s1\<lparr>current := k\<rparr>)
               \<and> resync_at (tokens s) k
               \<and> (if type (tokens s ! current s1) = END_OF_FILE then k = current s1
                   else current s1 < k
                     \<and> (\<forall>j. current s1 < j \<and> j < k \<longrightarrow> \<not> resync_at (tokens s) j))
               \<and> (\<forall>msg. e = ParseError msg \<longrightarrow> length (diagnostics s) < length (diagnostics s1))))
       \<and> (stod F ''1e999'' = None \<longrightarrow>
            declaration_stmt F 8 (new_Parser program_overflow fname) =
              Some (Throws StodFailure,
                    \<lparr>tokens = program_overflow, filename = fname, current = 1, diagnostics = []\<rparr>)
            \<and> parse F (new_Parser program_overflow fname) =
              Some (Returns [],
                    \<lparr>tokens = program_overflow, filename = fname, current = 2, diagnostics = []\<rparr>)
            \<and> run_program F program_overflow_var =
              Some ([], Inl (RuntimeError ''Undefined variable: x''), new_Interpreter))"
proof (intro conjI allI impI)
  have "2 * remaining s + 5 \<le> 4 * length (tokens s) + 8"
    by (simp add: remaining_def)
  from parse_loop_total[OF assms this, of F "[]"]
  show "\<exists>stmts s'. parse F s = Some (Returns stmts, s')
          \<and> tokens s' = tokens s \<and> type (tokens s ! current s') = END_OF_FILE"
    by (auto simp: parse_def parse_fuel_def)
next
  fix n e s1 sts
  assume a: "type (tokens s ! current s) \<noteq> END_OF_FILE \<and> 2 * remaining s + 4 \<le> n
             \<and> declaration_stmt F n s = Some (Throws e, s1)"
  from recovery_step[OF assms, of n F e s1 sts] a
  show "\<exists>k. synchronize n s1 = Some (Returns (), s1\<lparr>current := k\<rparr>)
               \<and> parse_loop F (Suc n) sts s = parse_loop F n sts (s1\<lparr>current := k\<rparr>)
               \<and> resync_at (tokens s) k
               \<and> (if type (tokens s ! current s1) = END_OF_FILE then k = current s1
                   else current s1 < k
                     \<and> (\<forall>j. current s1 < j \<and> j < k \<longrightarrow> \<not> resync_at (tokens s) j))
               \<and> (\<forall>msg. e = ParseError msg \<longrightarrow> length (diagnostics s) < length (diagnostics s1))"
    by blast
next
  assume "stod F ''1e999'' = None"
  then show "declaration_stmt F 8 (new_Parser program_overflow fname) =
              Some (Throws StodFailure,
                    \<lparr>tokens = program_overflow, filename = fname, current = 1, diagnostics = []\<rparr>)"
    by (simp add: parser_defs program_overflow_def eval_nat_numeral)
next
  assume "stod F ''1e999'' = None"
  then show "parse F (new_Parser program_overflow fname) =
              Some (Returns [],
                    \<lparr>tokens = program_overflow, filename = fname, current = 2, diagnostics = []\<rparr>)"
    by (simp add: parser_defs program_overflow_def eval_nat_numeral)
next
  assume "stod F ''1e999'' = None"
  then show "run_program F program_overflow_var =
              Some ([], Inl (RuntimeError ''Undefined variable: x''), new_Interpreter)"
    by (simp add: parser_defs program_overflow_var_def eval_nat_numeral)
qed

text \<open>
  The program \<open>var x; = ; x;\<close>: the statement at token 3 does not parse, a diagnostic is
  recorded and the parser resumes. The two programs with the literal \<open>1e999\<close>.
\<close>

theorem parse_returns_and_recovers_witness:
  "well_formed (new_Parser program_broken ''script'')
   \<and> (\<exists>stmts s'. parse example_arith (new_Parser program_broken ''script'') = Some (Returns stmts, s'))
   \<and> declaration_stmt example_arith 14 ((new_Parser program_broken ''script'')\<lparr>current := 3\<rparr>) =
        Some (Throws (ParseError ''Expect expression.''),
              (new_Parser program_broken ''script'')
                \<lparr>current := 3,
                 diagnostics :=
                   [\<lparr>severity = ERROR, message = ''Expect expression. at '='' @ [CHR 39],
                     location = \<lparr>loc_filename = ''script'', loc_line = 1, loc_column = 1\<rparr>\<rparr>]\<rparr>)
   \<and> (\<exists>k. synchronize 14
              ((new_Parser program_broken ''script'')
                \<lparr>current := 3,
                 diagnostics :=
                   [\<lparr>severity = ERROR, message = ''Expect expression. at '='' @ [CHR 39],
                     location = \<lparr>loc_filename = ''script'', loc_line = 1, loc_column = 1\<rparr>\<rparr>]\<rparr>)
            = Some (Returns (),
                (new_Parser program_broken ''script'')
                \<lparr>current := k,
                 diagnostics :=
                   [\<lparr>severity = ERROR, message = ''Expect expression. at '='' @ [CHR 39],
                     location = \<lparr>loc_filename = ''script'', loc_line = 1, loc_column = 1\<rparr>\<rparr>]\<rparr>)
          \<and> resync_at program_broken k)
   \<and> stod example_arith ''1e999'' = None
   \<and> parse example_arith (new_Parser program_overflow ''script'') =
        Some (Returns [],
              \<lparr>tokens = program_overflow, filename = ''script'', current = 2, diagnostics = []\<rparr>)
   \<and> run_program example_arith program_overflow_var =
        Some ([], Inl (RuntimeError ''Undefined variable: x''), new_Interpreter)"
proof -
  let ?p = "new_Parser program_broken ''script''"
  let ?s = "?p\<lparr>current := 3\<rparr>"
  let ?d = "[\<lparr>severity = ERROR, message = ''Expect expression. at '='' @ [CHR 39],
             location = \<lparr>loc_filename = ''script'', loc_line = 1, loc_column = 1\<rparr>\<rparr>]"
  have w0: "well_formed ?p"
    by (auto simp: well_formed_def new_Parser_def program_broken_def tk_def intro!: exI[of _ 7])
  have w: "well_formed ?s"
    by (auto simp: well_formed_def new_Parser_def program_broken_def tk_def intro!: exI[of _ 7])
  have ne: "type (tokens ?s ! current ?s) \<noteq> END_OF_FILE \<and> 2 * remaining ?s + 4 \<le> 14"
    by (simp add: new_Parser_def program_broken_def tk_def remaining_def)
  have d: "declaration_stmt example_arith 14 ?s =
             Some (Throws (ParseError ''Expect expression.''), ?s\<lparr>diagnostics := ?d\<rparr>)"
    by (simp add: routine_defs new_Parser_def program_broken_def tk_def eval_nat_numeral)
  have st: "stod example_arith ''1e999'' = None"
    by (simp add: example_arith_def)
  from parse_returns_and_recovers[OF w0, of example_arith "''script''"]
  have total: "\<exists>stmts s'. parse example_arith ?p = Some (Returns stmts, s')"
    by blast
  from st parse_returns_and_recovers[OF w0, of example_arith "''script''"]
  have drop: "parse example_arith (new_Parser program_overflow ''script'') =
        Some (Returns [],
              \<lparr>tokens = program_overflow, filename = ''script'', current = 2, diagnostics = []\<rparr>)"
    "run_program example_arith program_overflow_var =
        Some ([], Inl (RuntimeError ''Undefined variable: x''), new_Interpreter)"
    by blast+
  from parse_returns_and_recovers[OF w, of example_arith "''script''"] ne d
  have "\<exists>k. synchronize 14 (?s\<lparr>diagnostics := ?d\<rparr>) = Some (Returns (), ?s\<lparr>diagnostics := ?d, current := k\<rparr>)
          \<and> resync_at (tokens ?s) k"
    by blast
  with w0 total d st drop show ?thesis
    by (simp add: new_Parser_def)
qed

section \<open>Precedence of the arithmetic operators\<close>

text \<open>The cursor routines on a state whose cursor is in range.\<close>

lemma check_at:
  "current s < length (tokens s) \<Longrightarrow>
     check t s = Some (Returns (type (tokens s ! current s) \<noteq> END_OF_FILE
       \<and> type (tokens s ! current s) = t), s)"
  by (simp add: check_def isAtEnd_def peek_def bind_p_def return_p_def)

lemma advance_at:
  "current s < length (tokens s) \<Longrightarrow> type (tokens s ! current s) \<noteq> END_OF_FILE \<Longrightarrow>
     advance s = Some (Returns (tokens s ! current s), s\<lparr>current := Suc (current s)\<rparr>)"
  by (simp add: advance_def isAtEnd_def peek_def bind_p_def return_p_def increment_current_def
      previous_def)

lemma match_at:
  "current s < length (tokens s) \<Longrightarrow> match t s =
     (if type (tokens s ! current s) \<noteq> END_OF_FILE \<and> type (tokens s ! current s) = t
      then Some (Returns True, s\<lparr>current := Suc (current s)\<rparr>)
      else Some (Returns False, s))"
  by (simp add: match_def bind_p_def check_at advance_at return_p_def)

lemma match_any_at:
  "current s < length (tokens s) \<Longrightarrow> match_any ts s =
     (if type (tokens s ! current s) \<noteq> END_OF_FILE \<and> type (tokens s ! current s) \<in> set ts
      then Some (Returns True, s\<lparr>current := Suc (current s)\<rparr>)
      else Some (Returns False, s))"
  by (induction ts) (auto simp: bind_p_def check_at advance_at return_p_def)

lemma previous_at:
  "current s < length (tokens s) \<Longrightarrow>
     previous (s\<lparr>current := Suc (current s)\<rparr>) = Some (Returns (tokens s ! current s), s\<lparr>current := Suc (current s)\<rparr>)"
  by (simp add: previous_def)

text \<open>
  \<open>Parser::term\<close> on three operands joined by an additive and a multiplicative
  operator, in either order. The operands are whatever \<open>unary\<close> parses, each with the
  fuel the routine has left when it reaches the operand.
\<close>

lemma additive_then_multiplicative:
  assumes a: "unary F E n s = Some (Returns a, s1)"
    and t1: "current s1 < length (tokens s1)" "type (tokens s1 ! current s1) \<in> {MINUS, PLUS}"
    and b: "unary F E (n - 1) (s1\<lparr>current := Suc (current s1)\<rparr>) = Some (Returns b, s2)"
    and t2: "current s2 < length (tokens s2)"
      "type (tokens s2 ! current s2) \<in> {SLASH, STAR, PERCENT}"
    and c: "unary F E (n - 2) (s2\<lparr>current := Suc (current s2)\<rparr>) = Some (Returns c, s3)"
    and t3: "current s3 < length (tokens s3)"
      "type (tokens s3 ! current s3) \<notin> {SLASH, STAR, PERCENT, MINUS, PLUS}"
    and n: "3 \<le> n"
  shows "term_expr F E n s =
           Some (Returns (BinaryExpr a (tokens s1 ! current s1)
                            (BinaryExpr b (tokens s2 ! current s2) c)), s3)"
proof -
  define k where "k = n - 3"
  with n have n: "n = Suc (Suc (Suc k))"
    by simp
  from a b c have u: "unary F E (Suc (Suc (Suc k))) s = Some (Returns a, s1)"
    "unary F E (Suc (Suc k)) (s1\<lparr>current := Suc (current s1)\<rparr>) = Some (Returns b, s2)"
    "unary F E (Suc k) (s2\<lparr>current := Suc (current s2)\<rparr>) = Some (Returns c, s3)"
    by (simp_all add: n del: unary.simps)
  from t1 have m1: "match_any [SLASH, STAR, PERCENT] s1 = Some (Returns False, s1)"
    "match_any [MINUS, PLUS] s1 = Some (Returns True, s1\<lparr>current := Suc (current s1)\<rparr>)"
    by (auto simp: match_any_at simp del: match_any.simps)
  from t2 have m2: "match_any [SLASH, STAR, PERCENT] s2 = Some (Returns True, s2\<lparr>current := Suc (current s2)\<rparr>)"
    by (auto simp: match_any_at simp del: match_any.simps)
  from t3 have m3: "match_any [SLASH, STAR, PERCENT] s3 = Some (Returns False, s3)"
    "match_any [MINUS, PLUS] s3 = Some (Returns False, s3)"
    by (auto simp: match_any_at simp del: match_any.simps)
  show ?thesis
    unfolding n
    by (simp add: term_expr_def factor_def bind_p_def u m1 m2 m3 previous_at t1 t2
        return_p_def del: match_any.simps unary.simps)
qed

lemma multiplicative_then_additive:
  assumes a: "unary F E n s = Some (Returns a, s1)"
    and t1: "current s1 < length (tokens s1)"
      "type (tokens s1 ! current s1) \<in> {SLASH, STAR, PERCENT}"
    and b: "unary F E (n - 1) (s1\<lparr>current := Suc (current s1)\<rparr>) = Some (Returns b, s2)"
    and t2: "current s2 < length (tokens s2)" "type (tokens s2 ! current s2) \<in> {MINUS, PLUS}"
    and c: "unary F E (n - 1) (s2\<lparr>current := Suc (current s2)\<rparr>) = Some (Returns c, s3)"
    and t3: "current s3 < length (tokens s3)"
      "type (tokens s3 ! current s3) \<notin> {SLASH, STAR, PERCENT, MINUS, PLUS}"
    and n: "3 \<le> n"
  shows "term_expr F E n s =
           Some (Returns (BinaryExpr (BinaryExpr a (tokens s1 ! current s1) b)
                            (tokens s2 ! current s2) c), s3)"
proof -
  define k where "k = n - 3"
  with n have n: "n = Suc (Suc (Suc k))"
    by simp
  from a b c have u: "unary F E (Suc (Suc (Suc k))) s = Some (Returns a, s1)"
    "unary F E (Suc (Suc k)) (s1\<lparr>current := Suc (current s1)\<rparr>) = Some (Returns b, s2)"
    "unary F E (Suc (Suc k)) (s2\<lparr>current := Suc (current s2)\<rparr>) = Some (Returns c, s3)"
    by (simp_all add: n del: unary.simps)
  from t1 have m1: "match_any [SLASH, STAR, PERCENT] s1 = Some (Returns True, s1\<lparr>current := Suc (current s1)\<rparr>)"
    by (auto simp: match_any_at simp del: match_any.simps)
  from t2 have m2: "match_any [SLASH, STAR, PERCENT] s2 = Some (Returns False, s2)"
    "match_any [MINUS, PLUS] s2 = Some (Returns True, s2\<lparr>current := Suc (current s2)\<rparr>)"
    by (auto simp: match_any_at simp del: match_any.simps)
  from t3 have m3: "match_any [SLASH, STAR, PERCENT] s3 = Some (Returns False, s3)"
    "match_any [MINUS, PLUS] s3 = Some (Returns False, s3)"
    by (auto simp: match_any_at simp del: match_any.simps)
  show ?thesis
    unfolding n
    by (simp add: term_expr_def factor_def bind_p_def u m1 m2 m3 previous_at t1 t2
        return_p_def del: match_any.simps unary.simps)
qed

text \<open>A term that no operator of lower precedence follows, as an expression.\<close>

lemma expression_of_term:
  assumes "term_expr F (expression F m) m s = Some (Returns x, s3)"
    and "current s3 < length (tokens s3)"
    and "type (tokens s3 ! current s3) \<notin>
           {GREATER, GREATER_EQUAL, LESS, LESS_EQUAL, BANG_EQUAL, EQUAL_EQUAL, AND, OR, EQUAL}"
    and "1 \<le> m"
  shows "expression F (Suc m) s = Some (Returns x, s3)"
proof -
  from assms(4) obtain k where m: "m = Suc k"
    by (cases m) auto
  from assms(2,3) have none:
    "match_any [GREATER, GREATER_EQUAL, LESS, LESS_EQUAL] s3 = Some (Returns False, s3)"
    "match_any [BANG_EQUAL, EQUAL_EQUAL] s3 = Some (Returns False, s3)"
    "match AND s3 = Some (Returns False, s3)"
    "match OR s3 = Some (Returns False, s3)"
    "match EQUAL s3 = Some (Returns False, s3)"
    by (auto simp: match_any_at match_at simp del: match_any.simps)
  have "assignment F (expression F m) (Suc m) s = Some (Returns x, s3)"
    using assms(1) unfolding m
    by (simp add: logicalOr_def logicalAnd_def equality_def comparison_def bind_p_def none
        return_p_def del: match_any.simps expression.simps)
  then show ?thesis by simp
qed

section \<open>Programs run from their tokens\<close>

text \<open>
  Claim C5. The operator \<open>/\<close> has two faults. With two integers, or two doubles, and a
  right operand that is the zero of its kind (for doubles: that compares equal to \<open>0.0\<close>),
  the fault is \<open>Division by zero\<close>; with operands that are not two integers or two doubles,
  it is \<open>Invalid operands to /\<close>. The program \<open>10 / 0;\<close> ends in the first fault and
  \<open>true / 1;\<close> in the second, whatever doubles the literals convert to, provided the
  literal \<open>0\<close> converts to a zero.
\<close>

theorem division_faults:
  "slash_values F (VInt i) (VInt 0) = Inl (RuntimeError ''Division by zero'')
   \<and> (double_eq b double_zero \<longrightarrow>
        slash_values F (VDouble a) (VDouble b) = Inl (RuntimeError ''Division by zero''))
   \<and> (\<not> same_numeric_kind l r \<longrightarrow>
        slash_values F l r = Inl (RuntimeError ''Invalid operands to /''))
   \<and> binary_switch F SLASH (VInt 10) (VInt 0) = Inl (RuntimeError ''Division by zero'')
   \<and> binary_switch F SLASH (VBool True) (VInt 1) = Inl (RuntimeError ''Invalid operands to /'')
   \<and> (stod F ''10'' = Some t \<and> stod F ''0'' = Some z \<and> double_eq z double_zero \<longrightarrow>
        run_program F program_10_div_0 =
          Some ([], Inl (RuntimeError ''Division by zero''), new_Interpreter\<lparr>lastValue := VDouble z\<rparr>))
   \<and> (stod F ''1'' = Some d \<longrightarrow>
        run_program F program_true_div_1 =
          Some ([], Inl (RuntimeError ''Invalid operands to /''), new_Interpreter\<lparr>lastValue := VDouble d\<rparr>))"
proof (intro conjI impI)
  show "slash_values F (VInt i) (VInt 0) = Inl (RuntimeError ''Division by zero'')"
    by simp
  show "slash_values F (VDouble a) (VDouble b) = Inl (RuntimeError ''Division by zero'')"
    if "double_eq b double_zero"
    using that by simp
  show "slash_values F l r = Inl (RuntimeError ''Invalid operands to /'')"
    if "\<not> same_numeric_kind l r"
    using that by (cases l; cases r) (auto simp: same_numeric_kind_def)
  show "binary_switch F SLASH (VInt 10) (VInt 0) = Inl (RuntimeError ''Division by zero'')"
    by (simp add: binary_switch_def)
  show "binary_switch F SLASH (VBool True) (VInt 1) = Inl (RuntimeError ''Invalid operands to /'')"
    by (simp add: binary_switch_def)
  show "run_program F program_10_div_0 =
          Some ([], Inl (RuntimeError ''Division by zero''), new_Interpreter\<lparr>lastValue := VDouble z\<rparr>)"
    if "stod F ''10'' = Some t \<and> stod F ''0'' = Some z \<and> double_eq z double_zero"
    using that by (simp add: parser_defs program_10_div_0_def eval_nat_numeral)
  show "run_program F program_true_div_1 =
          Some ([], Inl (RuntimeError ''Invalid operands to /''), new_Interpreter\<lparr>lastValue := VDouble d\<rparr>)"
    if "stod F ''1'' = Some d"
    using that by (simp add: parser_defs program_true_div_1_def eval_nat_numeral)
qed

theorem division_faults_witness:
  "double_eq 0 double_zero
   \<and> slash_values example_arith (VDouble 0x4024000000000000) (VDouble 0) =
       Inl (RuntimeError ''Division by zero'')
   \<and> \<not> same_numeric_kind (VBool True) (VInt 1)
   \<and> slash_values example_arith (VBool True) (VInt 1) = Inl (RuntimeError ''Invalid operands to /'')
   \<and> stod example_arith ''10'' = Some 0x4024000000000000 \<and> stod example_arith ''0'' = Some 0
   \<and> run_program example_arith program_10_div_0 =
       Some ([], Inl (RuntimeError ''Division by zero''), new_Interpreter\<lparr>lastValue := VDouble 0\<rparr>)
   \<and> stod example_arith ''1'' = Some 0x3FF0000000000000
   \<and> run_program example_arith program_true_div_1 =
       Some ([], Inl (RuntimeError ''Invalid operands to /''),
             new_Interpreter\<lparr>lastValue := VDouble 0x3FF0000000000000\<rparr>)"
proof -
  have 1: "double_eq 0 double_zero"
    by (simp add: double_eq_def double_zero_def is_nan_def magnitude_def)
  have 2: "\<not> same_numeric_kind (VBool True) (VInt 1)"
    by (simp add: same_numeric_kind_def)
  have 3: "stod example_arith ''10'' = Some 0x4024000000000000" "stod example_arith ''0'' = Some 0"
    "stod example_arith ''1'' = Some 0x3FF0000000000000"
    by (simp_all add: example_arith_def)
  from 1 2 3 division_faults[of example_arith _ 0 "0x4024000000000000" "VBool True" "VInt 1"
      "0x4024000000000000" 0 "0x3FF0000000000000"]
  show ?thesis by simp
qed

text \<open>
  Claim C1. The operator \<open>+\<close> on a string and an integer, in either order, gives the
  string joined with the decimal text of the integer, and \<open>1\<close> is rendered \<open>1\<close>. The
  programs \<open>"a" + 1;\<close> and \<open>1 + "a";\<close> do not get there: \<open>primary\<close> converts the
  lexeme of an integer literal with \<open>stod\<close> and hands the interpreter a double, and for a
  string and a double \<open>+\<close> faults with \<open>Invalid operands to +\<close>.
\<close>

theorem string_plus_integer_literal_faults:
  "plus_values F (VString a) (VInt i) = Inr (VString (a @ to_string i))
   \<and> plus_values F (VInt i) (VString a) = Inr (VString (to_string i @ a))
   \<and> to_string 1 = ''1''
   \<and> (stod F ''1'' = Some d \<longrightarrow>
        run_program F program_a_plus_1 =
          Some ([], Inl (RuntimeError ''Invalid operands to +''), new_Interpreter\<lparr>lastValue := VDouble d\<rparr>)
        \<and> run_program F program_1_plus_a =
          Some ([], Inl (RuntimeError ''Invalid operands to +''), new_Interpreter\<lparr>lastValue := VString ''a''\<rparr>))"
proof (intro conjI impI)
  show "plus_values F (VString a) (VInt i) = Inr (VString (a @ to_string i))" by simp
  show "plus_values F (VInt i) (VString a) = Inr (VString (to_string i @ a))" by simp
  show "to_string 1 = ''1''" by (simp add: to_string_def decimal.simps)
  show "run_program F program_a_plus_1 =
          Some ([], Inl (RuntimeError ''Invalid operands to +''), new_Interpreter\<lparr>lastValue := VDouble d\<rparr>)"
    if "stod F ''1'' = Some d"
    using that by (simp add: parser_defs program_a_plus_1_def eval_nat_numeral)
  show "run_program F program_1_plus_a =
          Some ([], Inl (RuntimeError ''Invalid operands to +''), new_Interpreter\<lparr>lastValue := VString ''a''\<rparr>)"
    if "stod F ''1'' = Some d"
    using that by (simp add: parser_defs program_1_plus_a_def eval_nat_numeral)
qed

theorem string_plus_integer_literal_faults_witness:
  "stod example_arith ''1'' = Some 0x3FF0000000000000
   \<and> run_program example_arith program_a_plus_1 =
       Some ([], Inl (RuntimeError ''Invalid operands to +''),
             new_Interpreter\<lparr>lastValue := VDouble 0x3FF0000000000000\<rparr>)
   \<and> run_program example_arith program_1_plus_a =
       Some ([], Inl (RuntimeError ''Invalid operands to +''),
             new_Interpreter\<lparr>lastValue := VString ''a''\<rparr>)"
proof -
  have 1: "stod example_arith ''1'' = Some 0x3FF0000000000000"
    by (simp add: example_arith_def)
  from 1 string_plus_integer_literal_faults[of example_arith _ _ "0x3FF0000000000000"]
  show ?thesis by simp
qed

text \<open>
  Claim C6. Multiplicative operators bind tighter than additive ones. Let \<open>a\<close>, \<open>b\<close> and
  \<open>c\<close> be operands as \<open>unary\<close> parses them (literals, names, parenthesised expressions,
  calls, negations), with a token after \<open>c\<close> that is no binary operator. The expression
  \<open>a + b * c\<close>, with any of \<open>+ -\<close> for the first operator and any of \<open>* / %\<close> for the
  second, is parsed as \<open>a + (b * c)\<close>, by \<open>Parser::term\<close> and by \<open>expression\<close>; and
  \<open>a * b + c\<close> is parsed as \<open>(a * b) + c\<close>. (The routine reaches the operands with fuel
  \<open>m\<close>, \<open>m - 1\<close> and \<open>m - 2\<close> or \<open>m - 1\<close>; the fuel bounds the depth of nesting only.)
  Evaluating \<open>x + (y * z)\<close> on literals applies the inner operator to \<open>y\<close> and \<open>z\<close> and
  then the outer one to \<open>x\<close> and that result: for doubles the double sum of \<open>x\<close> and the
  double product, for integers \<open>x + y * z\<close>. The statement \<open>1 + 2 * 3;\<close> is parsed as
  \<open>1 + (2 * 3)\<close> and evaluates to 7: with the literals converted to the doubles \<open>1.0\<close>,
  \<open>2.0\<close> and \<open>3.0\<close> and the double product and sum \<open>2.0 * 3.0 = 6.0\<close> and
  \<open>1.0 + 6.0 = 7.0\<close>, the run ends without a fault and without a diagnostic, the last
  value being the double \<open>7.0\<close> (\<open>0x401C000000000000\<close>).
\<close>

theorem multiplication_binds_tighter:
  "(unary F (expression F m) m s = Some (Returns a, s1)
      \<and> current s1 < length (tokens s1) \<and> type (tokens s1 ! current s1) \<in> {MINUS, PLUS}
      \<and> unary F (expression F m) (m - 1) (s1\<lparr>current := Suc (current s1)\<rparr>) = Some (Returns b, s2)
      \<and> current s2 < length (tokens s2) \<and> type (tokens s2 ! current s2) \<in> {SLASH, STAR, PERCENT}
      \<and> unary F (expression F m) (m - 2) (s2\<lparr>current := Suc (current s2)\<rparr>) = Some (Returns c, s3)
      \<and> current s3 < length (tokens s3)
      \<and> type (tokens s3 ! current s3) \<notin>
            {SLASH, STAR, PERCENT, MINUS, PLUS, GREATER, GREATER_EQUAL, LESS,
             LESS_EQUAL, BANG_EQUAL, EQUAL_EQUAL, AND, OR, EQUAL}
      \<and> 3 \<le> m \<longrightarrow>
    term_expr F (expression F m) m s =
      Some (Returns (BinaryExpr a (tokens s1 ! current s1)
                       (BinaryExpr b (tokens s2 ! current s2) c)), s3)
    \<and> expression F (Suc m) s =
      Some (Returns (BinaryExpr a (tokens s1 ! current s1)
                       (BinaryExpr b (tokens s2 ! current s2) c)), s3))
   \<and> (unary F (expression F m) m s = Some (Returns a, s1)
      \<and> current s1 < length (tokens s1) \<and> type (tokens s1 ! current s1) \<in> {SLASH, STAR, PERCENT}
      \<and> unary F (expression F m) (m - 1) (s1\<lparr>current := Suc (current s1)\<rparr>) = Some (Returns b, s2)
      \<and> current s2 < length (tokens s2) \<and> type (tokens s2 ! current s2) \<in> {MINUS, PLUS}
      \<and> unary F (expression F m) (m - 1) (s2\<lparr>current := Suc (current s2)\<rparr>) = Some (Returns c, s3)
      \<and> current s3 < length (tokens s3)
      \<and> type (tokens s3 ! current s3) \<notin>
            {SLASH, STAR, PERCENT, MINUS, PLUS, GREATER, GREATER_EQUAL, LESS,
             LESS_EQUAL, BANG_EQUAL, EQUAL_EQUAL, AND, OR, EQUAL}
      \<and> 3 \<le> m \<longrightarrow>
    term_expr F (expression F m) m s =
      Some (Returns (BinaryExpr (BinaryExpr a (tokens s1 ! current s1) b)
                       (tokens s2 ! current s2) c), s3)
    \<and> expression F (Suc m) s =
      Some (Returns (BinaryExpr (BinaryExpr a (tokens s1 ! current s1) b)
                       (tokens s2 ! current s2) c), s3))
   \<and> (binary_switch F (type op2) y z = Inr v \<and> binary_switch F (type op1) x v = Inr w \<longrightarrow>
        evaluate F (BinaryExpr (LiteralExpr x) op1
                      (BinaryExpr (LiteralExpr y) op2 (LiteralExpr z))) st =
          (Inr w, st\<lparr>lastValue := w\<rparr>))
   \<and> (type op1 = PLUS \<and> type op2 = STAR \<longrightarrow>
        evaluate F (BinaryExpr (LiteralExpr (VDouble d1)) op1
                      (BinaryExpr (LiteralExpr (VDouble d2)) op2 (LiteralExpr (VDouble d3)))) st =
          (Inr (VDouble (dadd F d1 (dmul F d2 d3))),
           st\<lparr>lastValue := VDouble (dadd F d1 (dmul F d2 d3))\<rparr>)
        \<and> evaluate F (BinaryExpr (LiteralExpr (VInt i1)) op1
                      (BinaryExpr (LiteralExpr (VInt i2)) op2 (LiteralExpr (VInt i3)))) st =
          (Inr (VInt (i1 + i2 * i3)), st\<lparr>lastValue := VInt (i1 + i2 * i3)\<rparr>))
   \<and> (stod F ''1'' = Some 0x3FF0000000000000
      \<and> stod F ''2'' = Some 0x4000000000000000
      \<and> stod F ''3'' = Some 0x4008000000000000
      \<and> dmul F 0x4000000000000000 0x4008000000000000 = 0x4018000000000000
      \<and> dadd F 0x3FF0000000000000 0x4018000000000000 = 0x401C000000000000 \<longrightarrow>
      (\<exists>p. parse F (new_Parser program_1_plus_2_times_3 ''script'') =
            Some (Returns
              [ExpressionStmt
                (BinaryExpr (LiteralExpr (VDouble 0x3FF0000000000000)) (tk PLUS ''+'')
                  (BinaryExpr (LiteralExpr (VDouble 0x4000000000000000)) (tk STAR ''*'')
                     (LiteralExpr (VDouble 0x4008000000000000))))], p))
       \<and> run_program F program_1_plus_2_times_3 =
           Some ([], Inr (), new_Interpreter\<lparr>lastValue := VDouble 0x401C000000000000\<rparr>))"
proof -
  have first: "term_expr F (expression F m) m s =
      Some (Returns (BinaryExpr a (tokens s1 ! current s1)
                       (BinaryExpr b (tokens s2 ! current s2) c)), s3)
    \<and> expression F (Suc m) s =
      Some (Returns (BinaryExpr a (tokens s1 ! current s1)
                       (BinaryExpr b (tokens s2 ! current s2) c)), s3)"
    if h: "unary F (expression F m) m s = Some (Returns a, s1)
      \<and> current s1 < length (tokens s1) \<and> type (tokens s1 ! current s1) \<in> {MINUS, PLUS}
      \<and> unary F (expression F m) (m - 1) (s1\<lparr>current := Suc (current s1)\<rparr>) = Some (Returns b, s2)
      \<and> current s2 < length (tokens s2) \<and> type (tokens s2 ! current s2) \<in> {SLASH, STAR, PERCENT}
      \<and> unary F (expression F m) (m - 2) (s2\<lparr>current := Suc (current s2)\<rparr>) = Some (Returns c, s3)
      \<and> current s3 < length (tokens s3)
      \<and> type (tokens s3 ! current s3) \<notin>
            {SLASH, STAR, PERCENT, MINUS, PLUS, GREATER, GREATER_EQUAL, LESS,
             LESS_EQUAL, BANG_EQUAL, EQUAL_EQUAL, AND, OR, EQUAL}
      \<and> 3 \<le> m"
  proof -
    from h have t: "term_expr F (expression F m) m s =
           Some (Returns (BinaryExpr a (tokens s1 ! current s1)
                            (BinaryExpr b (tokens s2 ! current s2) c)), s3)"
      by (intro additive_then_multiplicative) simp_all
    with h have "expression F (Suc m) s =
      Some (Returns (BinaryExpr a (tokens s1 ! current s1)
                       (BinaryExpr b (tokens s2 ! current s2) c)), s3)"
      by (intro expression_of_term) simp_all
    with t show ?thesis by simp
  qed
  have second: "term_expr F (expression F m) m s =
      Some (Returns (BinaryExpr (BinaryExpr a (tokens s1 ! current s1) b)
                       (tokens s2 ! current s2) c), s3)
    \<and> expression F (Suc m) s =
      Some (Returns (BinaryExpr (BinaryExpr a (tokens s1 ! current s1) b)
                       (tokens s2 ! current s2) c), s3)"
    if h: "unary F (expression F m) m s = Some (Returns a, s1)
      \<and> current s1 < length (tokens s1) \<and> type (tokens s1 ! current s1) \<in> {SLASH, STAR, PERCENT}
      \<and> unary F (expression F m) (m - 1) (s1\<lparr>current := Suc (current s1)\<rparr>) = Some (Returns b, s2)
      \<and> current s2 < length (tokens s2) \<and> type (tokens s2 ! current s2) \<in> {MINUS, PLUS}
      \<and> unary F (expression F m) (m - 1) (s2\<lparr>current := Suc (current s2)\<rparr>) = Some (Returns c, s3)
      \<and> current s3 < length (tokens s3)
      \<and> type (tokens s3 ! current s3) \<notin>
            {SLASH, STAR, PERCENT, MINUS, PLUS, GREATER, GREATER_EQUAL, LESS,
             LESS_EQUAL, BANG_EQUAL, EQUAL_EQUAL, AND, OR, EQUAL}
      \<and> 3 \<le> m"
  proof -
    from h have t: "term_expr F (expression F m) m s =
           Some (Returns (BinaryExpr (BinaryExpr a (tokens s1 ! current s1) b)
                            (tokens s2 ! current s2) c), s3)"
      by (intro multiplicative_then_additive) simp_all
    with h have "expression F (Suc m) s =
      Some (Returns (BinaryExpr (BinaryExpr a (tokens s1 ! current s1) b)
                       (tokens s2 ! current s2) c), s3)"
      by (intro expression_of_term) simp_all
    with t show ?thesis by simp
  qed
  have ev: "evaluate F (BinaryExpr (LiteralExpr x) op1
                      (BinaryExpr (LiteralExpr y) op2 (LiteralExpr z))) st =
          (Inr w, st\<lparr>lastValue := w\<rparr>)"
    if "binary_switch F (type op2) y z = Inr v \<and> binary_switch F (type op1) x v = Inr w"
    using that by simp
  have num: "evaluate F (BinaryExpr (LiteralExpr (VDouble d1)) op1
                      (BinaryExpr (LiteralExpr (VDouble d2)) op2 (LiteralExpr (VDouble d3)))) st =
          (Inr (VDouble (dadd F d1 (dmul F d2 d3))),
           st\<lparr>lastValue := VDouble (dadd F d1 (dmul F d2 d3))\<rparr>)
        \<and> evaluate F (BinaryExpr (LiteralExpr (VInt i1)) op1
                      (BinaryExpr (LiteralExpr (VInt i2)) op2 (LiteralExpr (VInt i3)))) st =
          (Inr (VInt (i1 + i2 * i3)), st\<lparr>lastValue := VInt (i1 + i2 * i3)\<rparr>)"
    if "type op1 = PLUS \<and> type op2 = STAR"
    using that by (simp add: binary_switch_def)
  have prog: "(\<exists>p. parse F (new_Parser program_1_plus_2_times_3 ''script'') =
            Some (Returns
              [ExpressionStmt
                (BinaryExpr (LiteralExpr (VDouble 0x3FF0000000000000)) (tk PLUS ''+'')
                  (BinaryExpr (LiteralExpr (VDouble 0x4000000000000000)) (tk STAR ''*'')
                     (LiteralExpr (VDouble 0x4008000000000000))))], p))
       \<and> run_program F program_1_plus_2_times_3 =
           Some ([], Inr (), new_Interpreter\<lparr>lastValue := VDouble 0x401C000000000000\<rparr>)"
    if "stod F ''1'' = Some 0x3FF0000000000000
      \<and> stod F ''2'' = Some 0x4000000000000000
      \<and> stod F ''3'' = Some 0x4008000000000000
      \<and> dmul F 0x4000000000000000 0x4008000000000000 = 0x4018000000000000
      \<and> dadd F 0x3FF0000000000000 0x4018000000000000 = 0x401C000000000000"
    using that by (simp add: parser_defs program_1_plus_2_times_3_def eval_nat_numeral)
  from first second ev num prog show ?thesis
    by blast
qed

theorem multiplication_binds_tighter_witness:
  "unary example_arith (expression example_arith 4) 4
       (new_Parser program_1_plus_2_times_3 ''script'') =
     Some (Returns (LiteralExpr (VDouble 0x3FF0000000000000)),
           (new_Parser program_1_plus_2_times_3 ''script'')\<lparr>current := 1\<rparr>)
   \<and> expression example_arith 5 (new_Parser program_1_plus_2_times_3 ''script'') =
     Some (Returns
            (BinaryExpr (LiteralExpr (VDouble 0x3FF0000000000000)) (tk PLUS ''+'')
              (BinaryExpr (LiteralExpr (VDouble 0x4000000000000000)) (tk STAR ''*'')
                 (LiteralExpr (VDouble 0x4008000000000000)))),
           (new_Parser program_1_plus_2_times_3 ''script'')\<lparr>current := 5\<rparr>)
   \<and> expression example_arith 5 (new_Parser program_2_times_3_plus_1 ''script'') =
     Some (Returns
            (BinaryExpr
              (BinaryExpr (LiteralExpr (VDouble 0x4000000000000000)) (tk STAR ''*'')
                 (LiteralExpr (VDouble 0x4008000000000000)))
              (tk PLUS ''+'') (LiteralExpr (VDouble 0x3FF0000000000000))),
           (new_Parser program_2_times_3_plus_1 ''script'')\<lparr>current := 5\<rparr>)
   \<and> binary_switch example_arith STAR (VDouble 0x4000000000000000) (VDouble 0x4008000000000000)
       = Inr (VDouble 0x4018000000000000)
   \<and> binary_switch example_arith PLUS (VDouble 0x3FF0000000000000) (VDouble 0x4018000000000000)
       = Inr (VDouble 0x401C000000000000)
   \<and> evaluate example_arith
        (BinaryExpr (LiteralExpr (VDouble 0x3FF0000000000000)) (tk PLUS ''+'')
          (BinaryExpr (LiteralExpr (VDouble 0x4000000000000000)) (tk STAR ''*'')
             (LiteralExpr (VDouble 0x4008000000000000)))) new_Interpreter =
       (Inr (VDouble 0x401C000000000000), new_Interpreter\<lparr>lastValue := VDouble 0x401C000000000000\<rparr>)
   \<and> run_program example_arith program_1_plus_2_times_3 =
     Some ([], Inr (), new_Interpreter\<lparr>lastValue := VDouble 0x401C000000000000\<rparr>)
   \<and> rendering example_arith (VDouble 0x401C000000000000) = ''7''"
proof -
  let ?p = "new_Parser program_1_plus_2_times_3 ''script''"
  let ?q = "new_Parser program_2_times_3_plus_1 ''script''"
  let ?E = "expression example_arith 4"
  let ?one = "LiteralExpr (VDouble 0x3FF0000000000000)"
  let ?two = "LiteralExpr (VDouble 0x4000000000000000)"
  let ?three = "LiteralExpr (VDouble 0x4008000000000000)"
  have p: "unary example_arith ?E 4 ?p = Some (Returns ?one, ?p\<lparr>current := 1\<rparr>)"
    "unary example_arith ?E 3 (?p\<lparr>current := 2\<rparr>) = Some (Returns ?two, ?p\<lparr>current := 3\<rparr>)"
    "unary example_arith ?E 2 (?p\<lparr>current := 4\<rparr>) = Some (Returns ?three, ?p\<lparr>current := 5\<rparr>)"
    by (simp_all add: routine_defs new_Parser_def program_1_plus_2_times_3_def tk_def
        example_arith_def eval_nat_numeral del: expression.simps)
  have q: "unary example_arith ?E 4 ?q = Some (Returns ?two, ?q\<lparr>current := 1\<rparr>)"
    "unary example_arith ?E 3 (?q\<lparr>current := 2\<rparr>) = Some (Returns ?three, ?q\<lparr>current := 3\<rparr>)"
    "unary example_arith ?E 3 (?q\<lparr>current := 4\<rparr>) = Some (Returns ?one, ?q\<lparr>current := 5\<rparr>)"
    by (simp_all add: routine_defs new_Parser_def program_2_times_3_plus_1_def tk_def
        example_arith_def eval_nat_numeral del: expression.simps)
  have tp: "tokens (?p\<lparr>current := 1\<rparr>) ! 1 = tk PLUS ''+''"
    "tokens (?p\<lparr>current := 3\<rparr>) ! 3 = tk STAR ''*''"
    "type (tokens (?p\<lparr>current := 5\<rparr>) ! 5) = SEMICOLON"
    "length (tokens ?p) = 7"
    by (simp_all add: new_Parser_def program_1_plus_2_times_3_def tk_def)
  have tq: "tokens (?q\<lparr>current := 1\<rparr>) ! 1 = tk STAR ''*''"
    "tokens (?q\<lparr>current := 3\<rparr>) ! 3 = tk PLUS ''+''"
    "type (tokens (?q\<lparr>current := 5\<rparr>) ! 5) = SEMICOLON"
    "length (tokens ?q) = 7"
    by (simp_all add: new_Parser_def program_2_times_3_plus_1_def tk_def)
  have sw: "binary_switch example_arith STAR (VDouble 0x4000000000000000) (VDouble 0x4008000000000000)
       = Inr (VDouble 0x4018000000000000)"
    "binary_switch example_arith PLUS (VDouble 0x3FF0000000000000) (VDouble 0x4018000000000000)
       = Inr (VDouble 0x401C000000000000)"
    by (simp_all add: binary_switch_def example_arith_def)
  have ar: "stod example_arith ''1'' = Some 0x3FF0000000000000"
    "stod example_arith ''2'' = Some 0x4000000000000000"
    "stod example_arith ''3'' = Some 0x4008000000000000"
    "dmul example_arith 0x4000000000000000 0x4008000000000000 = 0x4018000000000000"
    "dadd example_arith 0x3FF0000000000000 0x4018000000000000 = 0x401C000000000000"
    "rendering example_arith (VDouble 0x401C000000000000) = ''7''"
    by (simp_all add: example_arith_def)
  note first = multiplication_binds_tighter[where F = example_arith and m = 4 and s = ?p
      and a = ?one and ?s1.0 = "?p\<lparr>current := 1\<rparr>"
      and b = ?two and ?s2.0 = "?p\<lparr>current := 3\<rparr>"
      and c = ?three and ?s3.0 = "?p\<lparr>current := 5\<rparr>"
      and ?op1.0 = "tk PLUS ''+''" and ?op2.0 = "tk STAR ''*''"
      and x = "VDouble 0x3FF0000000000000" and y = "VDouble 0x4000000000000000"
      and z = "VDouble 0x4008000000000000" and v = "VDouble 0x4018000000000000"
      and w = "VDouble 0x401C000000000000" and st = new_Interpreter]
  note second = multiplication_binds_tighter[where F = example_arith and m = 4 and s = ?q
      and a = ?two and ?s1.0 = "?q\<lparr>current := 1\<rparr>"
      and b = ?three and ?s2.0 = "?q\<lparr>current := 3\<rparr>"
      and c = ?one and ?s3.0 = "?q\<lparr>current := 5\<rparr>"]
  from first p tp sw ar
  have e1: "expression example_arith 5 ?p =
     Some (Returns (BinaryExpr ?one (tk PLUS ''+'') (BinaryExpr ?two (tk STAR ''*'') ?three)),
           ?p\<lparr>current := 5\<rparr>)"
    and ev: "evaluate example_arith
        (BinaryExpr ?one (tk PLUS ''+'') (BinaryExpr ?two (tk STAR ''*'') ?three)) new_Interpreter =
       (Inr (VDouble 0x401C000000000000), new_Interpreter\<lparr>lastValue := VDouble 0x401C000000000000\<rparr>)"
    and run: "run_program example_arith program_1_plus_2_times_3 =
     Some ([], Inr (), new_Interpreter\<lparr>lastValue := VDouble 0x401C000000000000\<rparr>)"
    by (simp_all add: tk_def eval_nat_numeral del: expression.simps evaluate.simps)
  from second q tq
  have e2: "expression example_arith 5 ?q =
     Some (Returns (BinaryExpr (BinaryExpr ?two (tk STAR ''*'') ?three) (tk PLUS ''+'') ?one),
           ?q\<lparr>current := 5\<rparr>)"
    by (simp add: tk_def eval_nat_numeral del: expression.simps)
  from p(1) e1 e2 sw ev run ar(6) show ?thesis
    by (simp del: expression.simps evaluate.simps)
qed

text \<open>
  Claim C9. A variable declaration without an initializer binds the name to nil, and
  reading the name afterwards gives nil and no fault: in the state the declaration left,
  also after the last value or the output have changed, and in every state where the name
  is bound to nil. The program \<open>var x; x;\<close> parses to such a declaration followed by the
  read, and runs to the end with \<open>x\<close> bound to nil and nil as the last value; so does
  \<open>var x; "s"; x;\<close>, where the last value before the read is a string.
\<close>

theorem var_without_initializer_is_nil:
  "execute F (VarDeclStmt name None is_const) s =
     (Inr (), s\<lparr>variables := (variables s)(lexeme name \<mapsto> VNil), lastValue := VNil\<rparr>)
   \<and> (\<forall>l c. evaluate F (VariableExpr name)
          (s\<lparr>variables := (variables s)(lexeme name \<mapsto> VNil), lastValue := l, cout := c\<rparr>) =
        (Inr VNil, s\<lparr>variables := (variables s)(lexeme name \<mapsto> VNil), lastValue := VNil, cout := c\<rparr>))
   \<and> (variables s' (lexeme name) = Some VNil \<longrightarrow>
        evaluate F (VariableExpr name) s' = (Inr VNil, s'\<lparr>lastValue := VNil\<rparr>))
   \<and> (\<exists>p. parse F (new_Parser program_var_x ''script'') =
         Some (Returns [VarDeclStmt (tk IDENTIFIER ''x'') None False,
                        ExpressionStmt (VariableExpr (tk IDENTIFIER ''x''))], p))
   \<and> run_program F program_var_x =
       Some ([], Inr (), new_Interpreter\<lparr>variables := [''x'' \<mapsto> VNil], lastValue := VNil\<rparr>)
   \<and> (\<exists>p. parse F (new_Parser program_var_x_later ''script'') =
         Some (Returns [VarDeclStmt (tk IDENTIFIER ''x'') None False,
                        ExpressionStmt (LiteralExpr (VString ''s'')),
                        ExpressionStmt (VariableExpr (tk IDENTIFIER ''x''))], p))
   \<and> run_program F program_var_x_later =
       Some ([], Inr (), new_Interpreter\<lparr>variables := [''x'' \<mapsto> VNil], lastValue := VNil\<rparr>)"
proof (intro conjI allI impI)
  show "execute F (VarDeclStmt name None is_const) s =
     (Inr (), s\<lparr>variables := (variables s)(lexeme name \<mapsto> VNil), lastValue := VNil\<rparr>)"
    by simp
  show "evaluate F (VariableExpr name)
          (s\<lparr>variables := (variables s)(lexeme name \<mapsto> VNil), lastValue := l, cout := c\<rparr>) =
        (Inr VNil, s\<lparr>variables := (variables s)(lexeme name \<mapsto> VNil), lastValue := VNil, cout := c\<rparr>)"
    for l c
    by simp
  show "evaluate F (VariableExpr name) s' = (Inr VNil, s'\<lparr>lastValue := VNil\<rparr>)"
    if "variables s' (lexeme name) = Some VNil"
    using that by simp
  show "\<exists>p. parse F (new_Parser program_var_x ''script'') =
         Some (Returns [VarDeclStmt (tk IDENTIFIER ''x'') None False,
                        ExpressionStmt (VariableExpr (tk IDENTIFIER ''x''))], p)"
    by (simp add: parser_defs program_var_x_def eval_nat_numeral)
  show "run_program F program_var_x =
       Some ([], Inr (), new_Interpreter\<lparr>variables := [''x'' \<mapsto> VNil], lastValue := VNil\<rparr>)"
    by (simp add: parser_defs program_var_x_def eval_nat_numeral)
  show "\<exists>p. parse F (new_Parser program_var_x_later ''script'') =
         Some (Returns [VarDeclStmt (tk IDENTIFIER ''x'') None False,
                        ExpressionStmt (LiteralExpr (VString ''s'')),
                        ExpressionStmt (VariableExpr (tk IDENTIFIER ''x''))], p)"
    by (simp add: parser_defs program_var_x_later_def eval_nat_numeral)
  show "run_program F program_var_x_later =
       Some ([], Inr (), new_Interpreter\<lparr>variables := [''x'' \<mapsto> VNil], lastValue := VNil\<rparr>)"
    by (simp add: parser_defs program_var_x_later_def eval_nat_numeral)
qed

theorem var_without_initializer_is_nil_witness:
  "variables (new_Interpreter\<lparr>variables := [''x'' \<mapsto> VNil], lastValue := VString ''s''\<rparr>)
      (lexeme (tk IDENTIFIER ''x'')) = Some VNil
   \<and> evaluate example_arith (VariableExpr (tk IDENTIFIER ''x''))
        (new_Interpreter\<lparr>variables := [''x'' \<mapsto> VNil], lastValue := VString ''s''\<rparr>) =
       (Inr VNil, new_Interpreter\<lparr>variables := [''x'' \<mapsto> VNil], lastValue := VNil\<rparr>)
   \<and> run_program example_arith program_var_x_later =
       Some ([], Inr (), new_Interpreter\<lparr>variables := [''x'' \<mapsto> VNil], lastValue := VNil\<rparr>)"
proof -
  let ?b = "new_Interpreter\<lparr>variables := [''x'' \<mapsto> VNil], lastValue := VString ''s''\<rparr>"
  have 1: "variables ?b (lexeme (tk IDENTIFIER ''x'')) = Some VNil"
    by (simp add: tk_def)
  from 1 var_without_initializer_is_nil[where F = example_arith and name = "tk IDENTIFIER ''x''"
      and s' = ?b]
  show ?thesis
    by (simp add: tk_def new_Interpreter_def)
qed

section \<open>Statements that begin with the print keyword\<close>

text \<open>
  Claim C10, as stated, fails: the expression after the keyword may itself call
  \<open>print\<close>, and then executing the statement writes. The program is
  \<open>print print("hi");\<close>.
\<close>

theorem print_statement_can_write:
  "run_program example_arith program_print_call =
     Some ([], Inr (), new_Interpreter\<lparr>lastValue := VNil, cout := [''hi'']\<rparr>)"
  by (simp add: parser_defs program_print_call_def eval_nat_numeral)

text \<open>Evaluating an expression without a call writes nothing.\<close>

lemma accept_call_free:
  "call_free e \<Longrightarrow> accept F e s = (r, s') \<Longrightarrow> cout s' = cout s"
proof (induction e arbitrary: s r s')
  case (LiteralExpr v)
  then show ?case by auto
next
  case (UnaryExpr op right)
  then show ?case
    by (fastforce split: prod.splits sum.splits Value.splits if_splits)
next
  case (BinaryExpr left op right)
  from BinaryExpr.prems show ?case
    by (auto split: prod.splits sum.splits dest!: BinaryExpr.IH)
next
  case (GroupingExpr e)
  then show ?case
    by (fastforce split: prod.splits sum.splits)
next
  case (VariableExpr name)
  then show ?case by (auto split: option.splits)
next
  case (AssignExpr name e)
  then show ?case
    by (fastforce split: prod.splits sum.splits)
next
  case (CallExpr callee paren arguments)
  then show ?case by simp
qed

lemma evaluate_call_free: "call_free e \<Longrightarrow> cout (snd (evaluate F e s)) = cout s"
  using accept_call_free[of e F s]
  by (cases "accept F e s") (auto split: sum.splits)

text \<open>
  Claim C10, amended. A statement that begins with a print keyword is parsed by
  \<open>printStatement\<close> from the next token on, and that gives the plain expression
  statement of the expression that follows, up to its semicolon: no node stands for the
  keyword. Executing the statement writes what evaluating the expression writes, which is
  nothing when the expression contains no call.
\<close>

theorem print_keyword_adds_nothing:
  "(current s < length (tokens s) \<and> type (tokens s ! current s) = PRINT \<longrightarrow>
      statement F (Suc n) s = printStatement F n (s\<lparr>current := Suc (current s)\<rparr>))
   \<and> (expression F n s1 = Some (Returns expr, s2) \<and> current s2 < length (tokens s2)
        \<and> type (tokens s2 ! current s2) = SEMICOLON \<longrightarrow>
      printStatement F n s1 = Some (Returns (ExpressionStmt expr), s2\<lparr>current := Suc (current s2)\<rparr>))
   \<and> cout (snd (execute F (ExpressionStmt expr) st)) = cout (snd (evaluate F expr st))
   \<and> (call_free expr \<longrightarrow> cout (snd (execute F (ExpressionStmt expr) st)) = cout st)"
proof (intro conjI impI)
  assume "current s < length (tokens s) \<and> type (tokens s ! current s) = PRINT"
  then show "statement F (Suc n) s = printStatement F n (s\<lparr>current := Suc (current s)\<rparr>)"
    by (simp add: bind_p_def return_p_def peek_def previous_def isAtEnd_def
        increment_current_def advance_def check_def match_def)
next
  assume "expression F n s1 = Some (Returns expr, s2) \<and> current s2 < length (tokens s2)
        \<and> type (tokens s2 ! current s2) = SEMICOLON"
  then show "printStatement F n s1 =
      Some (Returns (ExpressionStmt expr), s2\<lparr>current := Suc (current s2)\<rparr>)"
    by (simp add: printStatement_def bind_p_def return_p_def peek_def previous_def isAtEnd_def
        increment_current_def advance_def check_def consume_def)
next
  show "cout (snd (execute F (ExpressionStmt expr) st)) = cout (snd (evaluate F expr st))"
    by (cases "accept F expr st") (auto split: sum.splits)
next
  assume "call_free expr"
  then show "cout (snd (execute F (ExpressionStmt expr) st)) = cout st"
    using evaluate_call_free[of expr F st]
    by (cases "accept F expr st") (auto split: sum.splits)
qed

theorem print_keyword_adds_nothing_witness:
  "type (tokens (new_Parser program_print_string ''script'') ! 0) = PRINT
   \<and> expression example_arith 10 ((new_Parser program_print_string ''script'')\<lparr>current := 1\<rparr>) =
       Some (Returns (LiteralExpr (VString ''hi'')),
             (new_Parser program_print_string ''script'')\<lparr>current := 2\<rparr>)
   \<and> statement example_arith 11 (new_Parser program_print_string ''script'') =
       Some (Returns (ExpressionStmt (LiteralExpr (VString ''hi''))),
             (new_Parser program_print_string ''script'')\<lparr>current := 3\<rparr>)
   \<and> call_free (LiteralExpr (VString ''hi''))
   \<and> cout (snd (execute example_arith (ExpressionStmt (LiteralExpr (VString ''hi'')))
                    new_Interpreter)) = []"
proof -
  let ?s = "new_Parser program_print_string ''script''"
  have 1: "current ?s < length (tokens ?s) \<and> type (tokens ?s ! current ?s) = PRINT"
    by (simp add: new_Parser_def program_print_string_def tk_def)
  have 2: "expression example_arith 10 (?s\<lparr>current := Suc (current ?s)\<rparr>) =
       Some (Returns (LiteralExpr (VString ''hi'')), ?s\<lparr>current := 2\<rparr>)"
    by (simp add: routine_defs new_Parser_def program_print_string_def tk_def eval_nat_numeral)
  have 3: "current (?s\<lparr>current := 2\<rparr>) < length (tokens (?s\<lparr>current := 2\<rparr>))
      \<and> type (tokens (?s\<lparr>current := 2\<rparr>) ! current (?s\<lparr>current := 2\<rparr>)) = SEMICOLON"
    by (simp add: new_Parser_def program_print_string_def tk_def)
  have 4: "call_free (LiteralExpr (VString ''hi''))"
    by simp
  from 1 2 3 4
    print_keyword_adds_nothing[of ?s example_arith 10 "?s\<lparr>current := Suc (current ?s)\<rparr>"
      "LiteralExpr (VString ''hi'')" "?s\<lparr>current := 2\<rparr>" new_Interpreter]
  show ?thesis
    by (simp add: new_Parser_def new_Interpreter_def eval_nat_numeral)
qed

section \<open>Calls with many arguments\<close>

text \<open>An identifier followed by a comma, a right parenthesis or a semicolon, as an expression.\<close>

lemma expression_identifier:
  assumes "Suc (current s) < length (tokens s)"
    and "type (tokens s ! current s) = IDENTIFIER"
    and "type (tokens s ! Suc (current s)) = COMMA \<or> type (tokens s ! Suc (current s)) = RIGHT_PAREN
         \<or> type (tokens s ! Suc (current s)) = SEMICOLON"
    and "3 \<le> e"
  shows "expression F e s =
           Some (Returns (VariableExpr (tokens s ! current s)), s\<lparr>current := Suc (current s)\<rparr>)"
proof -
  from assms(4) obtain m where e: "e = Suc (Suc (Suc m))"
    by (metis Suc_le_D numeral_3_eq_3 Suc_le_mono)
  from assms(3) show ?thesis
  proof (elim disjE)
    assume "type (tokens s ! Suc (current s)) = COMMA"
    with assms(1,2) show ?thesis unfolding e by (simp add: routine_defs)
  next
    assume "type (tokens s ! Suc (current s)) = RIGHT_PAREN"
    with assms(1,2) show ?thesis unfolding e by (simp add: routine_defs)
  next
    assume "type (tokens s ! Suc (current s)) = SEMICOLON"
    with assms(1,2) show ?thesis unfolding e by (simp add: routine_defs)
  qed
qed

lemma over_limit_0: "over_limit a 0 = (if 255 \<le> a then 1 else 0)"
  by (simp add: over_limit_def)

lemma over_limit_Suc: "over_limit a (Suc k) = (if 255 \<le> a then 1 else 0) + over_limit (Suc a) k"
  by (simp add: over_limit_def)

lemma report_too_many:
  assumes "current s < length (tokens s)" "tokens s ! current s = tk IDENTIFIER ''a''"
  shows "bind_p (if 255 \<le> length args
             then bind_p peek (\<lambda>p.
                  bind_p (error p ''Cannot have more than 255 arguments.'') (\<lambda>_. return_p ()))
             else return_p ()) f s
         = f () (s\<lparr>diagnostics := diagnostics s
              @ (if 255 \<le> length (args :: Expr list) then [too_many_arguments (filename s)] else [])\<rparr>)"
  using assms by (simp add: routine_defs too_many_arguments_def tk_def)

lemma finishCall_loop_arguments:
  assumes "tokens s = pre @ args_tokens k @ tk RIGHT_PAREN '')'' # post"
    and "current s = length pre" and "3 \<le> e" and "k < n"
  shows "finishCall_loop (expression F e) n args s =
     Some (Returns (args @ replicate (Suc k) (VariableExpr (tk IDENTIFIER ''a''))),
           s\<lparr>current := length pre + 2 * k + 1,
             diagnostics := diagnostics s
                @ replicate (over_limit (length args) k) (too_many_arguments (filename s))\<rparr>)"
  using assms
proof (induction k arbitrary: s pre args n)
  case 0
  then obtain n' where n: "n = Suc n'" by (cases n) auto
  define d where "d = s\<lparr>diagnostics := diagnostics s
      @ (if 255 \<le> length args then [too_many_arguments (filename s)] else [])\<rparr>"
  from 0 have s: "current s < length (tokens s)" "tokens s ! current s = tk IDENTIFIER ''a''"
    by simp_all
  from 0 have d: "Suc (current d) < length (tokens d)" "tokens d ! current d = tk IDENTIFIER ''a''"
    "tokens d ! Suc (current d) = tk RIGHT_PAREN '')''" "current d = length pre"
    by (simp_all add: d_def nth_append)
  have arg: "expression F e d = Some (Returns (VariableExpr (tk IDENTIFIER ''a'')),
                 d\<lparr>current := Suc (length pre)\<rparr>)"
    using expression_identifier[OF d(1) _ _ "0"(3), of F] d by (simp add: tk_def)
  have stop: "match COMMA (d\<lparr>current := Suc (length pre)\<rparr>)
               = Some (Returns False, d\<lparr>current := Suc (length pre)\<rparr>)"
    using d by (simp add: routine_defs tk_def)
  show ?case
    unfolding n finishCall_loop.simps report_too_many[OF s] d_def[symmetric]
    by (simp add: bind_p_Returns[where m = "expression F e", OF arg] bind_p_Returns[where m = "match COMMA", OF stop] return_p_def)
      (simp add: d_def over_limit_0)
next
  case (Suc k)
  then obtain n' where n: "n = Suc n'" "k < n'" by (cases n) auto
  define d where "d = s\<lparr>diagnostics := diagnostics s
      @ (if 255 \<le> length args then [too_many_arguments (filename s)] else [])\<rparr>"
  from Suc.prems have s: "current s < length (tokens s)" "tokens s ! current s = tk IDENTIFIER ''a''"
    by simp_all
  from Suc.prems have d: "Suc (Suc (current d)) < length (tokens d)"
    "tokens d ! current d = tk IDENTIFIER ''a''"
    "tokens d ! Suc (current d) = tk COMMA '',''" "current d = length pre"
    by (simp_all add: d_def nth_append)
  have arg: "expression F e d = Some (Returns (VariableExpr (tk IDENTIFIER ''a'')),
                 d\<lparr>current := Suc (length pre)\<rparr>)"
    using expression_identifier[OF _ _ _ Suc.prems(3), of d F] d by (simp add: tk_def)
  let ?s2 = "d\<lparr>current := Suc (Suc (length pre))\<rparr>"
  have comma: "match COMMA (d\<lparr>current := Suc (length pre)\<rparr>) = Some (Returns True, ?s2)"
    using d by (simp add: routine_defs tk_def)
  have "finishCall_loop (expression F e) n' (args @ [VariableExpr (tk IDENTIFIER ''a'')]) ?s2 =
     Some (Returns ((args @ [VariableExpr (tk IDENTIFIER ''a'')])
                    @ replicate (Suc k) (VariableExpr (tk IDENTIFIER ''a''))),
           ?s2\<lparr>current := length (pre @ [tk IDENTIFIER ''a'', tk COMMA '','']) + 2 * k + 1,
             diagnostics := diagnostics ?s2
                @ replicate (over_limit (length (args @ [VariableExpr (tk IDENTIFIER ''a'')])) k)
                    (too_many_arguments (filename ?s2))\<rparr>)"
    using Suc.prems n by (intro Suc.IH) (simp_all add: d_def)
  then have rest: "finishCall_loop (expression F e) n' (args @ [VariableExpr (tk IDENTIFIER ''a'')]) ?s2 =
     Some (Returns (args @ replicate (Suc (Suc k)) (VariableExpr (tk IDENTIFIER ''a''))),
           s\<lparr>current := length pre + 2 * Suc k + 1,
             diagnostics := diagnostics s
                @ replicate (over_limit (length args) (Suc k)) (too_many_arguments (filename s))\<rparr>)"
    by (simp add: d_def over_limit_Suc replicate_app_Cons_same)
  show ?case
    unfolding n finishCall_loop.simps report_too_many[OF s] d_def[symmetric]
    by (simp add: bind_p_Returns[where m = "expression F e", OF arg] bind_p_Returns[where m = "match COMMA", OF comma] rest)
qed

lemma length_args_tokens: "length (args_tokens k) = 2 * k + 1"
  by (induction k) simp_all

lemma args_tokens_first: "args_tokens k ! 0 = tk IDENTIFIER ''a''"
  by (cases k) simp_all

lemma call_program_tail:
  "call_program k ! Suc (Suc (2 * k + 1 + j)) =
     [tk RIGHT_PAREN '')'', tk SEMICOLON '';'',
      tk IDENTIFIER ''z'', tk SEMICOLON '';'', tk END_OF_FILE []] ! j"
  by (simp add: call_program_def nth_append length_args_tokens)

lemma call_program_nth:
  "call_program k ! 0 = tk IDENTIFIER ''f''"
  "call_program k ! Suc 0 = tk LEFT_PAREN ''(''"
  "call_program k ! 2 = tk IDENTIFIER ''a''"
  "call_program k ! (2 * k + 3) = tk RIGHT_PAREN '')''"
  "call_program k ! (2 * k + 4) = tk SEMICOLON '';''"
  "call_program k ! (2 * k + 5) = tk IDENTIFIER ''z''"
  "call_program k ! (2 * k + 6) = tk SEMICOLON '';''"
  "call_program k ! (2 * k + 7) = tk END_OF_FILE []"
  "length (call_program k) = 2 * k + 8"
proof -
  show "call_program k ! 0 = tk IDENTIFIER ''f''"
    by (simp add: call_program_def)
  show "call_program k ! Suc 0 = tk LEFT_PAREN ''(''"
    by (simp add: call_program_def)
  have "call_program k ! Suc (Suc 0) = tk IDENTIFIER ''a''"
    by (simp add: call_program_def nth_append length_args_tokens args_tokens_first)
  then show "call_program k ! 2 = tk IDENTIFIER ''a''"
    by (simp only: numeral_2_eq_2)
  have "2 * k + 3 = Suc (Suc (2 * k + 1 + 0))" by simp
  then show "call_program k ! (2 * k + 3) = tk RIGHT_PAREN '')''"
    by (simp only: call_program_tail nth_Cons_0)
  have "2 * k + 4 = Suc (Suc (2 * k + 1 + 1))" by simp
  then show "call_program k ! (2 * k + 4) = tk SEMICOLON '';''"
    by (simp only: call_program_tail) simp
  have "2 * k + 5 = Suc (Suc (2 * k + 1 + 2))" by simp
  then show "call_program k ! (2 * k + 5) = tk IDENTIFIER ''z''"
    by (simp only: call_program_tail) simp
  have "2 * k + 6 = Suc (Suc (2 * k + 1 + 3))" by simp
  then show "call_program k ! (2 * k + 6) = tk SEMICOLON '';''"
    by (simp only: call_program_tail) simp
  have "2 * k + 7 = Suc (Suc (2 * k + 1 + 4))" by simp
  then show "call_program k ! (2 * k + 7) = tk END_OF_FILE []"
    by (simp only: call_program_tail) simp
  show "length (call_program k) = 2 * k + 8"
    by (simp add: call_program_def length_args_tokens)
qed

lemma call_program_end:
  "p = 2 * k + 3 \<Longrightarrow> call_program k ! p = tk RIGHT_PAREN '')''"
  "p = 2 * k + 4 \<Longrightarrow> call_program k ! p = tk SEMICOLON '';''"
  "p = 2 * k + 5 \<Longrightarrow> call_program k ! p = tk IDENTIFIER ''z''"
  "p = 2 * k + 6 \<Longrightarrow> call_program k ! p = tk SEMICOLON '';''"
  "p = 2 * k + 7 \<Longrightarrow> call_program k ! p = tk END_OF_FILE []"
  by (simp_all only: call_program_nth)

text \<open>The call \<open>f(a, ..., a)\<close> with \<open>k + 1\<close> arguments, as an expression.\<close>

lemma call_expression:
  assumes "k < m"
  shows "expression F (Suc (Suc (Suc (Suc (Suc m))))) (new_Parser (call_program k) fname) =
     Some (Returns (CallExpr (VariableExpr (tk IDENTIFIER ''f'')) (tk RIGHT_PAREN '')'')
                      (replicate (Suc k) (VariableExpr (tk IDENTIFIER ''a'')))),
           \<lparr>tokens = call_program k, filename = fname, current = 2 * k + 4,
            diagnostics = replicate (Suc k - 255) (too_many_arguments fname)\<rparr>)"
proof -
  let ?E = "expression F (Suc (Suc (Suc (Suc m))))"
  let ?f = "VariableExpr (tk IDENTIFIER ''f'')"
  let ?ds = "replicate (Suc k - 255) (too_many_arguments fname)"
  define args where "args = replicate (Suc k) (VariableExpr (tk IDENTIFIER ''a''))"
  define whole where "whole = CallExpr ?f (tk RIGHT_PAREN '')'') args"
  define S0 where "S0 = \<lparr>tokens = call_program k, filename = fname, current = 0, diagnostics = []\<rparr>"
  define S1 where "S1 = \<lparr>tokens = call_program k, filename = fname, current = 1, diagnostics = []\<rparr>"
  define S2 where "S2 = \<lparr>tokens = call_program k, filename = fname, current = 2, diagnostics = []\<rparr>"
  define S3 where
    "S3 = \<lparr>tokens = call_program k, filename = fname, current = 2 * k + 3, diagnostics = ?ds\<rparr>"
  define S4 where
    "S4 = \<lparr>tokens = call_program k, filename = fname, current = 2 * k + 4, diagnostics = ?ds\<rparr>"
  have prim: "primary F ?E S0 = Some (Returns ?f, S1)"
    by (simp add: S0_def S1_def routine_defs call_program_nth tk_def)
  have lp: "match LEFT_PAREN S1 = Some (Returns True, S2)"
    by (simp add: S1_def S2_def routine_defs call_program_nth tk_def)
  have chk: "check RIGHT_PAREN S2 = Some (Returns False, S2)"
    by (simp add: S2_def routine_defs call_program_nth tk_def)
  have "finishCall_loop ?E (Suc (Suc m)) [] S2 =
     Some (Returns ([] @ replicate (Suc k) (VariableExpr (tk IDENTIFIER ''a''))),
           S2\<lparr>current := length [tk IDENTIFIER ''f'', tk LEFT_PAREN ''(''] + 2 * k + 1,
             diagnostics := diagnostics S2
                @ replicate (over_limit (length ([] :: Expr list)) k)
                    (too_many_arguments (filename S2))\<rparr>)"
    using assms
    by (intro finishCall_loop_arguments[where post = "[tk SEMICOLON '';'', tk IDENTIFIER ''z'', tk SEMICOLON '';'', tk END_OF_FILE []]"])
       (simp_all add: S2_def call_program_def)
  then have loop: "finishCall_loop ?E (Suc (Suc m)) [] S2 = Some (Returns args, S3)"
    by (simp add: S2_def S3_def args_def over_limit_def)
  have cons: "consume RIGHT_PAREN msg S3 = Some (Returns (tk RIGHT_PAREN '')''), S4)" for msg
    by (simp add: S3_def S4_def routine_defs call_program_nth call_program_end tk_def)
  have fin: "finishCall ?E (Suc (Suc m)) ?f S2 = Some (Returns whole, S4)"
    unfolding finishCall_def
    by (simp add: bind_p_Returns[where m = "check RIGHT_PAREN", OF chk]
        bind_p_Returns[where m = "finishCall_loop ?E (Suc (Suc m)) []", OF loop]
        bind_p_Returns[where m = "consume RIGHT_PAREN _", OF cons] return_p_def whole_def
        del: finishCall_loop.simps)
  have semi: "type (tokens S4 ! current S4) = SEMICOLON" "current S4 < length (tokens S4)"
    by (simp_all add: S4_def call_program_nth call_program_end tk_def)
  have none: "match_any ts S4 = Some (Returns False, S4)" if "SEMICOLON \<notin> set ts" for ts
    using that semi by (induction ts) (auto simp: routine_defs)
  have nomatch: "match t S4 = Some (Returns False, S4)" if "t \<noteq> SEMICOLON" for t
    using that semi by (auto simp: routine_defs)
  have cl: "call_loop ?E (Suc (Suc (Suc m))) ?f S1 = Some (Returns whole, S4)"
    by (simp add: bind_p_Returns[where m = "match LEFT_PAREN", OF lp]
        bind_p_Returns[where m = "finishCall ?E (Suc (Suc m)) ?f", OF fin]
        bind_p_Returns[where m = "match _", OF nomatch] return_p_def)
  have call: "call F ?E (Suc (Suc (Suc m))) S0 = Some (Returns whole, S4)"
    unfolding call_def
    by (simp add: bind_p_Returns[where m = "primary F ?E", OF prim] cl del: call_loop.simps)
  have first: "match_any [BANG, MINUS] S0 = Some (Returns False, S0)"
    by (simp add: S0_def routine_defs call_program_nth tk_def)
  have un: "unary F ?E (Suc (Suc (Suc (Suc m)))) S0 = Some (Returns whole, S4)"
    by (simp add: bind_p_Returns[where m = "match_any _", OF first] call
        del: call_loop.simps match_any.simps)
  have lor: "logicalOr F ?E (Suc (Suc (Suc (Suc m)))) S0 = Some (Returns whole, S4)"
    unfolding logicalOr_def logicalAnd_def equality_def comparison_def term_expr_def factor_def
    by (simp add: bind_p_def un none nomatch return_p_def del: unary.simps match_any.simps)
  have "expression F (Suc (Suc (Suc (Suc (Suc m))))) S0 = Some (Returns whole, S4)"
    by (simp add: bind_p_def lor nomatch return_p_def)
  then show ?thesis
    by (simp add: new_Parser_def S0_def S4_def whole_def args_def)
qed

text \<open>The program \<open>f(a, ..., a); z;\<close> with \<open>k + 1\<close> arguments.\<close>

lemma call_program_parse:
  "parse F (new_Parser (call_program k) fname) =
     Some (Returns
             [ExpressionStmt
                (CallExpr (VariableExpr (tk IDENTIFIER ''f'')) (tk RIGHT_PAREN '')'')
                   (replicate (Suc k) (VariableExpr (tk IDENTIFIER ''a'')))),
              ExpressionStmt (VariableExpr (tk IDENTIFIER ''z''))],
           \<lparr>tokens = call_program k, filename = fname, current = 2 * k + 7,
            diagnostics = replicate (Suc k - 255) (too_many_arguments fname)\<rparr>)"
proof -
  let ?ds = "replicate (Suc k - 255) (too_many_arguments fname)"
  define m where "m = 8 * k + 32"
  define whole where "whole = CallExpr (VariableExpr (tk IDENTIFIER ''f'')) (tk RIGHT_PAREN '')'')
                   (replicate (Suc k) (VariableExpr (tk IDENTIFIER ''a'')))"
  define S0 where "S0 = new_Parser (call_program k) fname"
  define S4 where
    "S4 = \<lparr>tokens = call_program k, filename = fname, current = 2 * k + 4, diagnostics = ?ds\<rparr>"
  define S5 where
    "S5 = \<lparr>tokens = call_program k, filename = fname, current = 2 * k + 5, diagnostics = ?ds\<rparr>"
  define S6 where
    "S6 = \<lparr>tokens = call_program k, filename = fname, current = 2 * k + 6, diagnostics = ?ds\<rparr>"
  define S7 where
    "S7 = \<lparr>tokens = call_program k, filename = fname, current = 2 * k + 7, diagnostics = ?ds\<rparr>"
  have fuel: "4 * length (tokens S0) + 8 = Suc (Suc (Suc (Suc (Suc (Suc (Suc (Suc m)))))))"
    by (simp add: S0_def new_Parser_def call_program_nth m_def)
  have km: "k < m" by (simp add: m_def)
  have at_start: "isAtEnd S0 = Some (Returns False, S0)"
    by (simp add: S0_def new_Parser_def routine_defs call_program_nth tk_def)
  have start: "match t S0 = Some (Returns False, S0)" if "t \<noteq> IDENTIFIER" for t
    using that by (auto simp: S0_def new_Parser_def routine_defs call_program_nth tk_def)
  have e1: "expression F (Suc (Suc (Suc (Suc (Suc m))))) S0 = Some (Returns whole, S4)"
    unfolding S0_def S4_def whole_def by (rule call_expression[OF km])
  have c1: "consume SEMICOLON msg S4 = Some (Returns (tk SEMICOLON '';''), S5)" for msg
    by (simp add: S4_def S5_def routine_defs call_program_nth call_program_end tk_def)
  have d1: "declaration_stmt F (Suc (Suc (Suc (Suc (Suc (Suc (Suc m))))))) S0 =
              Some (Returns (ExpressionStmt whole), S5)"
    by (simp add: bind_p_def start e1 c1 expressionStatement_def return_p_def
        del: expression.simps)
  have more: "isAtEnd S5 = Some (Returns False, S5)"
    by (simp add: S5_def routine_defs call_program_nth call_program_end tk_def)
  have next_stmt: "match t S5 = Some (Returns False, S5)" if "t \<noteq> IDENTIFIER" for t
    using that by (auto simp: S5_def routine_defs call_program_nth call_program_end tk_def)
  have "expression F (Suc (Suc (Suc (Suc m)))) S5 =
          Some (Returns (VariableExpr (tokens S5 ! current S5)), S5\<lparr>current := Suc (current S5)\<rparr>)"
    by (rule expression_identifier)
       (simp_all add: S5_def call_program_nth call_program_end tk_def)
  then have e2: "expression F (Suc (Suc (Suc (Suc m)))) S5 =
          Some (Returns (VariableExpr (tk IDENTIFIER ''z'')), S6)"
    by (simp add: S5_def S6_def call_program_nth call_program_end)
  have c2: "consume SEMICOLON msg S6 = Some (Returns (tk SEMICOLON '';''), S7)" for msg
    by (simp add: S6_def S7_def routine_defs call_program_nth call_program_end tk_def)
  have d2: "declaration_stmt F (Suc (Suc (Suc (Suc (Suc (Suc m)))))) S5 =
              Some (Returns (ExpressionStmt (VariableExpr (tk IDENTIFIER ''z''))), S7)"
    by (simp add: bind_p_def next_stmt e2 c2 expressionStatement_def return_p_def
        del: expression.simps)
  have stop: "isAtEnd S7 = Some (Returns True, S7)"
    by (simp add: S7_def routine_defs call_program_nth call_program_end tk_def)
  have "parse F S0 = Some (Returns [ExpressionStmt whole,
              ExpressionStmt (VariableExpr (tk IDENTIFIER ''z''))], S7)"
    unfolding parse_def parse_fuel_def fuel
    by (simp add: bind_p_def try_catch_def at_start more stop d1 d2 return_p_def
        del: declaration_stmt.simps statement.simps)
  then show ?thesis
    by (simp add: S0_def S7_def whole_def)
qed

text \<open>
  One turn of the argument loop with 255 arguments or more collected: the diagnostic is
  recorded at the token under the cursor, and the turn goes on as any other.
\<close>

lemma too_many_step:
  assumes "255 \<le> length arguments" and "current s < length (tokens s)"
  shows "finishCall_loop E (Suc n) arguments s =
           bind_p E (\<lambda>arg.
           bind_p (match COMMA) (\<lambda>m.
             if m then finishCall_loop E n (arguments @ [arg])
             else return_p (arguments @ [arg])))
           (s\<lparr>diagnostics := diagnostics s @
               [\<lparr>severity = ERROR,
                 message = (if type (tokens s ! current s) = END_OF_FILE
                            then ''Cannot have more than 255 arguments. at end of file''
                            else ''Cannot have more than 255 arguments. at '' @ [CHR 39]
                                 @ lexeme (tokens s ! current s) @ [CHR 39]),
                 location = \<lparr>loc_filename = filename s,
                             loc_line = line (tokens s ! current s),
                             loc_column = column (tokens s ! current s)\<rparr>\<rparr>]\<rparr>)"
  using assms by (simp add: bind_p_def return_p_def peek_def error_def report_def)

text \<open>
  Claim C8. More than 255 arguments in a call are reported and are not fatal. A turn of
  the argument loop that starts with 255 arguments or more records one diagnostic at the
  token under the cursor and then does what every turn does: it parses the argument, adds
  it to the list and goes on after a comma. For every \<open>k\<close>, the program
  \<open>f(a, ..., a); z;\<close> with \<open>k + 1\<close> arguments parses to the call with all its \<open>k + 1\<close>
  arguments followed by the statement \<open>z;\<close>, the cursor ends on the end-of-file token, and
  one diagnostic is recorded for each argument after the 255th (none when there are at
  most 255).
\<close>

theorem too_many_arguments_is_not_fatal:
  "(255 \<le> length arguments \<and> current s < length (tokens s) \<longrightarrow>
      finishCall_loop E (Suc n) arguments s =
        bind_p E (\<lambda>arg.
        bind_p (match COMMA) (\<lambda>m.
          if m then finishCall_loop E n (arguments @ [arg])
          else return_p (arguments @ [arg])))
        (s\<lparr>diagnostics := diagnostics s @
            [\<lparr>severity = ERROR,
              message = (if type (tokens s ! current s) = END_OF_FILE
                         then ''Cannot have more than 255 arguments. at end of file''
                         else ''Cannot have more than 255 arguments. at '' @ [CHR 39]
                              @ lexeme (tokens s ! current s) @ [CHR 39]),
              location = \<lparr>loc_filename = filename s,
                          loc_line = line (tokens s ! current s),
                          loc_column = column (tokens s ! current s)\<rparr>\<rparr>]\<rparr>))
   \<and> parse F (new_Parser (call_program k) fname) =
     Some (Returns
             [ExpressionStmt
                (CallExpr (VariableExpr (tk IDENTIFIER ''f'')) (tk RIGHT_PAREN '')'')
                   (replicate (Suc k) (VariableExpr (tk IDENTIFIER ''a'')))),
              ExpressionStmt (VariableExpr (tk IDENTIFIER ''z''))],
           \<lparr>tokens = call_program k, filename = fname, current = 2 * k + 7,
            diagnostics = replicate (Suc k - 255) (too_many_arguments fname)\<rparr>)"
  using too_many_step[of arguments s E n] call_program_parse[of F k fname]
  by blast

theorem too_many_arguments_is_not_fatal_witness:
  "255 \<le> length (replicate 255 (LiteralExpr VNil))
   \<and> current (new_Parser three_tokens ''script'') < length (tokens (new_Parser three_tokens ''script''))
   \<and> finishCall_loop (expression example_arith 3) (Suc 0) (replicate 255 (LiteralExpr VNil))
         (new_Parser three_tokens ''script'') =
       Some (Returns (replicate 255 (LiteralExpr VNil) @ [VariableExpr (tk IDENTIFIER ''a'')]),
             \<lparr>tokens = three_tokens, filename = ''script'', current = 1,
              diagnostics = [too_many_arguments ''script'']\<rparr>)
   \<and> parse example_arith (new_Parser (call_program 254) ''script'') =
     Some (Returns
             [ExpressionStmt
                (CallExpr (VariableExpr (tk IDENTIFIER ''f'')) (tk RIGHT_PAREN '')'')
                   (replicate 255 (VariableExpr (tk IDENTIFIER ''a'')))),
              ExpressionStmt (VariableExpr (tk IDENTIFIER ''z''))],
           \<lparr>tokens = call_program 254, filename = ''script'', current = 515,
            diagnostics = []\<rparr>)
   \<and> parse example_arith (new_Parser (call_program 255) ''script'') =
     Some (Returns
             [ExpressionStmt
                (CallExpr (VariableExpr (tk IDENTIFIER ''f'')) (tk RIGHT_PAREN '')'')
                   (replicate 256 (VariableExpr (tk IDENTIFIER ''a'')))),
              ExpressionStmt (VariableExpr (tk IDENTIFIER ''z''))],
           \<lparr>tokens = call_program 255, filename = ''script'', current = 517,
            diagnostics = [too_many_arguments ''script'']\<rparr>)"
proof -
  let ?s = "new_Parser three_tokens ''script''"
  let ?args = "replicate 255 (LiteralExpr VNil)"
  have 1: "255 \<le> length ?args \<and> current ?s < length (tokens ?s)"
    by (simp add: new_Parser_def three_tokens_def)
  from 1 too_many_arguments_is_not_fatal[of ?args ?s "expression example_arith 3" 0
      example_arith 254 "''script''"]
  have 2: "finishCall_loop (expression example_arith 3) (Suc 0) ?args ?s =
       Some (Returns (?args @ [VariableExpr (tk IDENTIFIER ''a'')]),
             \<lparr>tokens = three_tokens, filename = ''script'', current = 1,
              diagnostics = [too_many_arguments ''script'']\<rparr>)"
    by (simp add: routine_defs new_Parser_def three_tokens_def tk_def too_many_arguments_def
        eval_nat_numeral del: finishCall_loop.simps replicate.simps)
  from 1 2 too_many_arguments_is_not_fatal[of ?args ?s "expression example_arith 3" 0
      example_arith 254 "''script''"]
    too_many_arguments_is_not_fatal[of ?args ?s "expression example_arith 3" 0
      example_arith 255 "''script''"]
  show ?thesis
    by (simp del: finishCall_loop.simps)
qed

end
